theory Spec2Isabelle
  imports Complex_Main "HOL-Library.Multiset"
begin

section \<open>JavaScript numbers\<close>

text \<open>
  The services compute with JavaScript numbers. A number is modelled as a real number
  or one of the three special values \<open>Infinity\<close>, \<open>-Infinity\<close> and \<open>NaN\<close>.
  Arithmetic on the finite values is exact: rounding, overflow to infinity and the
  sign of zero are left out of the model (zero is the positive zero). The special
  values follow IEEE 754 as ECMAScript defines the operators.
\<close>

datatype jsnum = Fin real | PInf | NInf | NaN

fun is_fin :: "jsnum \<Rightarrow> bool" where
  "is_fin (Fin x) = True"
| "is_fin PInf = False"
| "is_fin NInf = False"
| "is_fin NaN = False"

fun the_fin :: "jsnum \<Rightarrow> real" where
  "the_fin (Fin x) = x"
| "the_fin PInf = 0"
| "the_fin NInf = 0"
| "the_fin NaN = 0"

text \<open>\<open>a + b\<close>\<close>

fun jadd :: "jsnum \<Rightarrow> jsnum \<Rightarrow> jsnum" where
  "jadd (Fin a) (Fin b) = Fin (a + b)"
| "jadd (Fin a) PInf = PInf"
| "jadd (Fin a) NInf = NInf"
| "jadd (Fin a) NaN = NaN"
| "jadd PInf (Fin b) = PInf"
| "jadd PInf PInf = PInf"
| "jadd PInf NInf = NaN"
| "jadd PInf NaN = NaN"
| "jadd NInf (Fin b) = NInf"
| "jadd NInf PInf = NaN"
| "jadd NInf NInf = NInf"
| "jadd NInf NaN = NaN"
| "jadd NaN b = NaN"

text \<open>\<open>a - b\<close>\<close>

fun jsub :: "jsnum \<Rightarrow> jsnum \<Rightarrow> jsnum" where
  "jsub (Fin a) (Fin b) = Fin (a - b)"
| "jsub (Fin a) PInf = NInf"
| "jsub (Fin a) NInf = PInf"
| "jsub (Fin a) NaN = NaN"
| "jsub PInf (Fin b) = PInf"
| "jsub PInf PInf = NaN"
| "jsub PInf NInf = PInf"
| "jsub PInf NaN = NaN"
| "jsub NInf (Fin b) = NInf"
| "jsub NInf PInf = NInf"
| "jsub NInf NInf = NaN"
| "jsub NInf NaN = NaN"
| "jsub NaN b = NaN"

text \<open>\<open>a * b\<close>: infinity times zero is \<open>NaN\<close>.\<close>

fun jmul :: "jsnum \<Rightarrow> jsnum \<Rightarrow> jsnum" where
  "jmul (Fin a) (Fin b) = Fin (a * b)"
| "jmul (Fin a) PInf = (if a = 0 then NaN else if 0 < a then PInf else NInf)"
| "jmul (Fin a) NInf = (if a = 0 then NaN else if 0 < a then NInf else PInf)"
| "jmul (Fin a) NaN = NaN"
| "jmul PInf (Fin b) = (if b = 0 then NaN else if 0 < b then PInf else NInf)"
| "jmul PInf PInf = PInf"
| "jmul PInf NInf = NInf"
| "jmul PInf NaN = NaN"
| "jmul NInf (Fin b) = (if b = 0 then NaN else if 0 < b then NInf else PInf)"
| "jmul NInf PInf = NInf"
| "jmul NInf NInf = PInf"
| "jmul NInf NaN = NaN"
| "jmul NaN b = NaN"

text \<open>
  \<open>a / b\<close>: a finite non-zero number divided by zero is an infinity, zero divided by
  zero and infinity divided by infinity are \<open>NaN\<close>.
\<close>

fun jdiv :: "jsnum \<Rightarrow> jsnum \<Rightarrow> jsnum" where
  "jdiv (Fin a) (Fin b) =
     (if b = 0 then (if a = 0 then NaN else if 0 < a then PInf else NInf)
      else Fin (a / b))"
| "jdiv (Fin a) PInf = Fin 0"
| "jdiv (Fin a) NInf = Fin 0"
| "jdiv (Fin a) NaN = NaN"
| "jdiv PInf (Fin b) = (if 0 \<le> b then PInf else NInf)"
| "jdiv PInf PInf = NaN"
| "jdiv PInf NInf = NaN"
| "jdiv PInf NaN = NaN"
| "jdiv NInf (Fin b) = (if 0 \<le> b then NInf else PInf)"
| "jdiv NInf PInf = NaN"
| "jdiv NInf NInf = NaN"
| "jdiv NInf NaN = NaN"
| "jdiv NaN b = NaN"

text \<open>\<open>a < b\<close>: false as soon as one side is \<open>NaN\<close>.\<close>

fun jlt :: "jsnum \<Rightarrow> jsnum \<Rightarrow> bool" where
  "jlt (Fin a) (Fin b) = (a < b)"
| "jlt (Fin a) PInf = True"
| "jlt (Fin a) NInf = False"
| "jlt (Fin a) NaN = False"
| "jlt PInf b = False"
| "jlt NInf (Fin b) = True"
| "jlt NInf PInf = True"
| "jlt NInf NInf = False"
| "jlt NInf NaN = False"
| "jlt NaN b = False"

text \<open>\<open>a > b\<close>\<close>

definition jgt :: "jsnum \<Rightarrow> jsnum \<Rightarrow> bool" where
  "jgt a b = jlt b a"

text \<open>\<open>a >= b\<close>\<close>

fun jge :: "jsnum \<Rightarrow> jsnum \<Rightarrow> bool" where
  "jge (Fin a) (Fin b) = (b \<le> a)"
| "jge (Fin a) PInf = False"
| "jge (Fin a) NInf = True"
| "jge (Fin a) NaN = False"
| "jge PInf (Fin b) = True"
| "jge PInf PInf = True"
| "jge PInf NInf = True"
| "jge PInf NaN = False"
| "jge NInf (Fin b) = False"
| "jge NInf PInf = False"
| "jge NInf NInf = True"
| "jge NInf NaN = False"
| "jge NaN b = False"

text \<open>\<open>a === b\<close> on numbers: \<open>NaN\<close> is not equal to itself.\<close>

fun jeq :: "jsnum \<Rightarrow> jsnum \<Rightarrow> bool" where
  "jeq (Fin a) (Fin b) = (a = b)"
| "jeq PInf PInf = True"
| "jeq NInf NInf = True"
| "jeq a b = False"

text \<open>\<open>Math.max(a, b)\<close> and \<open>Math.min(a, b)\<close>: \<open>NaN\<close> if an argument is \<open>NaN\<close>.\<close>

fun math_max2 :: "jsnum \<Rightarrow> jsnum \<Rightarrow> jsnum" where
  "math_max2 (Fin a) (Fin b) = Fin (max a b)"
| "math_max2 (Fin a) PInf = PInf"
| "math_max2 (Fin a) NInf = Fin a"
| "math_max2 (Fin a) NaN = NaN"
| "math_max2 PInf (Fin b) = PInf"
| "math_max2 PInf PInf = PInf"
| "math_max2 PInf NInf = PInf"
| "math_max2 PInf NaN = NaN"
| "math_max2 NInf (Fin b) = Fin b"
| "math_max2 NInf PInf = PInf"
| "math_max2 NInf NInf = NInf"
| "math_max2 NInf NaN = NaN"
| "math_max2 NaN b = NaN"

fun math_min2 :: "jsnum \<Rightarrow> jsnum \<Rightarrow> jsnum" where
  "math_min2 (Fin a) (Fin b) = Fin (min a b)"
| "math_min2 (Fin a) PInf = Fin a"
| "math_min2 (Fin a) NInf = NInf"
| "math_min2 (Fin a) NaN = NaN"
| "math_min2 PInf (Fin b) = Fin b"
| "math_min2 PInf PInf = PInf"
| "math_min2 PInf NInf = NInf"
| "math_min2 PInf NaN = NaN"
| "math_min2 NInf (Fin b) = NInf"
| "math_min2 NInf PInf = NInf"
| "math_min2 NInf NInf = NInf"
| "math_min2 NInf NaN = NaN"
| "math_min2 NaN b = NaN"

text \<open>
  \<open>Math.max(...xs)\<close> and \<open>Math.min(...xs)\<close> on an array: \<open>-Infinity\<close> and
  \<open>Infinity\<close> when the array is empty.
\<close>

definition math_max :: "jsnum list \<Rightarrow> jsnum" where
  "math_max xs = foldl math_max2 NInf xs"

definition math_min :: "jsnum list \<Rightarrow> jsnum" where
  "math_min xs = foldl math_min2 PInf xs"

text \<open>\<open>Math.sqrt(a)\<close>, \<open>Math.pow(a, 2)\<close>, \<open>Math.abs(a)\<close>, \<open>Math.floor(a)\<close>, \<open>Math.ceil(a)\<close>\<close>

fun math_sqrt :: "jsnum \<Rightarrow> jsnum" where
  "math_sqrt (Fin a) = (if a < 0 then NaN else Fin (sqrt a))"
| "math_sqrt PInf = PInf"
| "math_sqrt NInf = NaN"
| "math_sqrt NaN = NaN"

fun math_pow2 :: "jsnum \<Rightarrow> jsnum" where
  "math_pow2 (Fin a) = Fin (a * a)"
| "math_pow2 PInf = PInf"
| "math_pow2 NInf = PInf"
| "math_pow2 NaN = NaN"

fun math_abs :: "jsnum \<Rightarrow> jsnum" where
  "math_abs (Fin a) = Fin \<bar>a\<bar>"
| "math_abs PInf = PInf"
| "math_abs NInf = PInf"
| "math_abs NaN = NaN"

fun math_floor :: "jsnum \<Rightarrow> jsnum" where
  "math_floor (Fin a) = Fin (of_int \<lfloor>a\<rfloor>)"
| "math_floor PInf = PInf"
| "math_floor NInf = NInf"
| "math_floor NaN = NaN"

fun math_ceil :: "jsnum \<Rightarrow> jsnum" where
  "math_ceil (Fin a) = Fin (of_int \<lceil>a\<rceil>)"
| "math_ceil PInf = PInf"
| "math_ceil NInf = NInf"
| "math_ceil NaN = NaN"

text \<open>
  An array read \<open>xs[i]\<close> whose result is used as a number. Out of range the read
  gives \<open>undefined\<close>, which arithmetic turns into \<open>NaN\<close>.
\<close>

definition num_at :: "jsnum list \<Rightarrow> nat \<Rightarrow> jsnum" where
  "num_at xs i = (if i < length xs then xs ! i else NaN)"

text \<open>An array read that keeps \<open>undefined\<close> apart, as \<open>None\<close>.\<close>

definition elem_at :: "'a list \<Rightarrow> nat \<Rightarrow> 'a option" where
  "elem_at xs i = (if i < length xs then Some (xs ! i) else None)"

section \<open>Data model\<close>

text \<open>\<open>RFMMetrics\<close> (classes/RFM.ts).\<close>

record RFMMetrics =
  user_id :: string
  recency :: jsnum
  frequency :: jsnum
  monetary :: jsnum
  rfm_score :: string

text \<open>
  \<open>ClusteredRFMMetrics\<close> extends \<open>RFMMetrics\<close> by the cluster and its label;
  \<open>{...metric, cluster_id, segment}\<close> is \<open>RFMMetrics.extend\<close>.
\<close>

record ClusteredRFMMetrics = RFMMetrics +
  cluster_id :: nat
  segment :: string

text \<open>
  The object \<open>calculateClusterStatistics\<close> pushes for one cluster. The field \<open>size\<close>
  is written \<open>size_stat\<close>, as \<open>size\<close> is a constant of HOL.
\<close>

record ClusterStats =
  cluster_id :: nat
  size_stat :: nat
  avgRecency :: jsnum
  avgFrequency :: jsnum
  avgMonetary :: jsnum

text \<open>\<open>{...cluster, composite_score, recencyScore, frequencyScore, monetaryScore}\<close>\<close>

record ScoredCluster = ClusterStats +
  composite_score :: jsnum
  recencyScore :: jsnum
  frequencyScore :: jsnum
  monetaryScore :: jsnum

record ClusterCenter =
  cluster_id :: nat
  recency_center :: jsnum
  frequency_center :: jsnum
  monetary_center :: jsnum
  segment_label :: string
  rank :: nat
  composite_score :: jsnum

record Percentiles =
  p25 :: jsnum
  p50 :: jsnum
  p75 :: jsnum

record DataStats =
  recencyPercentiles :: Percentiles
  frequencyPercentiles :: Percentiles
  monetaryPercentiles :: Percentiles

record EvaluationMetrics =
  silhouetteScore :: jsnum
  wcss :: jsnum
  iterations :: nat

record ClusteringResult =
  clusteredMetrics :: "ClusteredRFMMetrics list"
  centers :: "ClusterCenter list"
  evaluationMetrics :: EvaluationMetrics
  optimalK :: nat
  dataStats :: DataStats

text \<open>
  The exception JavaScript throws when a property of \<open>undefined\<close> is read or
  \<open>undefined\<close> is spread. A function that can throw returns \<open>error + 'a\<close>.
\<close>

datatype error = TypeError

section \<open>Feature normalisation\<close>

text \<open>\<open>normalize(value, min, max)\<close>; the name \<open>normalize\<close> is taken in HOL.\<close>

definition normalize_rfm :: "jsnum \<Rightarrow> jsnum \<Rightarrow> jsnum \<Rightarrow> jsnum" where
  "normalize_rfm v mn mx = (if jeq mx mn then Fin 0 else jdiv (jsub v mn) (jsub mx mn))"

text \<open>\<open>normalizeData(metrics)\<close>: one three-element vector per record.\<close>

definition normalizeData :: "RFMMetrics list \<Rightarrow> jsnum list list" where
  "normalizeData metrics =
     (let recencyValues = map recency metrics;
          frequencyValues = map frequency metrics;
          monetaryValues = map monetary metrics;
          recency_min = math_min recencyValues; recency_max = math_max recencyValues;
          frequency_min = math_min frequencyValues; frequency_max = math_max frequencyValues;
          monetary_min = math_min monetaryValues; monetary_max = math_max monetaryValues
      in map (\<lambda>metric.
            [normalize_rfm (recency metric) recency_min recency_max,
             normalize_rfm (frequency metric) frequency_min frequency_max,
             normalize_rfm (monetary metric) monetary_min monetary_max]) metrics)"

section \<open>The random source\<close>

text \<open>
  \<open>Math.random()\<close> is the only source of non-determinism in the services. It is
  modelled by a fixed infinite sequence of draws and the position of the next draw;
  a function that draws returns the position it has reached.
\<close>

type_synonym rng = "nat \<Rightarrow> real"

definition math_random :: "rng \<Rightarrow> nat \<Rightarrow> jsnum \<times> nat" where
  "math_random rng pos = (Fin (rng pos), Suc pos)"

text \<open>\<open>Math.random()\<close> returns a number in \<open>[0, 1)\<close>.\<close>

definition valid_rng :: "rng \<Rightarrow> bool" where
  "valid_rng rng \<longleftrightarrow> (\<forall>n. 0 \<le> rng n \<and> rng n < 1)"

section \<open>Sorting\<close>

text \<open>
  \<open>Array.prototype.sort(compare)\<close> is a stable sort. It is modelled by insertion
  from the right: an element \<open>x\<close> moves behind \<open>y\<close> exactly when
  \<open>compare(x, y) > 0\<close>, so elements that compare equal keep their order. (For a
  comparator that is not a consistent order, which needs a \<open>NaN\<close> or an infinite
  key here, ECMAScript leaves the resulting order to the implementation.)
\<close>

fun insort_cmp :: "('a \<Rightarrow> 'a \<Rightarrow> jsnum) \<Rightarrow> 'a \<Rightarrow> 'a list \<Rightarrow> 'a list" where
  "insort_cmp compare x [] = [x]"
| "insort_cmp compare x (y # ys) =
     (if jgt (compare x y) (Fin 0) then y # insort_cmp compare x ys else x # y # ys)"

definition array_sort :: "('a \<Rightarrow> 'a \<Rightarrow> jsnum) \<Rightarrow> 'a list \<Rightarrow> 'a list" where
  "array_sort compare xs = foldr (insort_cmp compare) xs []"

section \<open>The clustering engine\<close>

text \<open>
  \<open>euclideanDistance(point1, point2)\<close>: the reduction runs over \<open>point1\<close> and reads
  \<open>point2\<close> at the same index.
\<close>

definition euclideanDistance :: "jsnum list \<Rightarrow> jsnum list \<Rightarrow> jsnum" where
  "euclideanDistance point1 point2 =
     math_sqrt (foldl (\<lambda>sum (val, index). jadd sum (math_pow2 (jsub val (num_at point2 index))))
                  (Fin 0) (zip point1 [0..<length point1]))"

text \<open>
  The \<open>forEach\<close> of \<open>assignClusters\<close> over the centroids, for one point: the pair is
  \<open>(minDistance, closestCentroid)\<close>, replaced on a strictly smaller distance only.
\<close>

fun assignClusters_forEach ::
  "jsnum list \<Rightarrow> jsnum list list \<Rightarrow> nat \<Rightarrow> jsnum \<times> nat \<Rightarrow> jsnum \<times> nat" where
  "assignClusters_forEach point [] index (minDistance, closestCentroid) =
     (minDistance, closestCentroid)"
| "assignClusters_forEach point (centroid # rest) index (minDistance, closestCentroid) =
     (let distance = euclideanDistance point centroid
      in if jlt distance minDistance
         then assignClusters_forEach point rest (Suc index) (distance, index)
         else assignClusters_forEach point rest (Suc index) (minDistance, closestCentroid))"

definition assignClusters :: "jsnum list list \<Rightarrow> jsnum list list \<Rightarrow> nat list" where
  "assignClusters data centroids =
     map (\<lambda>point. snd (assignClusters_forEach point centroids 0 (PInf, 0))) data"

text \<open>
  \<open>data.filter((_, index) => clusters[index] === i)\<close>: an index beyond \<open>clusters\<close>
  reads \<open>undefined\<close>, which is no cluster number, so the point is left out.
\<close>

definition points_of_cluster :: "'a list \<Rightarrow> nat list \<Rightarrow> nat \<Rightarrow> 'a list" where
  "points_of_cluster data clusters i = map fst (filter (\<lambda>(point, c). c = i) (zip data clusters))"

text \<open>
  \<open>updateCentroids(data, clusters, k)\<close>, its loop from \<open>i\<close> on: a cluster without
  points gets three fresh random coordinates, any other the mean of its points in
  each dimension of its first point.
\<close>

function updateCentroids_loop ::
  "rng \<Rightarrow> nat \<Rightarrow> jsnum list list \<Rightarrow> nat list \<Rightarrow> nat \<Rightarrow> nat \<Rightarrow> jsnum list list \<times> nat" where
  "updateCentroids_loop rng pos data clusters k i =
     (if i < k then
        (let clusterPoints = points_of_cluster data clusters i
         in if length clusterPoints = 0 then
              (let (r1, pos1) = math_random rng pos;
                   (r2, pos2) = math_random rng pos1;
                   (r3, pos3) = math_random rng pos2;
                   (rest, pos') = updateCentroids_loop rng pos3 data clusters k (Suc i)
               in ([r1, r2, r3] # rest, pos'))
            else
              (let centroid =
                     map (\<lambda>dimIndex.
                            jdiv (foldl (\<lambda>sum point. jadd sum (num_at point dimIndex)) (Fin 0)
                                    clusterPoints)
                                 (Fin (real (length clusterPoints))))
                         [0..<length (hd clusterPoints)];
                   (rest, pos') = updateCentroids_loop rng pos data clusters k (Suc i)
               in (centroid # rest, pos')))
      else ([], pos))"
  by pat_completeness auto
termination
  by (relation "measure (\<lambda>(rng, pos, data, clusters, k, i). k - i)") auto

declare updateCentroids_loop.simps [simp del]

definition updateCentroids ::
  "rng \<Rightarrow> nat \<Rightarrow> jsnum list list \<Rightarrow> nat list \<Rightarrow> nat \<Rightarrow> jsnum list list \<times> nat" where
  "updateCentroids rng pos data clusters k = updateCentroids_loop rng pos data clusters k 0"

text \<open>
  \<open>centroidsConverged(current, previous, threshold)\<close>. The inner \<open>every\<close> reads
  \<open>previous[index][dimIndex]\<close>: a missing previous centroid throws, a missing
  coordinate makes the difference \<open>NaN\<close> and the test false. Both \<open>every\<close> stop at
  the first false.
\<close>

fun centroidsConverged_inner ::
  "jsnum list \<Rightarrow> jsnum list option \<Rightarrow> jsnum \<Rightarrow> nat \<Rightarrow> error + bool" where
  "centroidsConverged_inner [] prev threshold dimIndex = Inr True"
| "centroidsConverged_inner (val # vals) prev threshold dimIndex =
     (case prev of
        None \<Rightarrow> Inl TypeError
      | Some p \<Rightarrow>
          if jlt (math_abs (jsub val (num_at p dimIndex))) threshold
          then centroidsConverged_inner vals prev threshold (Suc dimIndex)
          else Inr False)"

fun centroidsConverged_every ::
  "jsnum list list \<Rightarrow> jsnum list list \<Rightarrow> jsnum \<Rightarrow> nat \<Rightarrow> error + bool" where
  "centroidsConverged_every [] previous threshold index = Inr True"
| "centroidsConverged_every (centroid # rest) previous threshold index =
     (case centroidsConverged_inner centroid (elem_at previous index) threshold 0 of
        Inl e \<Rightarrow> Inl e
      | Inr ok \<Rightarrow>
          if ok then centroidsConverged_every rest previous threshold (Suc index)
          else Inr False)"

definition centroidsConverged ::
  "jsnum list list \<Rightarrow> jsnum list list \<Rightarrow> jsnum \<Rightarrow> error + bool" where
  "centroidsConverged current previous threshold =
     (if length previous = 0 then Inr False
      else centroidsConverged_every current previous threshold 0)"

text \<open>
  An array read \<open>xs[i]\<close> with a computed number as index: only a non-negative
  integer below the length names an element.
\<close>

fun elem_at_num :: "'a list \<Rightarrow> jsnum \<Rightarrow> 'a option" where
  "elem_at_num xs (Fin r) =
     (if 0 \<le> r \<and> r = of_int \<lfloor>r\<rfloor> then elem_at xs (nat \<lfloor>r\<rfloor>) else None)"
| "elem_at_num xs PInf = None"
| "elem_at_num xs NInf = None"
| "elem_at_num xs NaN = None"

text \<open>
  The inner loop of the k-means++ seeding: the first point at which the running sum
  of the squared distances reaches \<open>randomValue\<close>, if there is one.
\<close>

fun kmeanspp_pick :: "(jsnum list \<times> jsnum) list \<Rightarrow> jsnum \<Rightarrow> jsnum \<Rightarrow> jsnum list option" where
  "kmeanspp_pick [] randomValue cumulativeDistance = None"
| "kmeanspp_pick ((point, d) # rest) randomValue cumulativeDistance =
     (let cumulativeDistance' = jadd cumulativeDistance d
      in if jge cumulativeDistance' randomValue then Some point
         else kmeanspp_pick rest randomValue cumulativeDistance')"

text \<open>The outer loop of the seeding, from \<open>i\<close> on; nothing is pushed when no point is picked.\<close>

function kmeanspp_loop ::
  "rng \<Rightarrow> nat \<Rightarrow> jsnum list list \<Rightarrow> nat \<Rightarrow> nat \<Rightarrow> jsnum list list \<Rightarrow> jsnum list list \<times> nat" where
  "kmeanspp_loop rng pos data k i centroids =
     (if i < k then
        (let distances =
               map (\<lambda>point.
                      let minDistance = math_min (map (\<lambda>centroid. euclideanDistance point centroid)
                                                    centroids)
                      in jmul minDistance minDistance) data;
             totalDistance = foldl (\<lambda>sum d. jadd sum d) (Fin 0) distances;
             (r, pos') = math_random rng pos;
             randomValue = jmul r totalDistance
         in case kmeanspp_pick (zip data distances) randomValue (Fin 0) of
              None \<Rightarrow> kmeanspp_loop rng pos' data k (Suc i) centroids
            | Some point \<Rightarrow> kmeanspp_loop rng pos' data k (Suc i) (centroids @ [point]))
      else (centroids, pos))"
  by pat_completeness auto
termination
  by (relation "measure (\<lambda>(rng, pos, data, k, i, centroids). k - i)")
     (auto simp: math_random_def)

declare kmeanspp_loop.simps [simp del]

text \<open>
  \<open>initializeCentroidsKMeansPlusPlus(data, k)\<close>: spreading \<open>data[firstIndex]\<close> throws
  when the index names no point.
\<close>

definition initializeCentroidsKMeansPlusPlus ::
  "rng \<Rightarrow> nat \<Rightarrow> jsnum list list \<Rightarrow> nat \<Rightarrow> error + (jsnum list list \<times> nat)" where
  "initializeCentroidsKMeansPlusPlus rng pos data k =
     (let (r, pos') = math_random rng pos;
          firstIndex = math_floor (jmul r (Fin (real (length data))))
      in case elem_at_num data firstIndex of
           None \<Rightarrow> Inl TypeError
         | Some point \<Rightarrow> Inr (kmeanspp_loop rng pos' data k 1 [point]))"

text \<open>
  The main loop of \<open>runKMeansAlgorithm\<close>. Its state is the current and the previous
  centroids, the iteration counter and the position of the random source.
\<close>

record KMeansState =
  st_centroids :: "jsnum list list"
  st_previous :: "jsnum list list"
  st_iterations :: nat
  st_pos :: nat

definition maxIterations :: nat where
  "maxIterations = 100"

definition convergenceThreshold :: jsnum where
  "convergenceThreshold = Fin (1 / 10000)"

text \<open>The loop condition: \<open>!centroidsConverged(...) && iterations < maxIterations\<close>.\<close>

definition kmeans_continue :: "KMeansState \<Rightarrow> error + bool" where
  "kmeans_continue s =
     (case centroidsConverged (st_centroids s) (st_previous s) convergenceThreshold of
        Inl e \<Rightarrow> Inl e
      | Inr converged \<Rightarrow> Inr (\<not> converged \<and> st_iterations s < maxIterations))"

text \<open>The loop body.\<close>

definition kmeans_body :: "rng \<Rightarrow> jsnum list list \<Rightarrow> nat \<Rightarrow> KMeansState \<Rightarrow> KMeansState" where
  "kmeans_body rng data k s =
     (let previousCentroids = st_centroids s;
          clusters = assignClusters data (st_centroids s);
          (centroids, pos') = updateCentroids rng (st_pos s) data clusters k
      in \<lparr>st_centroids = centroids, st_previous = previousCentroids,
          st_iterations = st_iterations s + 1, st_pos = pos'\<rparr>)"

function kmeans_while :: "rng \<Rightarrow> jsnum list list \<Rightarrow> nat \<Rightarrow> KMeansState \<Rightarrow> error + KMeansState" where
  "kmeans_while rng data k s =
     (case kmeans_continue s of
        Inl e \<Rightarrow> Inl e
      | Inr continue \<Rightarrow>
          if continue then kmeans_while rng data k (kmeans_body rng data k s) else Inr s)"
  by pat_completeness auto
termination
  by (relation "measure (\<lambda>(rng, data, k, s). maxIterations - st_iterations s)")
     (auto simp: kmeans_continue_def kmeans_body_def split: sum.splits prod.splits)

declare kmeans_while.simps [simp del]

text \<open>The object \<open>{centroids, clusters: finalClusters, iterations}\<close> that the run returns.\<close>

record KMeansRun =
  run_centroids :: "jsnum list list"
  run_clusters :: "nat list"
  run_iterations :: nat

definition runKMeansAlgorithm ::
  "rng \<Rightarrow> nat \<Rightarrow> jsnum list list \<Rightarrow> nat \<Rightarrow> error + (KMeansRun \<times> nat)" where
  "runKMeansAlgorithm rng pos normalizedData k =
     (case initializeCentroidsKMeansPlusPlus rng pos normalizedData k of
        Inl e \<Rightarrow> Inl e
      | Inr (centroids, pos') \<Rightarrow>
          (case kmeans_while rng normalizedData k
                  \<lparr>st_centroids = centroids, st_previous = [], st_iterations = 0, st_pos = pos'\<rparr> of
             Inl e \<Rightarrow> Inl e
           | Inr s \<Rightarrow>
               (let finalClusters = assignClusters normalizedData (st_centroids s)
                in Inr (\<lparr>run_centroids = st_centroids s, run_clusters = finalClusters,
                         run_iterations = st_iterations s\<rparr>, st_pos s))))"

section \<open>Cluster statistics and ranking\<close>

text \<open>
  \<open>calculateClusterStatistics(metrics, clusters, k)\<close>: one object per cluster number
  below \<open>k\<close>, in order; a cluster without records gets size and averages \<open>0\<close>.
\<close>

definition calculateClusterStatistics ::
  "RFMMetrics list \<Rightarrow> nat list \<Rightarrow> nat \<Rightarrow> ClusterStats list" where
  "calculateClusterStatistics metrics clusters k =
     map (\<lambda>i.
            let clusterMetrics = points_of_cluster metrics clusters i
            in if length clusterMetrics = 0 then
                 \<lparr>ClusterStats.cluster_id = i, size_stat = 0,
                  avgRecency = Fin 0, avgFrequency = Fin 0, avgMonetary = Fin 0\<rparr>
               else
                 (let size = length clusterMetrics;
                      avgRecency = jdiv (foldl (\<lambda>sum m. jadd sum (recency m)) (Fin 0) clusterMetrics)
                                        (Fin (real size));
                      avgFrequency = jdiv (foldl (\<lambda>sum m. jadd sum (frequency m)) (Fin 0) clusterMetrics)
                                          (Fin (real size));
                      avgMonetary = jdiv (foldl (\<lambda>sum m. jadd sum (monetary m)) (Fin 0) clusterMetrics)
                                         (Fin (real size))
                  in \<lparr>ClusterStats.cluster_id = i, size_stat = size,
                      avgRecency = avgRecency, avgFrequency = avgFrequency,
                      avgMonetary = avgMonetary\<rparr>))
         [0..<k]"

definition segmentLabels :: "string list" where
  "segmentLabels = [''VIP'', ''Loyal'', ''Potential'', ''Pay Attention'']"

definition recencyWeight :: jsnum where "recencyWeight = Fin (3 / 10)"
definition frequencyWeight :: jsnum where "frequencyWeight = Fin (3 / 10)"
definition monetaryWeight :: jsnum where "monetaryWeight = Fin (4 / 10)"

text \<open>The first \<open>map\<close> of \<open>rankClustersAndAssignLabels\<close>: the scores of one cluster.\<close>

definition score_cluster :: "ClusterStats \<Rightarrow> ScoredCluster" where
  "score_cluster cluster =
     (let recencyScore = (if jgt (avgRecency cluster) (Fin 0)
                          then jdiv (Fin 1) (avgRecency cluster) else Fin 1);
          frequencyScore = avgFrequency cluster;
          monetaryScore = avgMonetary cluster;
          composite_score =
            jadd (jadd (jmul recencyScore recencyWeight) (jmul frequencyScore frequencyWeight))
                 (jmul monetaryScore monetaryWeight)
      in ClusterStats.extend cluster
           (ScoredCluster.fields composite_score recencyScore frequencyScore monetaryScore))"

text \<open>The comparator \<open>(a, b) => b.composite_score - a.composite_score\<close>.\<close>

definition by_score_desc :: "ScoredCluster \<Rightarrow> ScoredCluster \<Rightarrow> jsnum" where
  "by_score_desc a b = jsub (ScoredCluster.composite_score b) (ScoredCluster.composite_score a)"

text \<open>The second \<open>map\<close>: rank and label by position in the sorted array.\<close>

definition rank_cluster :: "ScoredCluster \<Rightarrow> nat \<Rightarrow> ClusterCenter" where
  "rank_cluster cluster index =
     (let rank = index + 1;
          segment_label = segmentLabels ! (min index (length segmentLabels - 1))
      in \<lparr>ClusterCenter.cluster_id = ClusterStats.cluster_id cluster,
          recency_center = avgRecency cluster,
          frequency_center = avgFrequency cluster,
          monetary_center = avgMonetary cluster,
          segment_label = segment_label,
          rank = rank,
          composite_score = ScoredCluster.composite_score cluster\<rparr>)"

definition rankClustersAndAssignLabels :: "ClusterStats list \<Rightarrow> ClusterCenter list" where
  "rankClustersAndAssignLabels clusterStats =
     (let clustersWithScores = map score_cluster clusterStats;
          sorted = array_sort by_score_desc clustersWithScores
      in map (\<lambda>(cluster, index). rank_cluster cluster index) (zip sorted [0..<length sorted]))"

section \<open>Labelled records\<close>

text \<open>The decimal digits of a number, as the template string \<open>`Cluster ${n}`\<close> prints it.\<close>

definition digit_char :: "nat \<Rightarrow> char" where
  "digit_char d = char_of (48 + d)"

function string_of_nat :: "nat \<Rightarrow> string" where
  "string_of_nat n =
     (if n < 10 then [digit_char n] else string_of_nat (n div 10) @ [digit_char (n mod 10)])"
  by pat_completeness auto
termination
  by (relation "measure (\<lambda>n. n)") auto

declare string_of_nat.simps [simp del]

text \<open>\<open>labelMap\<close>: a later \<open>set\<close> of the same cluster number replaces the earlier one.\<close>

definition labelMap_of :: "ClusterCenter list \<Rightarrow> (nat \<rightharpoonup> string)" where
  "labelMap_of rankedClusters =
     foldl (\<lambda>labelMap cluster.
              labelMap(ClusterCenter.cluster_id cluster \<mapsto> segment_label cluster))
           Map.empty rankedClusters"

text \<open>
  \<open>createClusteredMetrics(metrics, clusters, rankedClusters)\<close>. \<open>clusters[index]\<close> is
  read with \<open>!\<close>: the caller passes the result of \<open>assignClusters\<close>, which has one
  cluster per record. \<open>labelMap.get(c) || `Cluster ${c}`\<close> falls back on a missing
  and on an empty label.
\<close>

definition createClusteredMetrics ::
  "RFMMetrics list \<Rightarrow> nat list \<Rightarrow> ClusterCenter list \<Rightarrow> ClusteredRFMMetrics list" where
  "createClusteredMetrics metrics clusters rankedClusters =
     (let labelMap = labelMap_of rankedClusters
      in map (\<lambda>(metric, index).
                RFMMetrics.extend metric
                  (ClusteredRFMMetrics.fields (clusters ! index)
                     (case labelMap (clusters ! index) of
                        None \<Rightarrow> ''Cluster '' @ string_of_nat (clusters ! index)
                      | Some label \<Rightarrow>
                          if label = [] then ''Cluster '' @ string_of_nat (clusters ! index)
                          else label)))
             (zip metrics [0..<length metrics]))"

text \<open>\<open>denormalizeCenters\<close> returns the ranked clusters as they are.\<close>

definition denormalizeCenters ::
  "jsnum list list \<Rightarrow> RFMMetrics list \<Rightarrow> ClusterCenter list \<Rightarrow> ClusterCenter list" where
  "denormalizeCenters normalizedCentroids originalMetrics rankedClusters = rankedClusters"

section \<open>Evaluation\<close>

text \<open>
  \<open>calculateWCSS(data, centroids, clusters)\<close>, its \<open>forEach\<close> from \<open>index\<close> on, with the
  running value \<open>acc\<close> of the variable \<open>wcss\<close>. When
  \<open>centroids[clusters[index]]\<close> is \<open>undefined\<close>, \<open>euclideanDistance\<close> throws at the
  first coordinate it reads; for a point without coordinates it reads none and
  returns \<open>0\<close>.
\<close>

fun calculateWCSS_forEach ::
  "jsnum list list \<Rightarrow> nat \<Rightarrow> jsnum list list \<Rightarrow> nat list \<Rightarrow> jsnum \<Rightarrow> error + jsnum" where
  "calculateWCSS_forEach [] index centroids clusters acc = Inr acc"
| "calculateWCSS_forEach (point # rest) index centroids clusters acc =
     (case (case elem_at clusters index of None \<Rightarrow> None | Some c \<Rightarrow> elem_at centroids c) of
        None \<Rightarrow>
          if point = [] then
            (let distance = math_sqrt (Fin 0)
             in calculateWCSS_forEach rest (Suc index) centroids clusters
                  (jadd acc (jmul distance distance)))
          else Inl TypeError
      | Some centroid \<Rightarrow>
          (let distance = euclideanDistance point centroid
           in calculateWCSS_forEach rest (Suc index) centroids clusters
                (jadd acc (jmul distance distance))))"

definition calculateWCSS :: "jsnum list list \<Rightarrow> jsnum list list \<Rightarrow> nat list \<Rightarrow> error + jsnum" where
  "calculateWCSS data centroids clusters = calculateWCSS_forEach data 0 centroids clusters (Fin 0)"

text \<open>\<open>[...new Set(clusters)]\<close>: the distinct elements in the order of their first occurrence.\<close>

definition set_array :: "'a list \<Rightarrow> 'a list" where
  "set_array xs = foldl (\<lambda>seen x. if x \<in> set seen then seen else seen @ [x]) [] xs"

text \<open>
  The silhouette of the point at index \<open>i\<close>, in the three steps of the source: the
  constants \<open>a\<close> and \<open>b\<close> and the quotient. \<open>clusters[i]\<close> may be \<open>undefined\<close>
  (\<open>None\<close>), which \<open>===\<close> compares like any other value.
\<close>

definition silhouette_a :: "jsnum list list \<Rightarrow> nat list \<Rightarrow> jsnum list \<Rightarrow> nat \<Rightarrow> jsnum" where
  "silhouette_a data clusters point i =
     (let cluster = elem_at clusters i;
          sameClusterPoints =
            map fst (filter (\<lambda>(p, j). elem_at clusters j = cluster \<and> i \<noteq> j)
                       (zip data [0..<length data]))
      in if length sameClusterPoints > 0
         then jdiv (foldl (\<lambda>sum otherPoint. jadd sum (euclideanDistance point otherPoint))
                      (Fin 0) sameClusterPoints)
                   (Fin (real (length sameClusterPoints)))
         else Fin 0)"

definition silhouette_b :: "jsnum list list \<Rightarrow> nat list \<Rightarrow> jsnum list \<Rightarrow> nat \<Rightarrow> jsnum" where
  "silhouette_b data clusters point i =
     (let cluster = elem_at clusters i;
          otherClusters = filter (\<lambda>c. Some c \<noteq> cluster) (set_array clusters)
      in math_min
           (map (\<lambda>otherCluster.
                   let otherClusterPoints =
                         map fst (filter (\<lambda>(p, j). elem_at clusters j = Some otherCluster)
                                    (zip data [0..<length data]))
                   in if length otherClusterPoints > 0
                      then jdiv (foldl (\<lambda>sum otherPoint.
                                          jadd sum (euclideanDistance point otherPoint))
                                   (Fin 0) otherClusterPoints)
                                (Fin (real (length otherClusterPoints)))
                      else PInf)
              otherClusters))"

definition silhouette_point :: "jsnum list list \<Rightarrow> nat list \<Rightarrow> jsnum list \<Rightarrow> nat \<Rightarrow> jsnum" where
  "silhouette_point data clusters point i =
     (let a = silhouette_a data clusters point i;
          b = silhouette_b data clusters point i
      in jdiv (jsub b a) (math_max2 a b))"

definition calculateSilhouetteScore :: "jsnum list list \<Rightarrow> nat list \<Rightarrow> jsnum" where
  "calculateSilhouetteScore data clusters =
     (if length data \<le> 1 then Fin 0
      else
        (let silhouetteScores =
               map (\<lambda>(point, i). silhouette_point data clusters point i)
                 (zip data [0..<length data])
         in jdiv (foldl (\<lambda>sum score. jadd sum score) (Fin 0) silhouetteScores)
                 (Fin (real (length silhouetteScores)))))"

section \<open>Descriptive statistics\<close>

text \<open>\<open>a % b\<close>: the remainder has the sign of \<open>a\<close>.\<close>

definition trunc_real :: "real \<Rightarrow> int" where
  "trunc_real x = (if 0 \<le> x then \<lfloor>x\<rfloor> else \<lceil>x\<rceil>)"

fun jrem :: "jsnum \<Rightarrow> jsnum \<Rightarrow> jsnum" where
  "jrem (Fin a) (Fin b) = (if b = 0 then NaN else Fin (a - b * of_int (trunc_real (a / b))))"
| "jrem (Fin a) PInf = Fin a"
| "jrem (Fin a) NInf = Fin a"
| "jrem (Fin a) NaN = NaN"
| "jrem PInf b = NaN"
| "jrem NInf b = NaN"
| "jrem NaN b = NaN"

text \<open>
  \<open>xs[i]\<close> with a computed index, read as a number: \<open>undefined\<close> is written \<open>NaN\<close>,
  the value it takes in arithmetic.
\<close>

definition num_at_num :: "jsnum list \<Rightarrow> jsnum \<Rightarrow> jsnum" where
  "num_at_num xs i = (case elem_at_num xs i of None \<Rightarrow> NaN | Some x \<Rightarrow> x)"

text \<open>
  \<open>percentile(values, p)\<close>. On an empty array the source returns \<open>undefined\<close>
  (written \<open>NaN\<close> here); every caller passes the values of a non-empty record list.
\<close>

definition percentile :: "jsnum list \<Rightarrow> jsnum \<Rightarrow> jsnum" where
  "percentile values p =
     (let sorted = array_sort (\<lambda>a b. jsub a b) values;
          index = jmul (jdiv p (Fin 100)) (jsub (Fin (real (length sorted))) (Fin 1));
          lower = math_floor index;
          upper = math_ceil index;
          weight = jrem index (Fin 1)
      in if jge upper (Fin (real (length sorted)))
         then num_at_num sorted (jsub (Fin (real (length sorted))) (Fin 1))
         else jadd (jmul (num_at_num sorted lower) (jsub (Fin 1) weight))
                   (jmul (num_at_num sorted upper) weight))"

definition calculateDataStats :: "RFMMetrics list \<Rightarrow> DataStats" where
  "calculateDataStats metrics =
     (let recencyValues = array_sort (\<lambda>a b. jsub a b) (map recency metrics);
          frequencyValues = array_sort (\<lambda>a b. jsub a b) (map frequency metrics);
          monetaryValues = array_sort (\<lambda>a b. jsub a b) (map monetary metrics)
      in \<lparr>recencyPercentiles =
            \<lparr>p25 = percentile recencyValues (Fin 25), p50 = percentile recencyValues (Fin 50),
             p75 = percentile recencyValues (Fin 75)\<rparr>,
          frequencyPercentiles =
            \<lparr>p25 = percentile frequencyValues (Fin 25), p50 = percentile frequencyValues (Fin 50),
             p75 = percentile frequencyValues (Fin 75)\<rparr>,
          monetaryPercentiles =
            \<lparr>p25 = percentile monetaryValues (Fin 25), p50 = percentile monetaryValues (Fin 50),
             p75 = percentile monetaryValues (Fin 75)\<rparr>\<rparr>)"

section \<open>The pipeline\<close>

text \<open>\<open>getEmptyResult(k = 0)\<close>: \<open>None\<close> is the omitted argument.\<close>

definition getEmptyResult :: "nat option \<Rightarrow> ClusteringResult" where
  "getEmptyResult k_arg =
     (let k = (case k_arg of None \<Rightarrow> 0 | Some k \<Rightarrow> k)
      in \<lparr>clusteredMetrics = [],
          centers = [],
          evaluationMetrics = \<lparr>silhouetteScore = Fin 0, wcss = Fin 0, iterations = 0\<rparr>,
          optimalK = k,
          dataStats =
            \<lparr>recencyPercentiles = \<lparr>p25 = Fin 0, p50 = Fin 0, p75 = Fin 0\<rparr>,
             frequencyPercentiles = \<lparr>p25 = Fin 0, p50 = Fin 0, p75 = Fin 0\<rparr>,
             monetaryPercentiles = \<lparr>p25 = Fin 0, p50 = Fin 0, p75 = Fin 0\<rparr>\<rparr>\<rparr>)"

text \<open>
  \<open>performKMeansClustering(metrics, k = 4, dataStats?)\<close>. The promise is modelled by
  its value, the console output is not modelled.
\<close>

definition performKMeansClustering ::
  "rng \<Rightarrow> nat \<Rightarrow> RFMMetrics list \<Rightarrow> nat option \<Rightarrow> DataStats option
     \<Rightarrow> error + (ClusteringResult \<times> nat)" where
  "performKMeansClustering rng pos metrics k_arg dataStats_arg =
     (let k = (case k_arg of None \<Rightarrow> 4 | Some k \<Rightarrow> k)
      in if length metrics = 0 then Inr (getEmptyResult (Some k), pos)
         else
           (let dataStats = (case dataStats_arg of
                               None \<Rightarrow> calculateDataStats metrics
                             | Some d \<Rightarrow> d);
                normalizedData = normalizeData metrics
            in case runKMeansAlgorithm rng pos normalizedData k of
                 Inl e \<Rightarrow> Inl e
               | Inr (run, pos') \<Rightarrow>
                   (let clusterStats =
                          calculateClusterStatistics metrics (run_clusters run) k;
                        rankedClusters = rankClustersAndAssignLabels clusterStats;
                        clusteredMetrics =
                          createClusteredMetrics metrics (run_clusters run) rankedClusters;
                        centers = denormalizeCenters (run_centroids run) metrics rankedClusters
                    in case calculateWCSS normalizedData (run_centroids run) (run_clusters run) of
                         Inl e \<Rightarrow> Inl e
                       | Inr wcss_value \<Rightarrow>
                           (let silhouetteScore =
                                  calculateSilhouetteScore normalizedData (run_clusters run)
                            in Inr (\<lparr>clusteredMetrics = clusteredMetrics,
                                     centers = centers,
                                     evaluationMetrics =
                                       \<lparr>silhouetteScore = silhouetteScore, wcss = wcss_value,
                                        iterations = run_iterations run\<rparr>,
                                     optimalK = k,
                                     dataStats = dataStats\<rparr>, pos')))))"

section \<open>Model selection\<close>

definition minK :: nat where
  "minK = 2"

definition maxK_of :: "RFMMetrics list \<Rightarrow> nat" where
  "maxK_of metrics = min 8 (length metrics div 2)"

text \<open>The sweep of \<open>findOptimalK\<close>, from candidate \<open>k\<close> on: one clustering per candidate.\<close>

function findOptimalK_sweep ::
  "rng \<Rightarrow> nat \<Rightarrow> RFMMetrics list \<Rightarrow> nat \<Rightarrow> nat \<Rightarrow> jsnum list \<Rightarrow> error + (jsnum list \<times> nat)" where
  "findOptimalK_sweep rng pos metrics maxK k wcssValues =
     (if k \<le> maxK then
        (let dataStats = calculateDataStats metrics
         in case performKMeansClustering rng pos metrics (Some k) (Some dataStats) of
              Inl e \<Rightarrow> Inl e
            | Inr (result, pos') \<Rightarrow>
                findOptimalK_sweep rng pos' metrics maxK (Suc k)
                  (wcssValues @ [wcss (evaluationMetrics result)]))
      else Inr (wcssValues, pos))"
  by pat_completeness auto
termination
  by (relation "measure (\<lambda>(rng, pos, metrics, maxK, k, wcssValues). Suc maxK - k)") auto

declare findOptimalK_sweep.simps [simp del]

text \<open>
  The elbow loop, from index \<open>i\<close> on, with the pair \<open>(optimalK, maxImprovement)\<close>. The
  variable \<open>optimalK\<close> is written \<open>optimalK'\<close>, as a field has its name, and the bound
  \<open>i < wcssValues.length - 1\<close> is written without subtraction.
\<close>

function findOptimalK_elbow :: "jsnum list \<Rightarrow> nat \<Rightarrow> nat \<times> jsnum \<Rightarrow> nat \<times> jsnum" where
  "findOptimalK_elbow wcssValues i (optimalK', maxImprovement) =
     (if i + 1 < length wcssValues then
        (let improvement = jsub (num_at wcssValues (i - 1)) (num_at wcssValues i);
             nextImprovement = jsub (num_at wcssValues i) (num_at wcssValues (i + 1));
             improvementRate = jsub improvement nextImprovement
         in if jgt improvementRate maxImprovement
            then findOptimalK_elbow wcssValues (Suc i) (minK + i, improvementRate)
            else findOptimalK_elbow wcssValues (Suc i) (optimalK', maxImprovement))
      else (optimalK', maxImprovement))"
  by pat_completeness auto
termination
  by (relation "measure (\<lambda>(wcssValues, i, acc). length wcssValues - i)") auto

declare findOptimalK_elbow.simps [simp del]

definition findOptimalK :: "rng \<Rightarrow> nat \<Rightarrow> RFMMetrics list \<Rightarrow> error + (nat \<times> nat)" where
  "findOptimalK rng pos metrics =
     (case findOptimalK_sweep rng pos metrics (maxK_of metrics) minK [] of
        Inl e \<Rightarrow> Inl e
      | Inr (wcssValues, pos') \<Rightarrow>
          Inr (fst (findOptimalK_elbow wcssValues 1 (minK, Fin 0)), pos'))"

text \<open>\<open>performEnhancedClustering(metrics)\<close>\<close>

definition performEnhancedClustering ::
  "rng \<Rightarrow> nat \<Rightarrow> RFMMetrics list \<Rightarrow> error + (ClusteringResult \<times> nat)" where
  "performEnhancedClustering rng pos metrics =
     (if length metrics = 0 then Inr (getEmptyResult None, pos)
      else
        (let dataStats = calculateDataStats metrics
         in case findOptimalK rng pos metrics of
              Inl e \<Rightarrow> Inl e
            | Inr (optimalK', pos1) \<Rightarrow>
                (case performKMeansClustering rng pos1 metrics (Some optimalK') (Some dataStats) of
                   Inl e \<Rightarrow> Inl e
                 | Inr (result, pos2) \<Rightarrow>
                     Inr (result\<lparr>optimalK := optimalK', dataStats := dataStats\<rparr>, pos2))))"

section \<open>Metric aggregation\<close>

text \<open>
  Of a customer the aggregation reads \<open>id\<close> only. Of an order it reads \<open>user_id\<close>,
  \<open>total\<close> and \<open>created_at\<close>; the creation date is a string and the total a number.
\<close>

record Customer =
  id :: string

record Order =
  user_id :: string
  created_at :: string
  total :: jsnum

text \<open>
  A \<open>Date\<close> object is modelled by its time value: a whole number of milliseconds since
  the epoch, of magnitude at most \<open>8.64e15\<close>, or \<open>NaN\<close> for an invalid date.
  \<open>time_clip\<close> is the operation TimeClip of ECMAScript, which every \<open>Date\<close> constructor
  applies to its argument.
\<close>

type_synonym Date = jsnum

fun time_clip :: "jsnum \<Rightarrow> jsnum" where
  "time_clip (Fin t) = (if 8640000000000000 < \<bar>t\<bar> then NaN else Fin (of_int (trunc_real t)))"
| "time_clip PInf = NaN"
| "time_clip NInf = NaN"
| "time_clip NaN = NaN"

text \<open>
  \<open>new Date(s)\<close> for a string \<open>s\<close> parses \<open>s\<close> as \<open>Date.parse\<close> does. Which strings
  \<open>Date.parse\<close> accepts beyond the ISO format depends on the engine, so the parser is a
  parameter: it returns the time value of the string, or \<open>NaN\<close> for a string that is not
  a date. \<open>new Date(t)\<close> for a number \<open>t\<close> and \<open>date.getTime()\<close> follow.
\<close>

definition new_Date_string :: "(string \<Rightarrow> jsnum) \<Rightarrow> string \<Rightarrow> Date" where
  "new_Date_string parse s = time_clip (parse s)"

definition new_Date_number :: "jsnum \<Rightarrow> Date" where
  "new_Date_number t = time_clip t"

definition getTime :: "Date \<Rightarrow> jsnum" where
  "getTime date = date"

text \<open>
  The object \<open>grouped\<close> is a plain object. A lookup \<open>grouped[key]\<close> finds the own
  properties, one array of orders per customer identifier met so far, and behind them
  the properties that every object inherits from \<open>Object.prototype\<close>. These are listed
  with the value of their \<open>length\<close> property: a function has its number of parameters;
  \<open>__proto__\<close> is the prototype object itself, which has no \<open>length\<close>.
\<close>

definition object_prototype :: "(string \<times> nat option) list" where
  "object_prototype =
     [(''constructor'', Some 1),
      (''__defineGetter__'', Some 2),
      (''__defineSetter__'', Some 2),
      (''hasOwnProperty'', Some 1),
      (''__lookupGetter__'', Some 1),
      (''__lookupSetter__'', Some 1),
      (''isPrototypeOf'', Some 1),
      (''propertyIsEnumerable'', Some 1),
      (''toString'', Some 0),
      (''valueOf'', Some 0),
      (''__proto__'', None),
      (''toLocaleString'', Some 0)]"

datatype property = Undefined | Orders "Order list" | Inherited "nat option"

definition get_property :: "(string \<rightharpoonup> Order list) \<Rightarrow> string \<Rightarrow> property" where
  "get_property grouped key =
     (case grouped key of
        Some orders \<Rightarrow> Orders orders
      | None \<Rightarrow>
          (case map_of object_prototype key of
             Some len \<Rightarrow> Inherited len
           | None \<Rightarrow> Undefined))"

text \<open>
  \<open>groupOrdersByCustomer(orders)\<close>. An order without \<open>user_id\<close> is skipped
  (\<open>user_id\<close> is a string, so \<open>toString\<close> returns it, and only the empty string is
  falsy). \<open>!grouped[userId]\<close> holds of \<open>undefined\<close> only: arrays, functions and objects
  are truthy. \<open>grouped[userId].push(order)\<close> appends to an array; an inherited property
  has no \<open>push\<close>, and the call throws a \<open>TypeError\<close>.
\<close>

fun groupOrdersByCustomer_for ::
  "(string \<rightharpoonup> Order list) \<Rightarrow> Order list \<Rightarrow> error + (string \<rightharpoonup> Order list)" where
  "groupOrdersByCustomer_for grouped [] = Inr grouped"
| "groupOrdersByCustomer_for grouped (order # orders) =
     (if Order.user_id order = [] then groupOrdersByCustomer_for grouped orders
      else
        (let userId = Order.user_id order;
             grouped' = (case get_property grouped userId of
                           Undefined \<Rightarrow> grouped(userId \<mapsto> [])
                         | Orders _ \<Rightarrow> grouped
                         | Inherited _ \<Rightarrow> grouped)
         in case get_property grouped' userId of
              Orders list \<Rightarrow> groupOrdersByCustomer_for (grouped'(userId \<mapsto> list @ [order])) orders
            | Undefined \<Rightarrow> Inl TypeError
            | Inherited _ \<Rightarrow> Inl TypeError))"

definition groupOrdersByCustomer :: "Order list \<Rightarrow> error + (string \<rightharpoonup> Order list)" where
  "groupOrdersByCustomer orders = groupOrdersByCustomer_for Map.empty orders"

record CustomerMetrics =
  cm_recency :: jsnum
  cm_frequency :: jsnum
  cm_monetary :: jsnum

definition msPerDay :: jsnum where
  "msPerDay = Fin (1000 * 60 * 60 * 24)"

text \<open>\<open>order.total || 0\<close>: the falsy numbers are \<open>0\<close> and \<open>NaN\<close>.\<close>

definition total_or_0 :: "jsnum \<Rightarrow> jsnum" where
  "total_or_0 t = (if t = Fin 0 \<or> t = NaN then Fin 0 else t)"

text \<open>\<open>calculateCustomerMetrics(orders, currentDate)\<close>, for an array \<open>orders\<close>.\<close>

definition calculateCustomerMetrics ::
  "(string \<Rightarrow> jsnum) \<Rightarrow> Order list \<Rightarrow> Date \<Rightarrow> CustomerMetrics" where
  "calculateCustomerMetrics parse orders currentDate =
     (let orderDates = map (\<lambda>order. new_Date_string parse (created_at order)) orders;
          lastOrderDate = new_Date_number (math_max (map (\<lambda>date. getTime date) orderDates));
          recency = math_floor (jdiv (jsub (getTime currentDate) (getTime lastOrderDate)) msPerDay);
          frequency = Fin (real (length orders));
          monetary = foldl (\<lambda>sum order. jadd sum (total_or_0 (total order))) (Fin 0) orders
      in \<lparr>cm_recency = math_max2 (Fin 0) recency,
          cm_frequency = math_max2 (Fin 1) frequency,
          cm_monetary = math_max2 (Fin 0) monetary\<rparr>)"

text \<open>
  The loop of \<open>calculateMetricsForCustomers\<close> over the customers. A customer without
  \<open>id\<close> is skipped, and so is one for whom the lookup gives \<open>undefined\<close> or a value of
  \<open>length\<close> 0. Any other inherited value reaches \<open>calculateCustomerMetrics\<close>, where
  \<open>orders.map\<close> is not a function: a \<open>TypeError\<close>.
\<close>

fun calculateMetricsForCustomers_for ::
  "(string \<Rightarrow> jsnum) \<Rightarrow> Date \<Rightarrow> (string \<rightharpoonup> Order list) \<Rightarrow> RFMMetrics list \<Rightarrow> Customer list
     \<Rightarrow> error + RFMMetrics list" where
  "calculateMetricsForCustomers_for parse currentDate ordersByCustomer rfmMetrics [] =
     Inr rfmMetrics"
| "calculateMetricsForCustomers_for parse currentDate ordersByCustomer rfmMetrics
     (customer # customers) =
     (if id customer = []
      then calculateMetricsForCustomers_for parse currentDate ordersByCustomer rfmMetrics customers
      else
        (case get_property ordersByCustomer (id customer) of
           Undefined \<Rightarrow>
             calculateMetricsForCustomers_for parse currentDate ordersByCustomer rfmMetrics customers
         | Inherited len \<Rightarrow>
             if len = Some 0
             then calculateMetricsForCustomers_for parse currentDate ordersByCustomer rfmMetrics
                    customers
             else Inl TypeError
         | Orders customerOrders \<Rightarrow>
             if length customerOrders = 0
             then calculateMetricsForCustomers_for parse currentDate ordersByCustomer rfmMetrics
                    customers
             else
               (let metrics = calculateCustomerMetrics parse customerOrders currentDate
                in calculateMetricsForCustomers_for parse currentDate ordersByCustomer
                     (rfmMetrics @
                        [\<lparr>RFMMetrics.user_id = id customer,
                          recency = cm_recency metrics,
                          frequency = cm_frequency metrics,
                          monetary = cm_monetary metrics,
                          rfm_score = []\<rparr>])
                     customers)))"

text \<open>
  \<open>calculateMetricsForCustomers(customers, orders)\<close>: one record per customer that has
  an identifier and orders, in the order of the customers. \<open>new Date()\<close> is the current
  date, a valid date of time value \<open>now\<close>.
\<close>

definition calculateMetricsForCustomers ::
  "(string \<Rightarrow> jsnum) \<Rightarrow> int \<Rightarrow> Customer list \<Rightarrow> Order list \<Rightarrow> error + RFMMetrics list" where
  "calculateMetricsForCustomers parse now customers orders =
     (let currentDate = Fin (of_int now)
      in case groupOrdersByCustomer orders of
           Inl e \<Rightarrow> Inl e
         | Inr ordersByCustomer \<Rightarrow>
             calculateMetricsForCustomers_for parse currentDate ordersByCustomer [] customers)"

section \<open>Notions used to state the properties\<close>

text \<open>
  The scaling as the specification words it: \<open>(v - min) / (max - min)\<close> over the
  values of one axis, and \<open>0\<close> on an axis without variance.
\<close>

definition minmax_scale :: "real list \<Rightarrow> real \<Rightarrow> real" where
  "minmax_scale vs v =
     (if Max (set vs) = Min (set vs) then 0
      else (v - Min (set vs)) / (Max (set vs) - Min (set vs)))"

text \<open>A record whose three values are finite numbers.\<close>

definition finite_metric :: "RFMMetrics \<Rightarrow> bool" where
  "finite_metric m \<longleftrightarrow> is_fin (recency m) \<and> is_fin (frequency m) \<and> is_fin (monetary m)"

definition finite_metrics :: "RFMMetrics list \<Rightarrow> bool" where
  "finite_metrics metrics = list_all finite_metric metrics"

text \<open>The values of one axis over the whole record list.\<close>

definition axis_values :: "(RFMMetrics \<Rightarrow> jsnum) \<Rightarrow> RFMMetrics list \<Rightarrow> real list" where
  "axis_values f metrics = map (\<lambda>m. the_fin (f m)) metrics"

text \<open>Four customers: two recent, frequent, high-value ones and two lapsed ones.\<close>

definition scenario_A :: "RFMMetrics list" where
  "scenario_A =
     [\<lparr>RFMMetrics.user_id = ''c1'', recency = Fin 5, frequency = Fin 10, monetary = Fin 5000000,
       rfm_score = ''''\<rparr>,
      \<lparr>RFMMetrics.user_id = ''c2'', recency = Fin 60, frequency = Fin 1, monetary = Fin 200000,
       rfm_score = ''''\<rparr>,
      \<lparr>RFMMetrics.user_id = ''c3'', recency = Fin 3, frequency = Fin 8, monetary = Fin 4500000,
       rfm_score = ''''\<rparr>,
      \<lparr>RFMMetrics.user_id = ''c4'', recency = Fin 90, frequency = Fin 1, monetary = Fin 150000,
       rfm_score = ''''\<rparr>]"

text \<open>Cluster statistics whose three averages are finite numbers.\<close>

definition finite_stats :: "ClusterStats \<Rightarrow> bool" where
  "finite_stats c \<longleftrightarrow> is_fin (avgRecency c) \<and> is_fin (avgFrequency c) \<and> is_fin (avgMonetary c)"

text \<open>
  The composite score as the specification words it:
  \<open>0.3 * recencyScore + 0.3 * avgFrequency + 0.4 * avgMonetary\<close>, where \<open>recencyScore\<close> is
  \<open>1 / avgRecency\<close> for a positive \<open>avgRecency\<close> and \<open>1\<close> otherwise.
\<close>

definition composite_of :: "ClusterStats \<Rightarrow> real" where
  "composite_of c =
     3 / 10 * (if 0 < the_fin (avgRecency c) then 1 / the_fin (avgRecency c) else 1)
     + 3 / 10 * the_fin (avgFrequency c) + 4 / 10 * the_fin (avgMonetary c)"

text \<open>The statistics of two clusters.\<close>

definition stats_example :: "ClusterStats list" where
  "stats_example =
     [\<lparr>ClusterStats.cluster_id = 0, size_stat = 2, avgRecency = Fin 75, avgFrequency = Fin 1,
       avgMonetary = Fin 175000\<rparr>,
      \<lparr>ClusterStats.cluster_id = 1, size_stat = 2, avgRecency = Fin 4, avgFrequency = Fin 9,
       avgMonetary = Fin 4750000\<rparr>]"

text \<open>The scored clusters after the sort, before ranks and labels are attached.\<close>

text \<open>A record with no purchases: its cluster scores below \<open>0.3\<close>.\<close>

definition idle_customer :: RFMMetrics where
  "idle_customer = \<lparr>RFMMetrics.user_id = ''z'', recency = Fin 100, frequency = Fin 0,
     monetary = Fin 0, rfm_score = ''''\<rparr>"

definition sorted_scores :: "ClusterStats list \<Rightarrow> ScoredCluster list" where
  "sorted_scores clusterStats = array_sort by_score_desc (map score_cluster clusterStats)"

text \<open>The statistics recorded for a cluster without records.\<close>

definition empty_stats :: "nat \<Rightarrow> ClusterStats" where
  "empty_stats i = \<lparr>ClusterStats.cluster_id = i, size_stat = 0,
            avgRecency = Fin 0, avgFrequency = Fin 0, avgMonetary = Fin 0\<rparr>"

text \<open>The normalised vector of a record on a list without variance.\<close>

definition origin :: "jsnum list" where
  "origin = [Fin 0, Fin 0, Fin 0]"

text \<open>A record; a list of two of them has no variance on any axis.\<close>

definition twin :: RFMMetrics where
  "twin = \<lparr>RFMMetrics.user_id = ''c'', recency = Fin 5, frequency = Fin 2, monetary = Fin 100,
     rfm_score = ''''\<rparr>"

text \<open>The random source whose draws are all 0.\<close>

definition zero_rng :: rng where
  "zero_rng = (\<lambda>n. 0)"


text \<open>The orders of one customer, in the order of the input.\<close>

definition orders_of :: "Order list \<Rightarrow> string \<Rightarrow> Order list" where
  "orders_of orders uid = filter (\<lambda>order. Order.user_id order = uid) orders"

text \<open>The name of a property that every object inherits.\<close>

definition inherited_name :: "string \<Rightarrow> bool" where
  "inherited_name key \<longleftrightarrow> key \<in> set (map fst object_prototype)"

text \<open>An inherited property that passes the test \<open>customerOrders.length === 0\<close>.\<close>

definition inherited_orders :: "string \<Rightarrow> bool" where
  "inherited_orders key \<longleftrightarrow>
     (case map_of object_prototype key of None \<Rightarrow> False | Some len \<Rightarrow> len \<noteq> Some 0)"

text \<open>
  An order whose creation date parses to a valid date, the time value of that date,
  and the days from a time value to \<open>now\<close>, rounded down.
\<close>

definition valid_date :: "(string \<Rightarrow> jsnum) \<Rightarrow> Order \<Rightarrow> bool" where
  "valid_date parse order \<longleftrightarrow> is_fin (new_Date_string parse (created_at order))"

definition time_of :: "(string \<Rightarrow> jsnum) \<Rightarrow> Order \<Rightarrow> real" where
  "time_of parse order = the_fin (new_Date_string parse (created_at order))"

definition days_since :: "int \<Rightarrow> real \<Rightarrow> real" where
  "days_since now t = of_int \<lfloor>(real_of_int now - t) / 86400000\<rfloor>"

text \<open>An order whose total is not an infinity, and the amount it adds to the sum.\<close>

definition finite_total :: "Order \<Rightarrow> bool" where
  "finite_total order \<longleftrightarrow> total order \<noteq> PInf \<and> total order \<noteq> NInf"

definition amount :: "Order \<Rightarrow> real" where
  "amount order = the_fin (total order)"

text \<open>The record pushed for a customer with orders.\<close>

definition rfm_record :: "(string \<Rightarrow> jsnum) \<Rightarrow> int \<Rightarrow> Order list \<Rightarrow> Customer \<Rightarrow> RFMMetrics" where
  "rfm_record parse now orders customer =
     (let metrics = calculateCustomerMetrics parse (orders_of orders (id customer)) (Fin (of_int now))
      in \<lparr>RFMMetrics.user_id = id customer,
          recency = cm_recency metrics,
          frequency = cm_frequency metrics,
          monetary = cm_monetary metrics,
          rfm_score = []\<rparr>)"

text \<open>
  An example. The parser knows the time values of three ISO strings and rejects every
  other string, the empty one among them. The current date is 2024-06-01T00:00:00Z.
  Customer \<open>u1\<close> has two orders, 31 days and 9.5 days old; the only order of \<open>u2\<close> has
  an empty creation date; \<open>u3\<close> has no order; the order of \<open>u4\<close> lies after the
  current date.
\<close>

definition example_parse :: "string \<Rightarrow> jsnum" where
  "example_parse s =
     (if s = ''2024-05-01T00:00:00.000Z'' then Fin 1714521600000
      else if s = ''2024-05-22T12:00:00.000Z'' then Fin 1716379200000
      else if s = ''2024-07-01T00:00:00.000Z'' then Fin 1719792000000
      else NaN)"

definition example_now :: int where
  "example_now = 1717200000000"

definition customers_example :: "Customer list" where
  "customers_example = [\<lparr>id = ''u1''\<rparr>, \<lparr>id = ''u2''\<rparr>, \<lparr>id = ''u3''\<rparr>, \<lparr>id = ''u4''\<rparr>]"

definition orders_example :: "Order list" where
  "orders_example =
     [\<lparr>Order.user_id = ''u1'', created_at = ''2024-05-01T00:00:00.000Z'', total = Fin 200\<rparr>,
      \<lparr>Order.user_id = ''u2'', created_at = '''', total = Fin 300\<rparr>,
      \<lparr>Order.user_id = ''u1'', created_at = ''2024-05-22T12:00:00.000Z'', total = Fin 300\<rparr>,
      \<lparr>Order.user_id = ''u4'', created_at = ''2024-07-01T00:00:00.000Z'', total = Fin 50\<rparr>]"

text \<open>
  The convergence test as the specification words it: there is a previous iteration,
  and every coordinate of every centroid moved by less than the threshold.
\<close>

definition coordinates_moved_less ::
  "jsnum list list \<Rightarrow> jsnum list list \<Rightarrow> jsnum \<Rightarrow> bool" where
  "coordinates_moved_less current previous threshold \<longleftrightarrow>
     previous \<noteq> [] \<and>
     (\<forall>i < length current. \<forall>d < length (current ! i).
        i < length previous \<and>
        jlt (math_abs (jsub (current ! i ! d) (num_at (previous ! i) d))) threshold)"

text \<open>The state of the main loop after \<open>j\<close> passes through its body.\<close>

definition kmeans_state :: "rng \<Rightarrow> jsnum list list \<Rightarrow> nat \<Rightarrow> KMeansState \<Rightarrow> nat \<Rightarrow> KMeansState" where
  "kmeans_state rng data k s0 j = (kmeans_body rng data k ^^ j) s0"

text \<open>The state in which \<open>runKMeansAlgorithm\<close> enters its loop.\<close>

definition initial_state :: "jsnum list list \<Rightarrow> nat \<Rightarrow> KMeansState" where
  "initial_state centroids pos =
     \<lparr>st_centroids = centroids, st_previous = [], st_iterations = 0, st_pos = pos\<rparr>"

text \<open>Points of one dimension whose coordinates are finite numbers.\<close>

definition finite_points :: "nat \<Rightarrow> jsnum list list \<Rightarrow> bool" where
  "finite_points n data = list_all (\<lambda>p. length p = n \<and> list_all is_fin p) data"

text \<open>
  One pass of the seeding loop, as a function of its draw \<open>r\<close>: the centroids with
  the picked point added, or unchanged when no point is picked.
\<close>

definition kmeanspp_next :: "real \<Rightarrow> jsnum list list \<Rightarrow> jsnum list list \<Rightarrow> jsnum list list" where
  "kmeanspp_next r data centroids =
     (let distances =
            map (\<lambda>point.
                   let minDistance = math_min (map (\<lambda>centroid. euclideanDistance point centroid)
                                                 centroids)
                   in jmul minDistance minDistance) data;
          totalDistance = foldl (\<lambda>sum d. jadd sum d) (Fin 0) distances;
          randomValue = jmul (Fin r) totalDistance
      in case kmeanspp_pick (zip data distances) randomValue (Fin 0) of
           None \<Rightarrow> centroids
         | Some point \<Rightarrow> centroids @ [point])"

text \<open>Two random sources that give the same draws at the positions from \<open>lo\<close> up to \<open>hi\<close>.\<close>

definition same_draws :: "rng \<Rightarrow> rng \<Rightarrow> nat \<Rightarrow> nat \<Rightarrow> bool" where
  "same_draws rng rng' lo hi \<longleftrightarrow> (\<forall>i \<in> {lo..<hi}. rng' i = rng i)"

text \<open>A random source that differs from \<open>zero_rng\<close> from the sixth draw on.\<close>

definition late_rng :: rng where
  "late_rng = (\<lambda>n. if n < 5 then 0 else 1 / 2)"

text \<open>
  The candidate cluster counts as the specification words them: from 2 up to
  \<open>min(8, floor(customerCount / 2))\<close>, both included.
\<close>

definition candidates :: "RFMMetrics list \<Rightarrow> nat list" where
  "candidates metrics = [2..<Suc (min 8 (length metrics div 2))]"

text \<open>
  The elbow rule as the specification words it. An interior index of the WCSS list
  has a neighbour on both sides; index \<open>i\<close> stands for the candidate \<open>2 + i\<close>.
\<close>

definition interior :: "jsnum list \<Rightarrow> nat \<Rightarrow> bool" where
  "interior w i \<longleftrightarrow> 1 \<le> i \<and> i + 1 < length w"

definition improvementRate :: "jsnum list \<Rightarrow> nat \<Rightarrow> jsnum" where
  "improvementRate w i = jsub (jsub (w ! (i - 1)) (w ! i)) (jsub (w ! i) (w ! (i + 1)))"

text \<open>
  The chosen count is 2 when no interior rate is above 0; otherwise it is the count
  of the first interior index whose rate is above 0 and not exceeded by any other.
\<close>

definition elbow_choice :: "jsnum list \<Rightarrow> nat \<Rightarrow> bool" where
  "elbow_choice w chosen \<longleftrightarrow>
     (chosen = 2 \<and> (\<forall>i < length w. interior w i \<longrightarrow> \<not> jgt (improvementRate w i) (Fin 0)))
     \<or> (\<exists>i < length w. interior w i \<and> chosen = 2 + i
            \<and> jgt (improvementRate w i) (Fin 0)
            \<and> (\<forall>j < length w. interior w j \<longrightarrow>
                   \<not> jgt (improvementRate w j) (improvementRate w i))
            \<and> (\<forall>j < i. interior w j \<longrightarrow>
                   \<not> jge (improvementRate w j) (improvementRate w i)))"

text \<open>The state of the elbow loop before it looks at index \<open>i\<close>.\<close>

definition elbow_inv :: "jsnum list \<Rightarrow> nat \<Rightarrow> nat \<times> jsnum \<Rightarrow> bool" where
  "elbow_inv w i acc \<longleftrightarrow>
     (fst acc = 2 \<and> snd acc = Fin 0
        \<and> (\<forall>j < i. interior w j \<longrightarrow> \<not> jgt (improvementRate w j) (Fin 0)))
     \<or> (\<exists>i0 < i. interior w i0 \<and> fst acc = 2 + i0 \<and> snd acc = improvementRate w i0
            \<and> jgt (improvementRate w i0) (Fin 0)
            \<and> (\<forall>j < i. interior w j \<longrightarrow>
                   \<not> jgt (improvementRate w j) (improvementRate w i0))
            \<and> (\<forall>j < i0. interior w j \<longrightarrow>
                   \<not> jge (improvementRate w j) (improvementRate w i0)))"

text \<open>Six records.\<close>

definition six_twins :: "RFMMetrics list" where
  "six_twins = [twin, twin, twin, twin, twin, twin]"

text \<open>Two customers that differ in recency only, and the vectors they normalise to.\<close>

definition recent_customer :: RFMMetrics where
  "recent_customer = \<lparr>RFMMetrics.user_id = ''r'', recency = Fin 10, frequency = Fin 2,
     monetary = Fin 100, rfm_score = ''''\<rparr>"

definition lapsed_customer :: RFMMetrics where
  "lapsed_customer = \<lparr>RFMMetrics.user_id = ''l'', recency = Fin 40, frequency = Fin 2,
     monetary = Fin 100, rfm_score = ''''\<rparr>"

definition unit_x :: "jsnum list" where
  "unit_x = [Fin 1, Fin 0, Fin 0]"

definition half_x :: "jsnum list" where
  "half_x = [Fin (1 / 2), Fin 0, Fin 0]"

section \<open>Properties of the normaliser\<close>

lemma is_fin_conv: "is_fin a \<longleftrightarrow> a = Fin (the_fin a)"
  by (cases a) simp_all

lemma foldl_math_min2_Fin:
  "foldl math_min2 (Fin a) (map Fin vs) = Fin (fold min vs a)"
  by (induction vs arbitrary: a) (simp_all add: min.commute)

lemma foldl_math_max2_Fin:
  "foldl math_max2 (Fin a) (map Fin vs) = Fin (fold max vs a)"
  by (induction vs arbitrary: a) (simp_all add: max.commute)

lemma math_min_Fin: "vs \<noteq> [] \<Longrightarrow> math_min (map Fin vs) = Fin (Min (set vs))"
  by (cases vs) (simp_all add: math_min_def foldl_math_min2_Fin Min.set_eq_fold del: set_simps)

lemma math_max_Fin: "vs \<noteq> [] \<Longrightarrow> math_max (map Fin vs) = Fin (Max (set vs))"
  by (cases vs) (simp_all add: math_max_def foldl_math_max2_Fin Max.set_eq_fold del: set_simps)

lemma normalize_Fin:
  "normalize_rfm (Fin v) (Fin (Min (set vs))) (Fin (Max (set vs))) = Fin (minmax_scale vs v)"
  by (simp add: normalize_rfm_def minmax_scale_def)

lemma Fin_the_fin: "is_fin a \<Longrightarrow> Fin (the_fin a) = a"
  by (cases a) simp_all

lemma map_the_fin: "list_all is_fin xs \<Longrightarrow> map Fin (map the_fin xs) = xs"
  by (induction xs) (simp_all add: Fin_the_fin)

lemma minmax_scale_bounds:
  assumes "v \<in> set vs"
  shows "0 \<le> minmax_scale vs v" and "minmax_scale vs v \<le> 1"
proof -
  have lo: "Min (set vs) \<le> v" and hi: "v \<le> Max (set vs)"
    using assms by simp_all
  show "0 \<le> minmax_scale vs v"
    using lo hi by (simp add: minmax_scale_def)
  show "minmax_scale vs v \<le> 1"
    using lo hi by (simp add: minmax_scale_def divide_le_eq_1)
qed

lemma minmax_scale_min: "minmax_scale vs (Min (set vs)) = 0"
  by (simp add: minmax_scale_def)

lemma minmax_scale_max:
  "Max (set vs) \<noteq> Min (set vs) \<Longrightarrow> minmax_scale vs (Max (set vs)) = 1"
  by (simp add: minmax_scale_def)

lemma minmax_scale_degenerate:
  "Max (set vs) = Min (set vs) \<Longrightarrow> minmax_scale vs v = 0"
  by (simp add: minmax_scale_def)

lemma axis_math_min:
  assumes "metrics \<noteq> []" "finite_metrics metrics"
    and "f = recency \<or> f = frequency \<or> f = monetary"
  shows "math_min (map f metrics) = Fin (Min (set (axis_values f metrics)))"
    and "math_max (map f metrics) = Fin (Max (set (axis_values f metrics)))"
proof -
  have "list_all is_fin (map f metrics)"
    using assms(2,3) by (auto simp: finite_metrics_def finite_metric_def list_all_iff)
  then have eq: "map f metrics = map Fin (axis_values f metrics)"
    using map_the_fin [of "map f metrics"] by (simp add: axis_values_def comp_def)
  have ne: "axis_values f metrics \<noteq> []"
    using assms(1) by (simp add: axis_values_def)
  show "math_min (map f metrics) = Fin (Min (set (axis_values f metrics)))"
    unfolding eq by (rule math_min_Fin [OF ne])
  show "math_max (map f metrics) = Fin (Max (set (axis_values f metrics)))"
    unfolding eq by (rule math_max_Fin [OF ne])
qed

lemma normalizeData_eq:
  assumes "metrics \<noteq> []" "finite_metrics metrics"
  shows "normalizeData metrics =
     map (\<lambda>m. [Fin (minmax_scale (axis_values recency metrics) (the_fin (recency m))),
               Fin (minmax_scale (axis_values frequency metrics) (the_fin (frequency m))),
               Fin (minmax_scale (axis_values monetary metrics) (the_fin (monetary m)))]) metrics"
proof -
  have fin: "\<And>m. m \<in> set metrics \<Longrightarrow>
      recency m = Fin (the_fin (recency m)) \<and> frequency m = Fin (the_fin (frequency m))
      \<and> monetary m = Fin (the_fin (monetary m))"
    using assms(2) by (auto simp: finite_metrics_def finite_metric_def list_all_iff Fin_the_fin)
  show ?thesis
    unfolding normalizeData_def Let_def
    apply (simp only: axis_math_min [OF assms, of recency] axis_math_min [OF assms, of frequency]
        axis_math_min [OF assms, of monetary] simp_thms)
    apply (rule map_cong [OF refl])
    subgoal for m
      using fin [of m] by (metis normalize_Fin)
    done
qed

text \<open>
  C3. For a non-empty list of records with finite values, \<open>normalizeData\<close> maps each
  record to its three values scaled by \<open>(v - min) / (max - min)\<close> over the whole list.
  Every scaled value lies between 0 and 1, a value at the minimum of its axis maps to
  0, a value at the maximum to 1 when the axis has variance, and every value maps to 0
  on an axis where maximum and minimum coincide.
\<close>

theorem normalizeData_scales:
  assumes "metrics \<noteq> []" and "finite_metrics metrics"
  shows "normalizeData metrics =
           map (\<lambda>m. [Fin (minmax_scale (axis_values recency metrics) (the_fin (recency m))),
                     Fin (minmax_scale (axis_values frequency metrics) (the_fin (frequency m))),
                     Fin (minmax_scale (axis_values monetary metrics) (the_fin (monetary m)))])
             metrics
         \<and> (\<forall>f \<in> {recency, frequency, monetary :: RFMMetrics \<Rightarrow> jsnum}. \<forall>m \<in> set metrics.
              0 \<le> minmax_scale (axis_values f metrics) (the_fin (f m))
            \<and> minmax_scale (axis_values f metrics) (the_fin (f m)) \<le> 1
            \<and> (the_fin (f m) = Min (set (axis_values f metrics))
                 \<longrightarrow> minmax_scale (axis_values f metrics) (the_fin (f m)) = 0)
            \<and> (the_fin (f m) = Max (set (axis_values f metrics))
                 \<and> Max (set (axis_values f metrics)) \<noteq> Min (set (axis_values f metrics))
                 \<longrightarrow> minmax_scale (axis_values f metrics) (the_fin (f m)) = 1)
            \<and> (Max (set (axis_values f metrics)) = Min (set (axis_values f metrics))
                 \<longrightarrow> minmax_scale (axis_values f metrics) (the_fin (f m)) = 0))"
proof (intro conjI ballI)
  show "normalizeData metrics =
           map (\<lambda>m. [Fin (minmax_scale (axis_values recency metrics) (the_fin (recency m))),
                     Fin (minmax_scale (axis_values frequency metrics) (the_fin (frequency m))),
                     Fin (minmax_scale (axis_values monetary metrics) (the_fin (monetary m)))])
             metrics"
    by (rule normalizeData_eq [OF assms])
next
  fix f :: "RFMMetrics \<Rightarrow> jsnum" and m assume "f \<in> {recency, frequency, monetary}" and m: "m \<in> set metrics"
  have mem: "the_fin (f m) \<in> set (axis_values f metrics)"
    using m by (simp add: axis_values_def)
  show "0 \<le> minmax_scale (axis_values f metrics) (the_fin (f m))"
    by (rule minmax_scale_bounds(1) [OF mem])
  show "minmax_scale (axis_values f metrics) (the_fin (f m)) \<le> 1"
    by (rule minmax_scale_bounds(2) [OF mem])
  show "the_fin (f m) = Min (set (axis_values f metrics))
                 \<longrightarrow> minmax_scale (axis_values f metrics) (the_fin (f m)) = 0"
    by (simp add: minmax_scale_min)
  show "the_fin (f m) = Max (set (axis_values f metrics))
                 \<and> Max (set (axis_values f metrics)) \<noteq> Min (set (axis_values f metrics))
                 \<longrightarrow> minmax_scale (axis_values f metrics) (the_fin (f m)) = 1"
    by (simp add: minmax_scale_max)
  show "Max (set (axis_values f metrics)) = Min (set (axis_values f metrics))
                 \<longrightarrow> minmax_scale (axis_values f metrics) (the_fin (f m)) = 0"
    by (simp add: minmax_scale_degenerate)
qed

theorem normalizeData_scales_witness:
  "scenario_A \<noteq> [] \<and> finite_metrics scenario_A
   \<and> normalizeData scenario_A =
       [[Fin (2 / 87), Fin 1, Fin 1], [Fin (19 / 29), Fin 0, Fin (1 / 97)],
        [Fin 0, Fin (7 / 9), Fin (87 / 97)], [Fin 1, Fin 0, Fin 0]]"
proof -
  have h1: "scenario_A \<noteq> []" by (simp add: scenario_A_def)
  have h2: "finite_metrics scenario_A"
    by (simp add: scenario_A_def finite_metrics_def finite_metric_def)
  have r: "axis_values recency scenario_A = [5, 60, 3, 90]"
    and f: "axis_values frequency scenario_A = [10, 1, 8, 1]"
    and m: "axis_values monetary scenario_A = [5000000, 200000, 4500000, 150000]"
    by (simp_all add: scenario_A_def axis_values_def)
  have mm: "Min (set [5, 60, 3, 90 :: real]) = 3" "Max (set [5, 60, 3, 90 :: real]) = 90"
    "Min (set [10, 1, 8, 1 :: real]) = 1" "Max (set [10, 1, 8, 1 :: real]) = 10"
    "Min (set [5000000, 200000, 4500000, 150000 :: real]) = 150000"
    "Max (set [5000000, 200000, 4500000, 150000 :: real]) = 5000000"
    by simp_all
  have "normalizeData scenario_A =
       [[Fin (2 / 87), Fin 1, Fin 1], [Fin (19 / 29), Fin 0, Fin (1 / 97)],
        [Fin 0, Fin (7 / 9), Fin (87 / 97)], [Fin 1, Fin 0, Fin 0]]"
    using normalizeData_scales [OF h1 h2]
    unfolding r f m minmax_scale_def mm by (simp add: scenario_A_def)
  with h1 h2 show ?thesis by simp
qed

section \<open>Properties of sorting and ranking\<close>

lemma mset_insort_cmp: "mset (insort_cmp cmp x ys) = add_mset x (mset ys)"
  by (induction ys) simp_all

lemma mset_array_sort: "mset (array_sort cmp xs) = mset xs"
  by (induction xs) (simp_all add: array_sort_def mset_insort_cmp)

lemma set_array_sort: "set (array_sort cmp xs) = set xs"
  using mset_array_sort [of cmp xs] by (metis set_mset_mset)

lemma length_array_sort: "length (array_sort cmp xs) = length xs"
  using mset_array_sort [of cmp xs] by (metis size_mset)

lemma set_insort_cmp: "set (insort_cmp cmp x ys) = insert x (set ys)"
  using mset_insort_cmp [of cmp x ys] by (metis set_mset_add_mset_insert set_mset_mset)

lemma sorted_insort_cmp:
  assumes "\<And>y. y \<in> set ys \<Longrightarrow> jgt (cmp x y) (Fin 0) \<longleftrightarrow> key y < key x"
    and "sorted (map key ys)"
  shows "sorted (map key (insort_cmp cmp x ys))"
  using assms
proof (induction ys)
  case Nil
  then show ?case by simp
next
  case (Cons y ys)
  show ?case
  proof (cases "jgt (cmp x y) (Fin 0)")
    case True
    then have lt: "key y < key x" using Cons.prems(1) by simp
    have srt: "sorted (map key (insort_cmp cmp x ys))"
      using Cons by simp
    have "\<forall>z \<in> set (insort_cmp cmp x ys). key y \<le> key z"
      using Cons.prems(2) lt by (auto simp: set_insort_cmp)
    with srt True show ?thesis by simp
  next
    case False
    then have "key x \<le> key y" using Cons.prems(1) [of y] by auto
    with False Cons.prems(2) show ?thesis by auto
  qed
qed

lemma sorted_array_sort:
  assumes "\<And>x y. x \<in> set xs \<Longrightarrow> y \<in> set xs \<Longrightarrow> jgt (cmp x y) (Fin 0) \<longleftrightarrow> key y < key x"
  shows "sorted (map key (array_sort cmp xs))"
  using assms
proof (induction xs)
  case Nil
  then show ?case by (simp add: array_sort_def)
next
  case (Cons x xs)
  have ih: "sorted (map key (array_sort cmp xs))"
    using Cons by simp
  have "sorted (map key (insort_cmp cmp x (array_sort cmp xs)))"
    by (rule sorted_insort_cmp [OF _ ih]) (simp add: set_array_sort Cons.prems)
  then show ?case by (simp add: array_sort_def)
qed

lemma score_cluster_finite:
  assumes "finite_stats c"
  shows "ScoredCluster.composite_score (score_cluster c) = Fin (composite_of c)"
proof -
  obtain r f m where e: "avgRecency c = Fin r" "avgFrequency c = Fin f" "avgMonetary c = Fin m"
    using assms unfolding finite_stats_def by (metis is_fin_conv)
  show ?thesis
    by (simp add: score_cluster_def composite_of_def e jgt_def Let_def recencyWeight_def
        frequencyWeight_def monetaryWeight_def ClusterStats.defs ScoredCluster.defs)
qed

lemma score_cluster_fields:
  "ClusterStats.cluster_id (score_cluster c) = ClusterStats.cluster_id c"
  "avgRecency (score_cluster c) = avgRecency c"
  "avgFrequency (score_cluster c) = avgFrequency c"
  "avgMonetary (score_cluster c) = avgMonetary c"
  by (simp_all add: score_cluster_def Let_def ClusterStats.defs)

lemma map_zip_index: "map (\<lambda>(x, i). g x) (zip xs [0..<length xs]) = map g xs"
  by (rule nth_equalityI) simp_all

lemma ranked_unfold:
  "rankClustersAndAssignLabels clusterStats =
     map (\<lambda>(cluster, index). rank_cluster cluster index)
       (zip (sorted_scores clusterStats) [0..<length (sorted_scores clusterStats)])"
  by (simp add: rankClustersAndAssignLabels_def sorted_scores_def Let_def)

lemma length_sorted_scores: "length (sorted_scores clusterStats) = length clusterStats"
  by (simp add: sorted_scores_def length_array_sort)

lemma length_ranked: "length (rankClustersAndAssignLabels clusterStats) = length clusterStats"
  by (simp add: ranked_unfold length_sorted_scores)

lemma ranked_nth:
  "i < length clusterStats \<Longrightarrow>
     rankClustersAndAssignLabels clusterStats ! i = rank_cluster (sorted_scores clusterStats ! i) i"
  by (simp add: ranked_unfold length_sorted_scores)

lemma segmentLabels_last: "length segmentLabels - 1 = 3"
  by (simp add: segmentLabels_def)

lemma rank_cluster_label: "segment_label (rank_cluster c i) = segmentLabels ! min i 3"
  unfolding rank_cluster_def Let_def segmentLabels_last by simp

lemma rank_cluster_fields:
  "rank (rank_cluster c i) = i + 1"
  "ClusterCenter.composite_score (rank_cluster c i) = ScoredCluster.composite_score c"
  "ClusterCenter.cluster_id (rank_cluster c i) = ClusterStats.cluster_id c"
  "recency_center (rank_cluster c i) = avgRecency c"
  "frequency_center (rank_cluster c i) = avgFrequency c"
  "monetary_center (rank_cluster c i) = avgMonetary c"
  by (simp_all add: rank_cluster_def Let_def)

lemma ranks_in_order: "map rank (rankClustersAndAssignLabels clusterStats) = [1..<Suc (length clusterStats)]"
  by (rule nth_equalityI)
     (simp_all add: length_ranked ranked_nth rank_cluster_fields del: upt_Suc)

lemma mset_sorted_scores:
  "mset (sorted_scores clusterStats) = mset (map score_cluster clusterStats)"
  by (simp add: sorted_scores_def mset_array_sort)

lemma ranked_clusters_mset:
  assumes "list_all finite_stats clusterStats"
  shows "mset (map (\<lambda>c. (ClusterCenter.cluster_id c, recency_center c, frequency_center c,
                          monetary_center c, ClusterCenter.composite_score c))
                (rankClustersAndAssignLabels clusterStats))
       = mset (map (\<lambda>s. (ClusterStats.cluster_id s, avgRecency s, avgFrequency s, avgMonetary s,
                           Fin (composite_of s))) clusterStats)"
proof -
  let ?p = "\<lambda>c. (ClusterCenter.cluster_id c, recency_center c, frequency_center c,
                  monetary_center c, ClusterCenter.composite_score c)"
  let ?q = "\<lambda>c :: ScoredCluster. (ClusterStats.cluster_id c, avgRecency c, avgFrequency c,
                  avgMonetary c, ScoredCluster.composite_score c)"
  have "map ?p (rankClustersAndAssignLabels clusterStats) = map ?q (sorted_scores clusterStats)"
    by (rule nth_equalityI)
       (simp_all add: length_ranked length_sorted_scores ranked_nth rank_cluster_fields)
  then have "mset (map ?p (rankClustersAndAssignLabels clusterStats))
      = image_mset ?q (mset (sorted_scores clusterStats))"
    by simp
  also have "\<dots> = mset (map (\<lambda>s. ?q (score_cluster s)) clusterStats)"
    by (simp add: mset_sorted_scores multiset.map_comp comp_def)
  also have "map (\<lambda>s. ?q (score_cluster s)) clusterStats
      = map (\<lambda>s. (ClusterStats.cluster_id s, avgRecency s, avgFrequency s, avgMonetary s,
                           Fin (composite_of s))) clusterStats"
    using assms
    by (intro map_cong refl) (simp add: list_all_iff score_cluster_fields score_cluster_finite)
  finally show ?thesis .
qed

lemma sorted_scores_finite:
  assumes "list_all finite_stats clusterStats" and "c \<in> set (sorted_scores clusterStats)"
  shows "\<exists>s \<in> set clusterStats. ScoredCluster.composite_score c = Fin (composite_of s)"
proof -
  from assms(2) have "c \<in> set (map score_cluster clusterStats)"
    by (simp add: sorted_scores_def set_array_sort)
  then obtain s where "s \<in> set clusterStats" "c = score_cluster s" by auto
  with assms(1) show ?thesis
    by (auto simp: list_all_iff score_cluster_finite)
qed

lemma by_score_desc_gt:
  assumes "ScoredCluster.composite_score x = Fin a" "ScoredCluster.composite_score y = Fin b"
  shows "jgt (by_score_desc x y) (Fin 0) \<longleftrightarrow> - b < - a"
  by (simp add: by_score_desc_def assms jgt_def)

lemma sorted_scores_descending:
  assumes "list_all finite_stats clusterStats"
  shows "sorted (map (\<lambda>c. - the_fin (ScoredCluster.composite_score c)) (sorted_scores clusterStats))"
  unfolding sorted_scores_def
proof (rule sorted_array_sort)
  fix x y assume "x \<in> set (map score_cluster clusterStats)" "y \<in> set (map score_cluster clusterStats)"
  then obtain a b where "ScoredCluster.composite_score x = Fin a" "ScoredCluster.composite_score y = Fin b"
    using assms by (auto simp: list_all_iff score_cluster_finite)
  then show "jgt (by_score_desc x y) (Fin 0) \<longleftrightarrow>
      - the_fin (ScoredCluster.composite_score y) < - the_fin (ScoredCluster.composite_score x)"
    by (simp add: by_score_desc_gt)
qed

lemma ranked_descending:
  assumes "list_all finite_stats clusterStats" and "i \<le> j" and "j < length clusterStats"
  shows "the_fin (ClusterCenter.composite_score (rankClustersAndAssignLabels clusterStats ! j))
       \<le> the_fin (ClusterCenter.composite_score (rankClustersAndAssignLabels clusterStats ! i))"
proof -
  have "map (\<lambda>c. - the_fin (ScoredCluster.composite_score c)) (sorted_scores clusterStats) ! i
      \<le> map (\<lambda>c. - the_fin (ScoredCluster.composite_score c)) (sorted_scores clusterStats) ! j"
    using sorted_scores_descending [OF assms(1)] assms(2,3)
    by (intro sorted_nth_mono) (simp_all add: length_sorted_scores)
  then show ?thesis
    using assms(2,3) by (simp add: ranked_nth rank_cluster_fields length_sorted_scores)
qed

lemma ranked_first_is_max:
  assumes fin: "list_all finite_stats clusterStats"
    and c: "c \<in> set (rankClustersAndAssignLabels clusterStats)" and r: "rank c = 1"
    and s: "s \<in> set clusterStats"
  shows "composite_of s \<le> the_fin (ClusterCenter.composite_score c)"
proof -
  let ?R = "rankClustersAndAssignLabels clusterStats"
  from c obtain i where i: "i < length clusterStats" "?R ! i = c"
    by (auto simp: in_set_conv_nth length_ranked)
  then have "rank c = i + 1" by (auto simp: ranked_nth rank_cluster_fields)
  with r have i0: "i = 0" by simp
  have "(ClusterStats.cluster_id s, avgRecency s, avgFrequency s, avgMonetary s, Fin (composite_of s))
      \<in># mset (map (\<lambda>s. (ClusterStats.cluster_id s, avgRecency s, avgFrequency s, avgMonetary s,
                           Fin (composite_of s))) clusterStats)"
    using s by auto
  then have "(ClusterStats.cluster_id s, avgRecency s, avgFrequency s, avgMonetary s, Fin (composite_of s))
      \<in> set (map (\<lambda>c. (ClusterCenter.cluster_id c, recency_center c, frequency_center c,
                          monetary_center c, ClusterCenter.composite_score c)) ?R)"
    unfolding ranked_clusters_mset [OF fin, symmetric] by simp
  then obtain d where d: "d \<in> set ?R" "ClusterCenter.composite_score d = Fin (composite_of s)"
    by auto
  then obtain j where j: "j < length clusterStats" "?R ! j = d"
    by (auto simp: in_set_conv_nth length_ranked)
  have "the_fin (ClusterCenter.composite_score (?R ! j)) \<le> the_fin (ClusterCenter.composite_score (?R ! 0))"
    by (rule ranked_descending [OF fin _ j(1)]) simp
  with i i0 j d show ?thesis by simp
qed

lemma ranked_labels:
  "i < length clusterStats \<Longrightarrow>
     segment_label (rankClustersAndAssignLabels clusterStats ! i)
       = [''VIP'', ''Loyal'', ''Potential'', ''Pay Attention''] ! min i 3"
  by (simp add: ranked_nth rank_cluster_label segmentLabels_def)

lemma ranked_example:
  "map (\<lambda>c. (ClusterCenter.cluster_id c, rank c, segment_label c))
     (rankClustersAndAssignLabels stats_example) = [(1, 1, ''VIP''), (0, 2, ''Loyal'')]"
  by (simp add: stats_example_def rankClustersAndAssignLabels_def score_cluster_def array_sort_def
      by_score_desc_def rank_cluster_def segmentLabels_def jgt_def Let_def recencyWeight_def
      frequencyWeight_def monetaryWeight_def ClusterStats.defs ScoredCluster.defs upt_rec)

text \<open>
  C4. For cluster statistics with finite averages, \<open>rankClustersAndAssignLabels\<close> returns
  one centre per cluster, each with its statistics and the composite score
  \<open>0.3 * recencyScore + 0.3 * avgFrequency + 0.4 * avgMonetary\<close>; the centres are in
  descending order of composite score, the centre at position \<open>i\<close> has rank \<open>i + 1\<close>, so
  the ranks are exactly \<open>1, ..., K\<close>, the centre of rank 1 has the maximal composite
  score, and the label at position \<open>i\<close> is the entry \<open>min i 3\<close> of
  \<open>VIP, Loyal, Potential, Pay Attention\<close>.
\<close>

theorem rankClustersAndAssignLabels_ranking:
  assumes "list_all finite_stats clusterStats"
  shows "length (rankClustersAndAssignLabels clusterStats) = length clusterStats
    \<and> mset (map (\<lambda>c. (ClusterCenter.cluster_id c, recency_center c, frequency_center c,
                       monetary_center c, ClusterCenter.composite_score c))
              (rankClustersAndAssignLabels clusterStats))
        = mset (map (\<lambda>s. (ClusterStats.cluster_id s, avgRecency s, avgFrequency s, avgMonetary s,
                           Fin (composite_of s))) clusterStats)
    \<and> map rank (rankClustersAndAssignLabels clusterStats) = [1..<Suc (length clusterStats)]
    \<and> (\<forall>i j. i \<le> j \<and> j < length clusterStats \<longrightarrow>
          the_fin (ClusterCenter.composite_score (rankClustersAndAssignLabels clusterStats ! j))
          \<le> the_fin (ClusterCenter.composite_score (rankClustersAndAssignLabels clusterStats ! i)))
    \<and> (\<forall>c \<in> set (rankClustersAndAssignLabels clusterStats). rank c = 1 \<longrightarrow>
          (\<forall>s \<in> set clusterStats. composite_of s \<le> the_fin (ClusterCenter.composite_score c)))
    \<and> (\<forall>i < length clusterStats.
          segment_label (rankClustersAndAssignLabels clusterStats ! i)
            = [''VIP'', ''Loyal'', ''Potential'', ''Pay Attention''] ! min i 3)"
  using length_ranked ranked_clusters_mset [OF assms] ranks_in_order
    ranked_descending [OF assms] ranked_first_is_max [OF assms] ranked_labels
  by blast

theorem rankClustersAndAssignLabels_ranking_witness:
  "list_all finite_stats stats_example
   \<and> map rank (rankClustersAndAssignLabels stats_example) = [1, 2]
   \<and> map (\<lambda>c. (ClusterCenter.cluster_id c, rank c, segment_label c))
         (rankClustersAndAssignLabels stats_example) = [(1, 1, ''VIP''), (0, 2, ''Loyal'')]"
proof -
  have h: "list_all finite_stats stats_example"
    by (simp add: stats_example_def finite_stats_def)
  have len: "length stats_example = 2"
    by (simp add: stats_example_def)
  have up: "[1..<Suc 2] = [1, 2]"
    by (simp add: upt_rec)
  show ?thesis
    using rankClustersAndAssignLabels_ranking [OF h] h ranked_example unfolding len up by simp
qed

lemma points_of_cluster_empty: "i \<notin> set clusters \<Longrightarrow> points_of_cluster xs clusters i = []"
  by (auto simp: points_of_cluster_def filter_empty_conv dest: set_zip_rightD)

lemma stats_nth:
  "i < k \<Longrightarrow> calculateClusterStatistics metrics clusters k ! i =
     (let clusterMetrics = points_of_cluster metrics clusters i
      in if length clusterMetrics = 0 then
           \<lparr>ClusterStats.cluster_id = i, size_stat = 0,
            avgRecency = Fin 0, avgFrequency = Fin 0, avgMonetary = Fin 0\<rparr>
         else
           \<lparr>ClusterStats.cluster_id = i, size_stat = length clusterMetrics,
            avgRecency = jdiv (foldl (\<lambda>sum m. jadd sum (recency m)) (Fin 0) clusterMetrics)
                              (Fin (real (length clusterMetrics))),
            avgFrequency = jdiv (foldl (\<lambda>sum m. jadd sum (frequency m)) (Fin 0) clusterMetrics)
                                (Fin (real (length clusterMetrics))),
            avgMonetary = jdiv (foldl (\<lambda>sum m. jadd sum (monetary m)) (Fin 0) clusterMetrics)
                               (Fin (real (length clusterMetrics)))\<rparr>)"
  by (simp add: calculateClusterStatistics_def Let_def)

lemma length_stats: "length (calculateClusterStatistics metrics clusters k) = k"
  by (simp add: calculateClusterStatistics_def)

lemma foldl_jadd_Fin:
  "list_all (\<lambda>x. is_fin (f x)) xs \<Longrightarrow>
     foldl (\<lambda>sum x. jadd sum (f x)) (Fin a) xs = Fin (a + sum_list (map (\<lambda>x. the_fin (f x)) xs))"
proof (induction xs arbitrary: a)
  case Nil
  then show ?case by simp
next
  case (Cons x xs)
  then obtain v where "f x = Fin v" by (auto simp: is_fin_conv)
  with Cons show ?case by (simp add: add.assoc)
qed

lemma set_points_of_cluster: "set (points_of_cluster xs clusters i) \<subseteq> set xs"
  by (auto simp: points_of_cluster_def dest: set_zip_leftD)

lemma finite_stats_calculate:
  assumes "finite_metrics metrics"
  shows "list_all finite_stats (calculateClusterStatistics metrics clusters k)"
proof -
  have "finite_stats (calculateClusterStatistics metrics clusters k ! i)" if "i < k" for i
  proof -
    let ?P = "points_of_cluster metrics clusters i"
    have all: "list_all finite_metric ?P"
      using assms set_points_of_cluster [of metrics clusters i]
      by (auto simp: finite_metrics_def list_all_iff)
    then have fin: "list_all (\<lambda>m. is_fin (recency m)) ?P" "list_all (\<lambda>m. is_fin (frequency m)) ?P"
      "list_all (\<lambda>m. is_fin (monetary m)) ?P"
      by (auto simp: list_all_iff finite_metric_def)
    show ?thesis
      by (simp add: stats_nth [OF that] Let_def finite_stats_def foldl_jadd_Fin [OF fin(1)]
          foldl_jadd_Fin [OF fin(2)] foldl_jadd_Fin [OF fin(3)])
  qed
  then show ?thesis
    by (auto simp: list_all_iff in_set_conv_nth length_stats)
qed

lemma composite_of_empty: "composite_of (empty_stats i) = 3 / 10"
  by (simp add: composite_of_def empty_stats_def)

lemma stats_idle:
  "calculateClusterStatistics [idle_customer] [0] 2
   = [\<lparr>ClusterStats.cluster_id = 0, size_stat = 1, avgRecency = Fin 100, avgFrequency = Fin 0,
        avgMonetary = Fin 0\<rparr>, empty_stats 1]"
  by (simp add: calculateClusterStatistics_def points_of_cluster_def upt_rec idle_customer_def
      empty_stats_def)

lemma ranked_idle:
  "rankClustersAndAssignLabels (calculateClusterStatistics [idle_customer] [0] 2)
   = [\<lparr>ClusterCenter.cluster_id = 1, recency_center = Fin 0, frequency_center = Fin 0,
        monetary_center = Fin 0, segment_label = ''VIP'', rank = 1,
        composite_score = Fin (3 / 10)\<rparr>,
      \<lparr>ClusterCenter.cluster_id = 0, recency_center = Fin 100, frequency_center = Fin 0,
        monetary_center = Fin 0, segment_label = ''Loyal'', rank = 2,
        composite_score = Fin (3 / 1000)\<rparr>]"
  unfolding stats_idle
  by (simp add: rankClustersAndAssignLabels_def score_cluster_def array_sort_def by_score_desc_def
      rank_cluster_def segmentLabels_def jgt_def Let_def recencyWeight_def frequencyWeight_def
      monetaryWeight_def ClusterStats.defs ScoredCluster.defs upt_rec empty_stats_def)

text \<open>
  C9. A cluster number \<open>i\<close> below \<open>k\<close> to which no record is assigned gets the
  statistics with size and averages 0. Its recency score is 1 and its composite score
  \<open>0.3\<close>. It still appears in the ranking, with a rank and a label, and it stands before
  every cluster whose composite score is below \<open>0.3\<close>.
\<close>

theorem empty_cluster_ranked:
  assumes "finite_metrics metrics" and "i < k" and "i \<notin> set clusters"
  shows "calculateClusterStatistics metrics clusters k ! i = empty_stats i
    \<and> recencyScore (score_cluster (empty_stats i)) = Fin 1
    \<and> ScoredCluster.composite_score (score_cluster (empty_stats i)) = Fin (3 / 10)
    \<and> (\<exists>j < k. let ranked = rankClustersAndAssignLabels (calculateClusterStatistics metrics clusters k)
          in ClusterCenter.cluster_id (ranked ! j) = i
           \<and> ClusterCenter.composite_score (ranked ! j) = Fin (3 / 10)
           \<and> rank (ranked ! j) = j + 1
           \<and> segment_label (ranked ! j) = [''VIP'', ''Loyal'', ''Potential'', ''Pay Attention''] ! min j 3
           \<and> (\<forall>j' < k. the_fin (ClusterCenter.composite_score (ranked ! j')) < 3 / 10 \<longrightarrow> j < j'))"
proof -
  let ?S = "calculateClusterStatistics metrics clusters k"
  let ?R = "rankClustersAndAssignLabels ?S"
  have fin: "list_all finite_stats ?S" by (rule finite_stats_calculate [OF assms(1)])
  have e: "?S ! i = empty_stats i"
    using assms(2,3) by (simp add: stats_nth points_of_cluster_empty empty_stats_def)
  have s1: "recencyScore (score_cluster (empty_stats i)) = Fin 1"
    by (simp add: score_cluster_def empty_stats_def jgt_def Let_def ClusterStats.defs ScoredCluster.defs)
  have fe: "finite_stats (empty_stats i)" by (simp add: finite_stats_def empty_stats_def)
  have s2: "ScoredCluster.composite_score (score_cluster (empty_stats i)) = Fin (3 / 10)"
    by (simp add: score_cluster_finite [OF fe] composite_of_empty)
  have mem: "empty_stats i \<in> set ?S" using e assms(2) by (metis length_stats nth_mem)
  have "(\<lambda>s. (ClusterStats.cluster_id s, avgRecency s, avgFrequency s, avgMonetary s,
                           Fin (composite_of s))) (empty_stats i) = (i, Fin 0, Fin 0, Fin 0, Fin (3 / 10))"
    by (simp add: empty_stats_def composite_of_def)
  then have "(i, Fin 0, Fin 0, Fin 0, Fin (3 / 10))
      \<in> set (map (\<lambda>s. (ClusterStats.cluster_id s, avgRecency s, avgFrequency s, avgMonetary s,
                           Fin (composite_of s))) ?S)"
    using mem unfolding set_map by (metis (no_types, lifting) image_eqI)
  then have "(i, Fin 0, Fin 0, Fin 0, Fin (3 / 10))
      \<in># mset (map (\<lambda>s. (ClusterStats.cluster_id s, avgRecency s, avgFrequency s, avgMonetary s,
                           Fin (composite_of s))) ?S)"
    by simp
  then have "(i, Fin 0, Fin 0, Fin 0, Fin (3 / 10))
      \<in> set (map (\<lambda>c. (ClusterCenter.cluster_id c, recency_center c, frequency_center c,
                          monetary_center c, ClusterCenter.composite_score c)) ?R)"
    unfolding ranked_clusters_mset [OF fin, symmetric] by simp
  then obtain d where d: "d \<in> set ?R" "ClusterCenter.cluster_id d = i"
      "ClusterCenter.composite_score d = Fin (3 / 10)"
    by auto
  then obtain j where j: "j < k" "?R ! j = d"
    by (auto simp: in_set_conv_nth length_ranked length_stats)
  have out: "j < j'" if "j' < k" "the_fin (ClusterCenter.composite_score (?R ! j')) < 3 / 10" for j'
  proof (rule ccontr)
    assume "\<not> j < j'"
    then have "j' \<le> j" by simp
    then have "the_fin (ClusterCenter.composite_score (?R ! j)) \<le> the_fin (ClusterCenter.composite_score (?R ! j'))"
      using ranked_descending [OF fin, of j' j] j(1) by (simp add: length_stats)
    with that(2) j(2) d(3) show False by simp
  qed
  have "rank (?R ! j) = j + 1"
    using j(1) by (simp add: ranked_nth length_stats rank_cluster_fields)
  moreover have "segment_label (?R ! j) = [''VIP'', ''Loyal'', ''Potential'', ''Pay Attention''] ! min j 3"
    using j(1) by (simp add: ranked_labels length_stats)
  ultimately have "\<exists>j < k. let ranked = ?R
          in ClusterCenter.cluster_id (ranked ! j) = i
           \<and> ClusterCenter.composite_score (ranked ! j) = Fin (3 / 10)
           \<and> rank (ranked ! j) = j + 1
           \<and> segment_label (ranked ! j) = [''VIP'', ''Loyal'', ''Potential'', ''Pay Attention''] ! min j 3
           \<and> (\<forall>j' < k. the_fin (ClusterCenter.composite_score (ranked ! j')) < 3 / 10 \<longrightarrow> j < j')"
    using j d out unfolding Let_def by blast
  with e s1 s2 show ?thesis by blast
qed

theorem empty_cluster_ranked_witness:
  "finite_metrics [idle_customer] \<and> (1::nat) < 2 \<and> 1 \<notin> set [0 :: nat]
   \<and> calculateClusterStatistics [idle_customer] [0] 2 ! 1 = empty_stats 1
   \<and> ScoredCluster.composite_score (score_cluster (empty_stats 1)) = Fin (3 / 10)
   \<and> map (\<lambda>c. (ClusterCenter.cluster_id c, rank c, segment_label c, ClusterCenter.composite_score c))
         (rankClustersAndAssignLabels (calculateClusterStatistics [idle_customer] [0] 2))
       = [(1, 1, ''VIP'', Fin (3 / 10)), (0, 2, ''Loyal'', Fin (3 / 1000))]"
proof -
  have h1: "finite_metrics [idle_customer]"
    by (simp add: idle_customer_def finite_metrics_def finite_metric_def)
  have h2: "(1::nat) < 2" by simp
  have h3: "1 \<notin> set [0 :: nat]" by simp
  show ?thesis
    using empty_cluster_ranked [OF h1 h2 h3] h1 by (simp add: ranked_idle)
qed


section \<open>Unfolding the loops\<close>

lemma kmeanspp_loop_done: "\<not> i < k \<Longrightarrow> kmeanspp_loop rng pos data k i centroids = (centroids, pos)"
  by (simp add: kmeanspp_loop.simps)

lemma kmeanspp_loop_step:
  "i < k \<Longrightarrow> kmeanspp_loop rng pos data k i centroids =
        (let distances =
               map (\<lambda>point.
                      let minDistance = math_min (map (\<lambda>centroid. euclideanDistance point centroid)
                                                    centroids)
                      in jmul minDistance minDistance) data;
             totalDistance = foldl (\<lambda>sum d. jadd sum d) (Fin 0) distances;
             (r, pos') = math_random rng pos;
             randomValue = jmul r totalDistance
         in case kmeanspp_pick (zip data distances) randomValue (Fin 0) of
              None \<Rightarrow> kmeanspp_loop rng pos' data k (Suc i) centroids
            | Some point \<Rightarrow> kmeanspp_loop rng pos' data k (Suc i) (centroids @ [point]))"
  by (subst kmeanspp_loop.simps) simp

lemma updateCentroids_loop_done:
  "\<not> i < k \<Longrightarrow> updateCentroids_loop rng pos data clusters k i = ([], pos)"
  by (simp add: updateCentroids_loop.simps)

lemma updateCentroids_loop_empty:
  "i < k \<Longrightarrow> points_of_cluster data clusters i = [] \<Longrightarrow>
     updateCentroids_loop rng pos data clusters k i =
       ([Fin (rng pos), Fin (rng (Suc pos)), Fin (rng (Suc (Suc pos)))]
          # fst (updateCentroids_loop rng (pos + 3) data clusters k (Suc i)),
        snd (updateCentroids_loop rng (pos + 3) data clusters k (Suc i)))"
  by (subst updateCentroids_loop.simps)
     (simp add: math_random_def split_beta Let_def eval_nat_numeral)

lemma updateCentroids_loop_mean:
  "i < k \<Longrightarrow> points_of_cluster data clusters i \<noteq> [] \<Longrightarrow>
     updateCentroids_loop rng pos data clusters k i =
       (map (\<lambda>dimIndex.
               jdiv (foldl (\<lambda>sum point. jadd sum (num_at point dimIndex)) (Fin 0)
                       (points_of_cluster data clusters i))
                    (Fin (real (length (points_of_cluster data clusters i)))))
          [0..<length (hd (points_of_cluster data clusters i))]
          # fst (updateCentroids_loop rng pos data clusters k (Suc i)),
        snd (updateCentroids_loop rng pos data clusters k (Suc i)))"
  by (subst updateCentroids_loop.simps) (simp add: split_beta Let_def)

lemma kmeans_while_stop:
  "kmeans_continue s = Inr False \<Longrightarrow> kmeans_while rng data k s = Inr s"
  by (subst kmeans_while.simps) simp

lemma kmeans_while_step:
  "kmeans_continue s = Inr True \<Longrightarrow>
     kmeans_while rng data k s = kmeans_while rng data k (kmeans_body rng data k s)"
  by (subst kmeans_while.simps) simp

lemma kmeans_while_error:
  "kmeans_continue s = Inl e \<Longrightarrow> kmeans_while rng data k s = Inl e"
  by (subst kmeans_while.simps) simp

section \<open>A run on two identical records\<close>

lemma euclideanDistance_origin: "euclideanDistance origin origin = Fin 0"
  by (simp add: euclideanDistance_def origin_def num_at_def upt_rec)

lemma normalizeData_twins: "normalizeData [twin, twin] = [origin, origin]"
  by (simp add: normalizeData_def twin_def origin_def normalize_rfm_def math_min_def math_max_def)

lemma init_twins:
  "initializeCentroidsKMeansPlusPlus zero_rng 0 [origin, origin] 2 = Inr ([origin, origin], 2)"
  by (simp add: initializeCentroidsKMeansPlusPlus_def math_random_def zero_rng_def elem_at_def
      kmeanspp_loop_step kmeanspp_loop_done euclideanDistance_origin math_min_def)

lemma assign_twins: "assignClusters [origin, origin] [origin, origin] = [0, 0]"
  by (simp add: assignClusters_def euclideanDistance_origin)

lemma update_twins:
  "updateCentroids zero_rng pos [origin, origin] [0, 0] 2 = ([origin, origin], pos + 3)"
proof -
  have p0: "points_of_cluster [origin, origin] [0, 0] 0 = [origin, origin]"
    and p1: "points_of_cluster [origin, origin] [0, 0] (Suc 0) = []"
    by (simp_all add: points_of_cluster_def)
  show ?thesis
    by (simp add: updateCentroids_def updateCentroids_loop_mean updateCentroids_loop_empty
        updateCentroids_loop_done p0 p1)
       (simp add: origin_def num_at_def upt_rec zero_rng_def)
qed

lemma converged_twins:
  "centroidsConverged [origin, origin] [origin, origin] convergenceThreshold = Inr True"
  by (simp add: centroidsConverged_def elem_at_def origin_def num_at_def convergenceThreshold_def)

lemma while_twins:
  "kmeans_while zero_rng [origin, origin] 2
     \<lparr>st_centroids = [origin, origin], st_previous = [], st_iterations = 0, st_pos = 2\<rparr>
   = Inr \<lparr>st_centroids = [origin, origin], st_previous = [origin, origin], st_iterations = 1,
          st_pos = 5\<rparr>"
proof -
  let ?s0 = "\<lparr>st_centroids = [origin, origin], st_previous = [], st_iterations = 0, st_pos = 2\<rparr>"
  let ?s1 = "\<lparr>st_centroids = [origin, origin], st_previous = [origin, origin], st_iterations = 1,
          st_pos = 5\<rparr>"
  have c0: "kmeans_continue ?s0 = Inr True"
    by (simp add: kmeans_continue_def centroidsConverged_def maxIterations_def)
  have b0: "kmeans_body zero_rng [origin, origin] 2 ?s0 = ?s1"
    by (simp add: kmeans_body_def assign_twins update_twins)
  have c1: "kmeans_continue ?s1 = Inr False"
    by (simp add: kmeans_continue_def converged_twins)
  show ?thesis
    unfolding kmeans_while_step [OF c0] b0 by (rule kmeans_while_stop [OF c1])
qed

lemma run_twins:
  "runKMeansAlgorithm zero_rng 0 [origin, origin] 2
   = Inr (\<lparr>run_centroids = [origin, origin], run_clusters = [0, 0], run_iterations = 1\<rparr>, 5)"
  by (simp add: runKMeansAlgorithm_def init_twins while_twins assign_twins)

lemma wcss_twins: "calculateWCSS [origin, origin] [origin, origin] [0, 0] = Inr (Fin 0)"
  by (simp add: calculateWCSS_def elem_at_def euclideanDistance_origin)

lemma silhouette_twins: "calculateSilhouetteScore [origin, origin] [0, 0] = NaN"
  by (simp add: calculateSilhouetteScore_def silhouette_point_def silhouette_a_def silhouette_b_def
      elem_at_def upt_rec set_array_def math_min_def euclideanDistance_origin)

text \<open>
  The pipeline reaches a \<open>NaN\<close> score as well: on two identical records and \<open>k = 2\<close>
  both points end in one cluster, \<open>b\<close> is \<open>Infinity\<close> and the quotient is
  \<open>Infinity / Infinity\<close>.
\<close>

lemma performKMeansClustering_twins_nan:
  "\<exists>result pos. performKMeansClustering zero_rng 0 [twin, twin] (Some 2) None = Inr (result, pos)
     \<and> silhouetteScore (evaluationMetrics result) = NaN"
  by (simp add: performKMeansClustering_def normalizeData_twins run_twins wcss_twins
      silhouette_twins Let_def)

section \<open>A run on two distinct records\<close>

lemma normalizeData_pair: "normalizeData [recent_customer, lapsed_customer] = [origin, unit_x]"
  by (simp add: normalizeData_def recent_customer_def lapsed_customer_def origin_def unit_x_def
      normalize_rfm_def math_min_def math_max_def)

lemma distances_pair:
  "euclideanDistance origin unit_x = Fin 1" "euclideanDistance unit_x origin = Fin 1"
  "euclideanDistance unit_x unit_x = Fin 0"
  "euclideanDistance origin half_x = Fin (1 / 2)" "euclideanDistance unit_x half_x = Fin (1 / 2)"
  by (simp_all add: euclideanDistance_def origin_def unit_x_def half_x_def num_at_def upt_rec
      real_sqrt_divide)

lemma init_pair:
  "initializeCentroidsKMeansPlusPlus zero_rng 0 [origin, unit_x] 2 = Inr ([origin, origin], 2)"
  by (simp add: initializeCentroidsKMeansPlusPlus_def math_random_def zero_rng_def elem_at_def
      kmeanspp_loop_step kmeanspp_loop_done euclideanDistance_origin distances_pair math_min_def)

lemma assign_pair:
  "assignClusters [origin, unit_x] [origin, origin] = [0, 0]"
  "assignClusters [origin, unit_x] [half_x, origin] = [1, 0]"
  "assignClusters [origin, unit_x] [unit_x, origin] = [1, 0]"
  by (simp_all add: assignClusters_def euclideanDistance_origin distances_pair)

lemma update_pair_first:
  "updateCentroids zero_rng pos [origin, unit_x] [0, 0] 2 = ([half_x, origin], pos + 3)"
proof -
  have p0: "points_of_cluster [origin, unit_x] [0, 0] 0 = [origin, unit_x]"
    and p1: "points_of_cluster [origin, unit_x] [0, 0] (Suc 0) = []"
    by (simp_all add: points_of_cluster_def)
  show ?thesis
    by (simp add: updateCentroids_def updateCentroids_loop_mean updateCentroids_loop_empty
        updateCentroids_loop_done p0 p1)
       (simp add: origin_def unit_x_def half_x_def num_at_def upt_rec zero_rng_def)
qed

lemma update_pair_next:
  "updateCentroids zero_rng pos [origin, unit_x] [1, 0] 2 = ([unit_x, origin], pos)"
proof -
  have p0: "points_of_cluster [origin, unit_x] [Suc 0, 0] 0 = [unit_x]"
    and p1: "points_of_cluster [origin, unit_x] [Suc 0, 0] (Suc 0) = [origin]"
    by (simp_all add: points_of_cluster_def)
  show ?thesis
    by (simp add: updateCentroids_def updateCentroids_loop_mean updateCentroids_loop_empty
        updateCentroids_loop_done p0 p1)
       (simp add: origin_def unit_x_def num_at_def upt_rec)
qed

lemma converged_pair:
  "centroidsConverged [half_x, origin] [origin, origin] convergenceThreshold = Inr False"
  "centroidsConverged [unit_x, origin] [half_x, origin] convergenceThreshold = Inr False"
  "centroidsConverged [unit_x, origin] [unit_x, origin] convergenceThreshold = Inr True"
  by (simp_all add: centroidsConverged_def elem_at_def origin_def unit_x_def half_x_def num_at_def
      convergenceThreshold_def)

lemma while_pair:
  "kmeans_while zero_rng [origin, unit_x] 2 (initial_state [origin, origin] 2)
   = Inr \<lparr>st_centroids = [unit_x, origin], st_previous = [unit_x, origin], st_iterations = 3,
          st_pos = 5\<rparr>"
proof -
  let ?s0 = "initial_state [origin, origin] 2"
  let ?s1 = "\<lparr>st_centroids = [half_x, origin], st_previous = [origin, origin], st_iterations = 1,
        st_pos = 5\<rparr>"
  let ?s2 = "\<lparr>st_centroids = [unit_x, origin], st_previous = [half_x, origin], st_iterations = 2,
        st_pos = 5\<rparr>"
  let ?s3 = "\<lparr>st_centroids = [unit_x, origin], st_previous = [unit_x, origin], st_iterations = 3,
        st_pos = 5\<rparr>"
  have c0: "kmeans_continue ?s0 = Inr True"
    by (simp add: kmeans_continue_def initial_state_def centroidsConverged_def maxIterations_def)
  have c1: "kmeans_continue ?s1 = Inr True"
    by (simp add: kmeans_continue_def converged_pair maxIterations_def)
  have c2: "kmeans_continue ?s2 = Inr True"
    by (simp add: kmeans_continue_def converged_pair maxIterations_def)
  have c3: "kmeans_continue ?s3 = Inr False"
    by (simp add: kmeans_continue_def converged_pair)
  have b0: "kmeans_body zero_rng [origin, unit_x] 2 ?s0 = ?s1"
    using assign_pair update_pair_first [of 2]
    by (simp add: kmeans_body_def initial_state_def)
  have b1: "kmeans_body zero_rng [origin, unit_x] 2 ?s1 = ?s2"
    using assign_pair update_pair_next [of 5] by (simp add: kmeans_body_def)
  have b2: "kmeans_body zero_rng [origin, unit_x] 2 ?s2 = ?s3"
    using assign_pair update_pair_next [of 5] by (simp add: kmeans_body_def)
  show ?thesis
    unfolding kmeans_while_step [OF c0] b0 kmeans_while_step [OF c1] b1
      kmeans_while_step [OF c2] b2
    by (rule kmeans_while_stop [OF c3])
qed

lemma run_pair:
  "runKMeansAlgorithm zero_rng 0 [origin, unit_x] 2
   = Inr (\<lparr>run_centroids = [unit_x, origin], run_clusters = [1, 0], run_iterations = 3\<rparr>, 5)"
  using while_pair assign_pair
  by (simp add: runKMeansAlgorithm_def init_pair initial_state_def)

lemma wcss_pair: "calculateWCSS [origin, unit_x] [unit_x, origin] [1, 0] = Inr (Fin 0)"
  by (simp add: calculateWCSS_def elem_at_def euclideanDistance_origin distances_pair)

lemma silhouette_pair: "calculateSilhouetteScore [origin, unit_x] [1, 0] = Fin 1"
  by (simp add: calculateSilhouetteScore_def silhouette_point_def silhouette_a_def silhouette_b_def
      elem_at_def upt_rec set_array_def math_min_def euclideanDistance_origin distances_pair)

lemma stats_pair:
  "calculateClusterStatistics [recent_customer, lapsed_customer] [1, 0] 2
   = [\<lparr>ClusterStats.cluster_id = 0, size_stat = 1, avgRecency = Fin 40, avgFrequency = Fin 2,
        avgMonetary = Fin 100\<rparr>,
      \<lparr>ClusterStats.cluster_id = 1, size_stat = 1, avgRecency = Fin 10, avgFrequency = Fin 2,
        avgMonetary = Fin 100\<rparr>]"
  by (simp add: calculateClusterStatistics_def points_of_cluster_def upt_rec
      recent_customer_def lapsed_customer_def)

lemma ranked_pair:
  "rankClustersAndAssignLabels
     [\<lparr>ClusterStats.cluster_id = 0, size_stat = 1, avgRecency = Fin 40, avgFrequency = Fin 2,
        avgMonetary = Fin 100\<rparr>,
      \<lparr>ClusterStats.cluster_id = 1, size_stat = 1, avgRecency = Fin 10, avgFrequency = Fin 2,
        avgMonetary = Fin 100\<rparr>]
   = [\<lparr>ClusterCenter.cluster_id = 1, recency_center = Fin 10, frequency_center = Fin 2,
        monetary_center = Fin 100, segment_label = ''VIP'', rank = 1,
        composite_score = Fin (4063 / 100)\<rparr>,
      \<lparr>ClusterCenter.cluster_id = 0, recency_center = Fin 40, frequency_center = Fin 2,
        monetary_center = Fin 100, segment_label = ''Loyal'', rank = 2,
        composite_score = Fin (16243 / 400)\<rparr>]"
  by (simp add: rankClustersAndAssignLabels_def score_cluster_def array_sort_def by_score_desc_def
      rank_cluster_def segmentLabels_def jgt_def Let_def recencyWeight_def frequencyWeight_def
      monetaryWeight_def ClusterStats.defs ScoredCluster.defs upt_rec)

lemma labelled_pair:
  "createClusteredMetrics [recent_customer, lapsed_customer] [1, 0]
     [\<lparr>ClusterCenter.cluster_id = 1, recency_center = Fin 10, frequency_center = Fin 2,
        monetary_center = Fin 100, segment_label = ''VIP'', rank = 1,
        composite_score = Fin (4063 / 100)\<rparr>,
      \<lparr>ClusterCenter.cluster_id = 0, recency_center = Fin 40, frequency_center = Fin 2,
        monetary_center = Fin 100, segment_label = ''Loyal'', rank = 2,
        composite_score = Fin (16243 / 400)\<rparr>]
   = [RFMMetrics.extend recent_customer (ClusteredRFMMetrics.fields 1 ''VIP''),
      RFMMetrics.extend lapsed_customer (ClusteredRFMMetrics.fields 0 ''Loyal'')]"
  by (simp add: createClusteredMetrics_def labelMap_of_def upt_rec)

lemma perform_pair:
  "performKMeansClustering zero_rng 0 [recent_customer, lapsed_customer] (Some 2) dataStats_arg
   = Inr (\<lparr>clusteredMetrics =
             [RFMMetrics.extend recent_customer (ClusteredRFMMetrics.fields 1 ''VIP''),
              RFMMetrics.extend lapsed_customer (ClusteredRFMMetrics.fields 0 ''Loyal'')],
           centers =
             [\<lparr>ClusterCenter.cluster_id = 1, recency_center = Fin 10, frequency_center = Fin 2,
                monetary_center = Fin 100, segment_label = ''VIP'', rank = 1,
                composite_score = Fin (4063 / 100)\<rparr>,
              \<lparr>ClusterCenter.cluster_id = 0, recency_center = Fin 40, frequency_center = Fin 2,
                monetary_center = Fin 100, segment_label = ''Loyal'', rank = 2,
                composite_score = Fin (16243 / 400)\<rparr>],
           evaluationMetrics = \<lparr>silhouetteScore = Fin 1, wcss = Fin 0, iterations = 3\<rparr>,
           optimalK = 2,
           dataStats = (case dataStats_arg of
                          None \<Rightarrow> calculateDataStats [recent_customer, lapsed_customer]
                        | Some d \<Rightarrow> d)\<rparr>, 5)"
  using stats_pair ranked_pair labelled_pair wcss_pair silhouette_pair
  by (simp add: performKMeansClustering_def normalizeData_pair run_pair denormalizeCenters_def
      Let_def)

lemma dataStats_pair:
  "calculateDataStats [recent_customer, lapsed_customer]
   = \<lparr>recencyPercentiles = \<lparr>p25 = Fin (35 / 2), p50 = Fin 25, p75 = Fin (65 / 2)\<rparr>,
      frequencyPercentiles = \<lparr>p25 = Fin 2, p50 = Fin 2, p75 = Fin 2\<rparr>,
      monetaryPercentiles = \<lparr>p25 = Fin 100, p50 = Fin 100, p75 = Fin 100\<rparr>\<rparr>"
  by (simp add: calculateDataStats_def percentile_def array_sort_def jgt_def num_at_num_def
      elem_at_def trunc_real_def recent_customer_def lapsed_customer_def Let_def ceiling_def)

section \<open>The silhouette score\<close>

lemma silhouette_a_origin: "silhouette_a [origin, origin] [0, 1] origin 0 = Fin 0"
  by (simp add: silhouette_a_def elem_at_def upt_rec)

lemma silhouette_b_origin: "silhouette_b [origin, origin] [0, 1] origin 0 = Fin 0"
  by (simp add: silhouette_b_def elem_at_def upt_rec set_array_def math_min_def euclideanDistance_origin)

lemma foldl_jadd_NaN: "foldl (\<lambda>sum score. jadd sum score) NaN xs = NaN"
  by (induction xs) simp_all

lemma jadd_NaN_right: "jadd x NaN = NaN"
  by (cases x) simp_all

lemma foldl_jadd_has_NaN: "NaN \<in> set xs \<Longrightarrow> foldl (\<lambda>sum score. jadd sum score) x xs = NaN"
proof (induction xs arbitrary: x)
  case Nil
  then show ?case by simp
next
  case (Cons y ys)
  then show ?case by (cases "y = NaN") (auto simp: jadd_NaN_right foldl_jadd_NaN)
qed

text \<open>
  C1. The claim is that a point whose \<open>a\<close> and \<open>b\<close> are both 0 contributes 0 and that
  the score is never \<open>NaN\<close>. The code divides \<open>b - a\<close> by \<open>Math.max(a, b)\<close> without a
  guard: in a population of more than one point, a point whose \<open>a\<close> and \<open>b\<close> are both 0
  gets the silhouette \<open>NaN\<close>, and the score, a mean over all points, is \<open>NaN\<close> too.
\<close>

theorem silhouette_undefined:
  assumes "1 < length data" and "i < length data"
    and "silhouette_a data clusters (data ! i) i = Fin 0"
    and "silhouette_b data clusters (data ! i) i = Fin 0"
  shows "silhouette_point data clusters (data ! i) i = NaN
       \<and> calculateSilhouetteScore data clusters = NaN"
proof -
  have p: "silhouette_point data clusters (data ! i) i = NaN"
    by (simp add: silhouette_point_def assms(3,4))
  have "(data ! i, i) \<in> set (zip data [0..<length data])"
    using assms(2) by (auto simp: set_zip)
  then have "silhouette_point data clusters (data ! i) i
      \<in> set (map (\<lambda>(point, i). silhouette_point data clusters point i) (zip data [0..<length data]))"
    by force
  then have "NaN \<in> set (map (\<lambda>(point, i). silhouette_point data clusters point i)
       (zip data [0..<length data]))"
    by (simp only: p)
  then show ?thesis
    using assms(1) p by (simp add: calculateSilhouetteScore_def Let_def foldl_jadd_has_NaN)
qed

theorem silhouette_undefined_witness:
  "1 < length [origin, origin] \<and> 0 < length [origin, origin]
   \<and> silhouette_a [origin, origin] [0, 1] ([origin, origin] ! 0) 0 = Fin 0
   \<and> silhouette_b [origin, origin] [0, 1] ([origin, origin] ! 0) 0 = Fin 0
   \<and> calculateSilhouetteScore [origin, origin] [0, 1] = NaN"
proof -
  have h1: "1 < length [origin, origin]" and h2: "0 < length [origin, origin]" by simp_all
  have h3: "silhouette_a [origin, origin] [0, 1] ([origin, origin] ! 0) 0 = Fin 0"
    using silhouette_a_origin by simp
  have h4: "silhouette_b [origin, origin] [0, 1] ([origin, origin] ! 0) 0 = Fin 0"
    using silhouette_b_origin by simp
  show ?thesis
    using silhouette_undefined [OF h1 h2 h3 h4] h3 h4 by simp
qed


section \<open>The empty population\<close>

text \<open>
  C6. On an empty record list \<open>performEnhancedClustering\<close> and
  \<open>performKMeansClustering\<close> return the empty result, without an exception and
  without a draw from the random source: no records and no centres, silhouette score,
  WCSS and iteration count 0, and all percentiles 0.
\<close>

theorem empty_population_result:
  "performEnhancedClustering rng pos [] = Inr (getEmptyResult None, pos)
   \<and> performKMeansClustering rng pos [] k_arg dataStats_arg
       = Inr (getEmptyResult (Some (case k_arg of None \<Rightarrow> 4 | Some k \<Rightarrow> k)), pos)
   \<and> clusteredMetrics (getEmptyResult k') = []
   \<and> centers (getEmptyResult k') = []
   \<and> evaluationMetrics (getEmptyResult k')
       = \<lparr>silhouetteScore = Fin 0, wcss = Fin 0, iterations = 0\<rparr>
   \<and> dataStats (getEmptyResult k')
       = \<lparr>recencyPercentiles = \<lparr>p25 = Fin 0, p50 = Fin 0, p75 = Fin 0\<rparr>,
          frequencyPercentiles = \<lparr>p25 = Fin 0, p50 = Fin 0, p75 = Fin 0\<rparr>,
          monetaryPercentiles = \<lparr>p25 = Fin 0, p50 = Fin 0, p75 = Fin 0\<rparr>\<rparr>"
  by (simp add: performEnhancedClustering_def performKMeansClustering_def getEmptyResult_def Let_def)

section \<open>The labelled records\<close>

lemma length_createClusteredMetrics:
  "length (createClusteredMetrics metrics clusters rankedClusters) = length metrics"
  by (simp add: createClusteredMetrics_def Let_def)

lemma truncate_createClusteredMetrics:
  "map RFMMetrics.truncate (createClusteredMetrics metrics clusters rankedClusters) = metrics"
  by (rule nth_equalityI)
     (simp_all add: createClusteredMetrics_def Let_def RFMMetrics.defs)

lemma performKMeansClustering_Inr:
  assumes "performKMeansClustering rng pos metrics k_arg dataStats_arg = Inr (result, pos')"
    and "metrics \<noteq> []"
  shows "\<exists>run wcss_value.
      runKMeansAlgorithm rng pos (normalizeData metrics) (case k_arg of None \<Rightarrow> 4 | Some k \<Rightarrow> k)
        = Inr (run, pos')
    \<and> calculateWCSS (normalizeData metrics) (run_centroids run) (run_clusters run) = Inr wcss_value
    \<and> clusteredMetrics result
        = createClusteredMetrics metrics (run_clusters run)
            (rankClustersAndAssignLabels
               (calculateClusterStatistics metrics (run_clusters run)
                  (case k_arg of None \<Rightarrow> 4 | Some k \<Rightarrow> k)))
    \<and> evaluationMetrics result
        = \<lparr>silhouetteScore = calculateSilhouetteScore (normalizeData metrics) (run_clusters run),
           wcss = wcss_value, iterations = run_iterations run\<rparr>"
proof -
  let ?k = "case k_arg of None \<Rightarrow> 4 | Some k \<Rightarrow> k"
  obtain run p where r: "runKMeansAlgorithm rng pos (normalizeData metrics) ?k = Inr (run, p)"
    using assms
    by (cases "runKMeansAlgorithm rng pos (normalizeData metrics) ?k")
       (auto simp: performKMeansClustering_def Let_def)
  obtain w where w: "calculateWCSS (normalizeData metrics) (run_centroids run) (run_clusters run) = Inr w"
    using assms r
    by (cases "calculateWCSS (normalizeData metrics) (run_centroids run) (run_clusters run)")
       (auto simp: performKMeansClustering_def Let_def)
  show ?thesis
    using assms r w by (auto simp: performKMeansClustering_def Let_def)
qed

lemma clusteredMetrics_of_result:
  assumes "performKMeansClustering rng pos metrics k_arg dataStats_arg = Inr (result, pos')"
  shows "clusteredMetrics result = [] \<and> metrics = []
       \<or> (\<exists>clusters rankedClusters.
            clusteredMetrics result = createClusteredMetrics metrics clusters rankedClusters)"
proof (cases "metrics = []")
  case True
  with assms show ?thesis
    by (auto simp: performKMeansClustering_def Let_def getEmptyResult_def)
next
  case False
  from performKMeansClustering_Inr [OF assms False] show ?thesis by blast
qed

text \<open>
  C10. When \<open>performKMeansClustering\<close> returns, \<open>clusteredMetrics\<close> has one entry per
  input record, in the order of the input, and each entry has the \<open>user_id\<close>,
  \<open>recency\<close>, \<open>frequency\<close>, \<open>monetary\<close> and \<open>rfm_score\<close> of its record: taking
  \<open>cluster_id\<close> and \<open>segment\<close> away gives the input back.
\<close>

theorem clusteredMetrics_frame:
  assumes "performKMeansClustering rng pos metrics k_arg dataStats_arg = Inr (result, pos')"
  shows "length (clusteredMetrics result) = length metrics
    \<and> map RFMMetrics.truncate (clusteredMetrics result) = metrics
    \<and> (\<forall>i < length metrics.
          RFMMetrics.user_id (clusteredMetrics result ! i) = RFMMetrics.user_id (metrics ! i)
        \<and> recency (clusteredMetrics result ! i) = recency (metrics ! i)
        \<and> frequency (clusteredMetrics result ! i) = frequency (metrics ! i)
        \<and> monetary (clusteredMetrics result ! i) = monetary (metrics ! i)
        \<and> rfm_score (clusteredMetrics result ! i) = rfm_score (metrics ! i))"
proof -
  have t: "map RFMMetrics.truncate (clusteredMetrics result) = metrics"
    using clusteredMetrics_of_result [OF assms] by (auto simp: truncate_createClusteredMetrics)
  then have len: "length (clusteredMetrics result) = length metrics"
    by (metis length_map)
  have "RFMMetrics.truncate (clusteredMetrics result ! i) = metrics ! i" if "i < length metrics" for i
    using t that len by (metis nth_map)
  then have "\<forall>i < length metrics.
          RFMMetrics.user_id (clusteredMetrics result ! i) = RFMMetrics.user_id (metrics ! i)
        \<and> recency (clusteredMetrics result ! i) = recency (metrics ! i)
        \<and> frequency (clusteredMetrics result ! i) = frequency (metrics ! i)
        \<and> monetary (clusteredMetrics result ! i) = monetary (metrics ! i)
        \<and> rfm_score (clusteredMetrics result ! i) = rfm_score (metrics ! i)"
    by (metis RFMMetrics.select_convs RFMMetrics.truncate_def)
  with t len show ?thesis by blast
qed

theorem clusteredMetrics_frame_witness:
  "\<exists>result. performKMeansClustering zero_rng 0 [recent_customer, lapsed_customer] (Some 2) None
       = Inr (result, 5)
     \<and> length (clusteredMetrics result) = 2
     \<and> map RFMMetrics.truncate (clusteredMetrics result) = [recent_customer, lapsed_customer]
     \<and> map ClusteredRFMMetrics.cluster_id (clusteredMetrics result) = [1, 0]
     \<and> map segment (clusteredMetrics result) = [''VIP'', ''Loyal'']"
proof -
  note h = perform_pair [of None]
  note t = clusteredMetrics_frame [OF h]
  have "length [recent_customer, lapsed_customer] = 2" by simp
  with t h show ?thesis
    by (simp add: RFMMetrics.defs ClusteredRFMMetrics.defs)
qed


section \<open>Properties of the metric aggregation\<close>

lemma inherited_name_map_of: "inherited_name key \<longleftrightarrow> map_of object_prototype key \<noteq> None"
  by (simp add: inherited_name_def map_of_eq_None_iff)

lemma inherited_name_nonempty: "\<not> inherited_name []"
  by (simp add: inherited_name_def object_prototype_def)

lemma inherited_orders_name: "inherited_orders key \<Longrightarrow> inherited_name key"
  by (auto simp: inherited_orders_def inherited_name_map_of split: option.splits)

lemma grouped_step:
  assumes "Order.user_id order \<noteq> []"
  shows "(\<lambda>uid. if uid = [] \<or> orders_of orders uid = []
                then (grouped(Order.user_id order \<mapsto>
                        (case grouped (Order.user_id order) of None \<Rightarrow> [] | Some list \<Rightarrow> list)
                          @ [order])) uid
                else Some ((case (grouped(Order.user_id order \<mapsto>
                        (case grouped (Order.user_id order) of None \<Rightarrow> [] | Some list \<Rightarrow> list)
                          @ [order])) uid of None \<Rightarrow> [] | Some list \<Rightarrow> list)
                             @ orders_of orders uid))
       = (\<lambda>uid. if uid = [] \<or> orders_of (order # orders) uid = [] then grouped uid
                 else Some ((case grouped uid of None \<Rightarrow> [] | Some list \<Rightarrow> list)
                              @ orders_of (order # orders) uid))"
proof (rule ext)
  fix uid
  show "(if uid = [] \<or> orders_of orders uid = []
                then (grouped(Order.user_id order \<mapsto>
                        (case grouped (Order.user_id order) of None \<Rightarrow> [] | Some list \<Rightarrow> list)
                          @ [order])) uid
                else Some ((case (grouped(Order.user_id order \<mapsto>
                        (case grouped (Order.user_id order) of None \<Rightarrow> [] | Some list \<Rightarrow> list)
                          @ [order])) uid of None \<Rightarrow> [] | Some list \<Rightarrow> list)
                             @ orders_of orders uid))
       = (if uid = [] \<or> orders_of (order # orders) uid = [] then grouped uid
                 else Some ((case grouped uid of None \<Rightarrow> [] | Some list \<Rightarrow> list)
                              @ orders_of (order # orders) uid))"
    using assms by (cases "uid = Order.user_id order") (simp_all add: orders_of_def)
qed

text \<open>The object built by the grouping loop from \<open>grouped\<close> and \<open>orders\<close>.\<close>

lemma groupOrdersByCustomer_for_eq:
  assumes "\<forall>key \<in> dom grouped. \<not> inherited_name key"
  shows "groupOrdersByCustomer_for grouped orders
     = (if \<exists>order \<in> set orders. inherited_name (Order.user_id order) then Inl TypeError
        else Inr (\<lambda>uid. if uid = [] \<or> orders_of orders uid = [] then grouped uid
                        else Some ((case grouped uid of None \<Rightarrow> [] | Some list \<Rightarrow> list)
                                     @ orders_of orders uid)))"
  using assms
proof (induction orders arbitrary: grouped)
  case Nil
  then show ?case by (simp add: orders_of_def)
next
  case (Cons order orders)
  show ?case
  proof (cases "Order.user_id order = []")
    case True
    have "orders_of (order # orders) uid = orders_of orders uid" if "uid \<noteq> []" for uid
      using True that by (auto simp: orders_of_def)
    then have "(\<lambda>uid. if uid = [] \<or> orders_of (order # orders) uid = [] then grouped uid
                 else Some ((case grouped uid of None \<Rightarrow> [] | Some list \<Rightarrow> list)
                              @ orders_of (order # orders) uid))
        = (\<lambda>uid. if uid = [] \<or> orders_of orders uid = [] then grouped uid
                 else Some ((case grouped uid of None \<Rightarrow> [] | Some list \<Rightarrow> list)
                              @ orders_of orders uid))"
      by (intro ext) auto
    then show ?thesis
      using Cons.IH [OF Cons.prems] True by (simp add: inherited_name_nonempty)
  next
    case ne: False
    show ?thesis
    proof (cases "inherited_name (Order.user_id order)")
      case True
      then have "grouped (Order.user_id order) = None"
        using Cons.prems by (auto simp: dom_def)
      moreover obtain len where "map_of object_prototype (Order.user_id order) = Some len"
        using True by (auto simp: inherited_name_map_of)
      ultimately show ?thesis
        using True ne by (simp add: get_property_def Let_def)
    next
      case False
      then have none: "map_of object_prototype (Order.user_id order) = None"
        by (simp add: inherited_name_map_of)
      let ?g = "grouped(Order.user_id order \<mapsto>
                  (case grouped (Order.user_id order) of None \<Rightarrow> [] | Some list \<Rightarrow> list) @ [order])"
      have inv: "\<forall>key \<in> dom ?g. \<not> inherited_name key"
        using Cons.prems False by auto
      have step: "groupOrdersByCustomer_for grouped (order # orders)
          = groupOrdersByCustomer_for ?g orders"
        using ne none by (cases "grouped (Order.user_id order)") (simp_all add: get_property_def Let_def)
      show ?thesis
        unfolding step Cons.IH [OF inv] grouped_step [OF ne] using False by simp
    qed
  qed
qed

lemma groupOrdersByCustomer_eq:
  "groupOrdersByCustomer orders
     = (if \<exists>order \<in> set orders. inherited_name (Order.user_id order) then Inl TypeError
        else Inr (\<lambda>uid. if uid = [] \<or> orders_of orders uid = [] then None
                        else Some (orders_of orders uid)))"
proof -
  have "\<forall>key \<in> dom (Map.empty :: string \<rightharpoonup> Order list). \<not> inherited_name key" by simp
  from groupOrdersByCustomer_for_eq [OF this, of orders] show ?thesis
    by (simp add: groupOrdersByCustomer_def cong: if_cong)
qed


lemma get_property_grouped:
  assumes "key \<noteq> []"
  shows "get_property (\<lambda>uid. if uid = [] \<or> orders_of orders uid = [] then None
                             else Some (orders_of orders uid)) key
     = (if orders_of orders key \<noteq> [] then Orders (orders_of orders key)
        else case map_of object_prototype key of Some len \<Rightarrow> Inherited len | None \<Rightarrow> Undefined)"
  using assms by (simp add: get_property_def)

lemma calculateMetricsForCustomers_for_eq:
  "calculateMetricsForCustomers_for parse (Fin (of_int now))
       (\<lambda>uid. if uid = [] \<or> orders_of orders uid = [] then None else Some (orders_of orders uid))
       rfmMetrics customers
     = (if \<exists>customer \<in> set customers.
              orders_of orders (id customer) = [] \<and> inherited_orders (id customer)
        then Inl TypeError
        else Inr (rfmMetrics @ map (rfm_record parse now orders)
                    (filter (\<lambda>customer. id customer \<noteq> [] \<and> orders_of orders (id customer) \<noteq> [])
                       customers)))"
proof (induction customers arbitrary: rfmMetrics)
  case Nil
  show ?case by simp
next
  case (Cons customer customers)
  have empty: "\<not> inherited_orders []"
    using inherited_orders_name inherited_name_nonempty by blast
  show ?case
  proof (cases "id customer = []")
    case True
    then show ?thesis by (simp add: Cons.IH empty)
  next
    case ne: False
    show ?thesis
    proof (cases "orders_of orders (id customer) = []")
      case False
      then show ?thesis
        using ne by (simp add: get_property_grouped Cons.IH rfm_record_def Let_def)
    next
      case True
      show ?thesis
      proof (cases "map_of object_prototype (id customer)")
        case None
        then show ?thesis
          using ne True by (simp add: get_property_grouped Cons.IH inherited_orders_def)
      next
        case (Some len)
        then show ?thesis
          using ne True by (simp add: get_property_grouped Cons.IH inherited_orders_def)
      qed
    qed
  qed
qed

text \<open>
  The aggregation as a whole: it throws when an order has the name of an inherited
  property as \<open>user_id\<close>, or a customer has the name of one with a \<open>length\<close> other than 0
  as \<open>id\<close>; otherwise it returns one record per customer with orders.
\<close>

lemma calculateMetricsForCustomers_eq:
  "calculateMetricsForCustomers parse now customers orders
     = (if (\<exists>order \<in> set orders. inherited_name (Order.user_id order))
           \<or> (\<exists>customer \<in> set customers. inherited_orders (id customer))
        then Inl TypeError
        else Inr (map (rfm_record parse now orders)
                    (filter (\<lambda>customer. id customer \<noteq> [] \<and> orders_of orders (id customer) \<noteq> [])
                       customers)))"
proof (cases "\<exists>order \<in> set orders. inherited_name (Order.user_id order)")
  case True
  then show ?thesis
    by (simp add: calculateMetricsForCustomers_def groupOrdersByCustomer_eq)
next
  case False
  have "orders_of orders key = []" if "inherited_orders key" for key
  proof (rule ccontr)
    assume "orders_of orders key \<noteq> []"
    then obtain order where "order \<in> set orders" "Order.user_id order = key"
      by (auto simp: orders_of_def filter_empty_conv)
    with False inherited_orders_name [OF that] show False by auto
  qed
  then have "(\<exists>customer \<in> set customers.
                 orders_of orders (id customer) = [] \<and> inherited_orders (id customer))
      \<longleftrightarrow> (\<exists>customer \<in> set customers. inherited_orders (id customer))"
    by auto
  then show ?thesis
    using False
    by (simp add: calculateMetricsForCustomers_def groupOrdersByCustomer_eq
        calculateMetricsForCustomers_for_eq)
qed

section \<open>Properties of the metrics of one customer\<close>

lemma time_clip_cases: "time_clip t = NaN \<or> is_fin (time_clip t)"
  by (cases t) simp_all

lemma time_clip_idem: "time_clip (time_clip t) = time_clip t"
proof (cases t)
  case (Fin r)
  show ?thesis
  proof (cases "8640000000000000 < \<bar>r\<bar>")
    case True
    then show ?thesis by (simp add: Fin)
  next
    case False
    have a: "\<bar>real_of_int (trunc_real r)\<bar> \<le> \<bar>r\<bar>"
    proof (cases "0 \<le> r")
      case True
      then have "0 \<le> \<lfloor>r\<rfloor>" by simp
      moreover have "real_of_int \<lfloor>r\<rfloor> \<le> r" by simp
      ultimately show ?thesis using True by (simp add: trunc_real_def)
    next
      case False
      then have "\<lceil>r\<rceil> \<le> 0" by (simp add: ceiling_le_iff)
      moreover have "r \<le> real_of_int \<lceil>r\<rceil>" by simp
      ultimately show ?thesis using False by (simp add: trunc_real_def)
    qed
    have b: "trunc_real (real_of_int (trunc_real r)) = trunc_real r"
      by (simp add: trunc_real_def)
    from False a have "\<not> 8640000000000000 < \<bar>real_of_int (trunc_real r)\<bar>" by linarith
    then show ?thesis using False by (simp add: Fin b)
  qed
qed simp_all

lemma math_max2_NaN_right: "math_max2 a NaN = NaN"
  by (cases a) simp_all

lemma foldl_math_max2_NaN: "foldl math_max2 NaN xs = NaN"
  by (induction xs) simp_all

lemma math_max_NaN: "NaN \<in> set xs \<Longrightarrow> math_max xs = NaN"
proof -
  have "NaN \<in> set xs \<Longrightarrow> foldl math_max2 a xs = NaN" for a
    by (induction xs arbitrary: a) (auto simp: math_max2_NaN_right foldl_math_max2_NaN)
  then show "NaN \<in> set xs \<Longrightarrow> math_max xs = NaN" by (simp add: math_max_def)
qed

lemma invalid_date_NaN: "\<not> valid_date parse order \<Longrightarrow> new_Date_string parse (created_at order) = NaN"
  using time_clip_cases [of "parse (created_at order)"]
  by (auto simp: valid_date_def new_Date_string_def)

lemma valid_date_Fin:
  "valid_date parse order \<Longrightarrow> new_Date_string parse (created_at order) = Fin (time_of parse order)"
  by (simp add: valid_date_def time_of_def Fin_the_fin)

text \<open>The frequency is the number of orders.\<close>

lemma frequency_of_orders:
  assumes "os \<noteq> []"
  shows "cm_frequency (calculateCustomerMetrics parse os currentDate) = Fin (real (length os))"
proof -
  have "1 \<le> length os" using assms by (cases os) simp_all
  then show ?thesis by (simp add: calculateCustomerMetrics_def Let_def)
qed

text \<open>The recency when every creation date is valid.\<close>

lemma recency_valid:
  assumes "os \<noteq> []" and "\<forall>order \<in> set os. valid_date parse order"
  shows "cm_recency (calculateCustomerMetrics parse os (Fin (of_int now)))
           = Fin (max 0 (days_since now (Max (time_of parse ` set os))))"
proof -
  let ?last = "Max (time_of parse ` set os)"
  have eq: "map (\<lambda>date. getTime date) (map (\<lambda>order. new_Date_string parse (created_at order)) os)
      = map Fin (map (time_of parse) os)"
    using assms(2) by (simp add: getTime_def valid_date_Fin)
  have mx: "math_max (map (\<lambda>date. getTime date)
                    (map (\<lambda>order. new_Date_string parse (created_at order)) os)) = Fin ?last"
    unfolding eq using math_max_Fin [of "map (time_of parse) os"] assms(1) by simp
  have "?last \<in> time_of parse ` set os"
    using assms(1) by (intro Max_in) simp_all
  then obtain order where o: "order \<in> set os" "time_of parse order = ?last" by auto
  have v: "time_clip (parse (created_at order)) = Fin ?last"
    using valid_date_Fin [of parse order] o assms(2) by (simp add: new_Date_string_def)
  have "time_clip (Fin ?last) = time_clip (time_clip (parse (created_at order)))"
    by (simp only: v)
  also have "\<dots> = Fin ?last"
    by (metis time_clip_idem v)
  finally have clip: "new_Date_number (Fin ?last) = Fin ?last"
    by (simp add: new_Date_number_def)
  show ?thesis
    unfolding calculateCustomerMetrics_def Let_def mx clip
    by (simp add: getTime_def msPerDay_def days_since_def)
qed

text \<open>An order after the current date clamps the recency to 0.\<close>

lemma recency_future:
  assumes "\<forall>order \<in> set os. valid_date parse order"
    and "order \<in> set os" and "real_of_int now < time_of parse order"
  shows "cm_recency (calculateCustomerMetrics parse os (Fin (of_int now))) = Fin 0"
proof -
  have ne: "os \<noteq> []" using assms(2) by auto
  let ?last = "Max (time_of parse ` set os)"
  have "time_of parse order \<le> ?last"
    using assms(2) by (intro Max_ge) auto
  then have "real_of_int now - ?last < 0" using assms(3) by linarith
  then have "(real_of_int now - ?last) / 86400000 < 0"
    by (simp add: divide_neg_pos)
  then have "\<lfloor>(real_of_int now - ?last) / 86400000\<rfloor> < 0"
    by (simp add: floor_less_zero)
  then show ?thesis
    by (simp add: recency_valid [OF ne assms(1)] days_since_def)
qed

text \<open>One invalid creation date makes the recency \<open>NaN\<close>.\<close>

lemma recency_invalid:
  assumes "order \<in> set os" and "\<not> valid_date parse order"
  shows "cm_recency (calculateCustomerMetrics parse os currentDate) = NaN"
proof -
  have "NaN \<in> set (map (\<lambda>date. getTime date)
                     (map (\<lambda>order. new_Date_string parse (created_at order)) os))"
    using assms invalid_date_NaN [OF assms(2)] by (force simp: getTime_def)
  then have mx: "math_max (map (\<lambda>date. getTime date)
                    (map (\<lambda>order. new_Date_string parse (created_at order)) os)) = NaN"
    by (rule math_max_NaN)
  have sub: "jsub a NaN = NaN" for a by (cases a) simp_all
  show ?thesis
    unfolding calculateCustomerMetrics_def Let_def mx
    by (simp add: getTime_def new_Date_number_def sub)
qed

text \<open>The monetary value when no total is an infinity.\<close>

lemma total_or_0_amount: "finite_total order \<Longrightarrow> total_or_0 (total order) = Fin (amount order)"
  by (cases "total order") (simp_all add: finite_total_def total_or_0_def amount_def)

lemma foldl_totals:
  "\<forall>order \<in> set os. finite_total order \<Longrightarrow>
   foldl (\<lambda>sum order. jadd sum (total_or_0 (total order))) (Fin a) os
     = Fin (a + sum_list (map amount os))"
  by (induction os arbitrary: a) (simp_all add: total_or_0_amount add.assoc)

lemma monetary_finite:
  assumes "\<forall>order \<in> set os. finite_total order"
  shows "cm_monetary (calculateCustomerMetrics parse os currentDate)
           = Fin (max 0 (sum_list (map amount os)))"
  by (simp add: calculateCustomerMetrics_def Let_def foldl_totals [OF assms])

text \<open>Totals of both infinities make the monetary value \<open>NaN\<close>.\<close>

lemma total_or_0_values:
  "total_or_0 (Fin r) = Fin r" "total_or_0 PInf = PInf" "total_or_0 NInf = NInf"
  "total_or_0 NaN = Fin 0"
  by (simp_all add: total_or_0_def)

lemma foldl_totals_NaN:
  "foldl (\<lambda>sum order. jadd sum (total_or_0 (total order))) NaN os = NaN"
  by (induction os) simp_all

lemma foldl_totals_PInf:
  "\<exists>order \<in> set os. total order = NInf \<Longrightarrow>
   foldl (\<lambda>sum order. jadd sum (total_or_0 (total order))) PInf os = NaN"
proof (induction os)
  case Nil
  then show ?case by simp
next
  case (Cons order os)
  show ?case
  proof (cases "total order")
    case NInf
    then show ?thesis by (simp add: total_or_0_values foldl_totals_NaN)
  next
    case PInf
    then show ?thesis using Cons by (simp add: total_or_0_values)
  next
    case NaN
    then show ?thesis using Cons by (simp add: total_or_0_values)
  next
    case (Fin r)
    then show ?thesis using Cons by (simp add: total_or_0_values)
  qed
qed

lemma foldl_totals_NInf:
  "\<exists>order \<in> set os. total order = PInf \<Longrightarrow>
   foldl (\<lambda>sum order. jadd sum (total_or_0 (total order))) NInf os = NaN"
proof (induction os)
  case Nil
  then show ?case by simp
next
  case (Cons order os)
  show ?case
  proof (cases "total order")
    case PInf
    then show ?thesis by (simp add: total_or_0_values foldl_totals_NaN)
  next
    case NInf
    then show ?thesis using Cons by (simp add: total_or_0_values)
  next
    case NaN
    then show ?thesis using Cons by (simp add: total_or_0_values)
  next
    case (Fin r)
    then show ?thesis using Cons by (simp add: total_or_0_values)
  qed
qed

lemma foldl_totals_both:
  "\<exists>order \<in> set os. total order = PInf \<Longrightarrow> \<exists>order \<in> set os. total order = NInf \<Longrightarrow>
   foldl (\<lambda>sum order. jadd sum (total_or_0 (total order))) (Fin a) os = NaN"
proof (induction os arbitrary: a)
  case Nil
  then show ?case by simp
next
  case (Cons order os)
  show ?case
  proof (cases "total order")
    case PInf
    then have "\<exists>order \<in> set os. total order = NInf" using Cons.prems(2) by auto
    then show ?thesis using PInf by (simp add: total_or_0_values foldl_totals_PInf)
  next
    case NInf
    then have "\<exists>order \<in> set os. total order = PInf" using Cons.prems(1) by auto
    then show ?thesis using NInf by (simp add: total_or_0_values foldl_totals_NInf)
  next
    case NaN
    then show ?thesis using Cons by (simp add: total_or_0_values)
  next
    case (Fin r)
    then show ?thesis using Cons by (simp add: total_or_0_values)
  qed
qed

lemma monetary_undefined:
  assumes "\<exists>order \<in> set os. total order = PInf" and "\<exists>order \<in> set os. total order = NInf"
  shows "cm_monetary (calculateCustomerMetrics parse os currentDate) = NaN"
  by (simp add: calculateCustomerMetrics_def Let_def foldl_totals_both [OF assms])

section \<open>The records of the aggregation\<close>

lemma example_inherited:
  "\<not> inherited_name ''u1''" "\<not> inherited_name ''u2''" "\<not> inherited_name ''u3''"
  "\<not> inherited_name ''u4''"
  by (simp_all add: inherited_name_def object_prototype_def)

lemma example_records:
  "calculateMetricsForCustomers example_parse example_now customers_example orders_example
     = Inr [\<lparr>RFMMetrics.user_id = ''u1'', recency = Fin 9, frequency = Fin 2, monetary = Fin 500,
              rfm_score = ''''\<rparr>,
            \<lparr>RFMMetrics.user_id = ''u2'', recency = NaN, frequency = Fin 1, monetary = Fin 300,
              rfm_score = ''''\<rparr>,
            \<lparr>RFMMetrics.user_id = ''u4'', recency = Fin 0, frequency = Fin 1, monetary = Fin 50,
              rfm_score = ''''\<rparr>]"
proof -
  have a: "\<not> (\<exists>order \<in> set orders_example. inherited_name (Order.user_id order))"
    by (simp add: orders_example_def example_inherited)
  have b: "\<not> (\<exists>customer \<in> set customers_example. inherited_orders (id customer))"
    using inherited_orders_name example_inherited by (auto simp: customers_example_def)
  have fl: "\<lfloor>(1717200000000 - 1716379200000) / (86400000 :: real)\<rfloor> = 9"
    by (simp add: floor_eq_iff)
  have fl2: "\<lfloor>(1717200000000 - 1719792000000) / (86400000 :: real)\<rfloor> = - 30"
    by (simp add: floor_eq_iff)
  show ?thesis
    unfolding calculateMetricsForCustomers_eq using a b
    by (simp add: customers_example_def orders_example_def orders_of_def rfm_record_def
        calculateCustomerMetrics_def math_max_def msPerDay_def example_parse_def example_now_def
        new_Date_string_def new_Date_number_def getTime_def total_or_0_def trunc_real_def Let_def
        fl fl2)
qed

text \<open>A customer named as the inherited property \<open>constructor\<close> makes the aggregation throw.\<close>

lemma inherited_customer_throws:
  "calculateMetricsForCustomers parse now [\<lparr>id = ''constructor''\<rparr>] orders_example
     = Inl TypeError"
  by (simp add: calculateMetricsForCustomers_eq inherited_orders_def object_prototype_def)

text \<open>
  C7. The aggregation returns unless an identifier is the name of a property that
  objects inherit. Every record it returns belongs to a customer of the input who has
  at least one order, and its frequency is the number of these orders, at least 1; a
  customer without orders has no record. If every creation date of the customer's
  orders is a valid date, the recency is the number of whole days since the latest
  one, clamped to 0, so at least 0, and it is 0 when an order lies after the current
  date. If one creation date is not a valid date, the recency is \<open>NaN\<close>: the clamp
  \<open>Math.max(0, recency)\<close> does not hold it at 0. If no total is an infinity, the
  monetary value is the sum of the totals, clamped to 0.
\<close>

theorem aggregation_invariants:
  "((\<forall>order \<in> set orders. \<not> inherited_name (Order.user_id order))
      \<and> (\<forall>customer \<in> set customers. \<not> inherited_name (id customer))
     \<longrightarrow> (\<exists>records. calculateMetricsForCustomers parse now customers orders = Inr records))
   \<and> (\<forall>records m.
         calculateMetricsForCustomers parse now customers orders = Inr records \<and> m \<in> set records
         \<longrightarrow> (let os = orders_of orders (RFMMetrics.user_id m)
              in (\<exists>customer \<in> set customers. id customer = RFMMetrics.user_id m)
               \<and> os \<noteq> []
               \<and> frequency m = Fin (real (length os)) \<and> 1 \<le> length os
               \<and> ((\<forall>order \<in> set os. valid_date parse order) \<longrightarrow>
                     (\<exists>r. recency m = Fin r \<and> 0 \<le> r
                          \<and> r = max 0 (days_since now (Max (time_of parse ` set os))))
                   \<and> ((\<exists>order \<in> set os. real_of_int now < time_of parse order)
                        \<longrightarrow> recency m = Fin 0))
               \<and> ((\<exists>order \<in> set os. \<not> valid_date parse order) \<longrightarrow> recency m = NaN)
               \<and> ((\<forall>order \<in> set os. finite_total order) \<longrightarrow>
                     (\<exists>v. monetary m = Fin v \<and> 0 \<le> v
                          \<and> v = max 0 (sum_list (map amount os))))))"
proof (rule conjI)
  show "(\<forall>order \<in> set orders. \<not> inherited_name (Order.user_id order))
      \<and> (\<forall>customer \<in> set customers. \<not> inherited_name (id customer))
     \<longrightarrow> (\<exists>records. calculateMetricsForCustomers parse now customers orders = Inr records)"
    using inherited_orders_name by (auto simp: calculateMetricsForCustomers_eq)
next
  show "\<forall>records m.
         calculateMetricsForCustomers parse now customers orders = Inr records \<and> m \<in> set records
         \<longrightarrow> (let os = orders_of orders (RFMMetrics.user_id m)
              in (\<exists>customer \<in> set customers. id customer = RFMMetrics.user_id m)
               \<and> os \<noteq> []
               \<and> frequency m = Fin (real (length os)) \<and> 1 \<le> length os
               \<and> ((\<forall>order \<in> set os. valid_date parse order) \<longrightarrow>
                     (\<exists>r. recency m = Fin r \<and> 0 \<le> r
                          \<and> r = max 0 (days_since now (Max (time_of parse ` set os))))
                   \<and> ((\<exists>order \<in> set os. real_of_int now < time_of parse order)
                        \<longrightarrow> recency m = Fin 0))
               \<and> ((\<exists>order \<in> set os. \<not> valid_date parse order) \<longrightarrow> recency m = NaN)
               \<and> ((\<forall>order \<in> set os. finite_total order) \<longrightarrow>
                     (\<exists>v. monetary m = Fin v \<and> 0 \<le> v
                          \<and> v = max 0 (sum_list (map amount os)))))"
  proof (intro allI impI, elim conjE)
    fix records m
    assume run: "calculateMetricsForCustomers parse now customers orders = Inr records"
      and mem: "m \<in> set records"
    have "records = map (rfm_record parse now orders)
                    (filter (\<lambda>customer. id customer \<noteq> [] \<and> orders_of orders (id customer) \<noteq> [])
                       customers)"
      using run by (simp add: calculateMetricsForCustomers_eq split: if_splits)
    with mem obtain c where c: "c \<in> set customers" "orders_of orders (id c) \<noteq> []"
      and m: "m = rfm_record parse now orders c"
      by auto
    let ?os = "orders_of orders (id c)"
    let ?cm = "calculateCustomerMetrics parse ?os (Fin (of_int now))"
    have uid: "RFMMetrics.user_id m = id c"
      and rec: "recency m = cm_recency ?cm"
      and fre: "frequency m = cm_frequency ?cm"
      and mon: "monetary m = cm_monetary ?cm"
      by (simp_all add: m rfm_record_def Let_def)
    have cu: "\<exists>customer \<in> set customers. id customer = RFMMetrics.user_id m"
      using c(1) uid by auto
    have f: "frequency m = Fin (real (length ?os))"
      by (simp add: fre frequency_of_orders [OF c(2)])
    have len: "1 \<le> length ?os" using c(2) by (cases ?os) simp_all
    have r1: "\<exists>r. recency m = Fin r \<and> 0 \<le> r
                \<and> r = max 0 (days_since now (Max (time_of parse ` set ?os)))"
      if "\<forall>order \<in> set ?os. valid_date parse order"
      by (simp add: rec recency_valid [OF c(2) that])
    have r2: "recency m = Fin 0"
      if "\<forall>order \<in> set ?os. valid_date parse order"
        and "\<exists>order \<in> set ?os. real_of_int now < time_of parse order"
      using that recency_future [of ?os parse _ now] by (auto simp: rec)
    have r3: "recency m = NaN" if "\<exists>order \<in> set ?os. \<not> valid_date parse order"
      using that recency_invalid [of _ ?os parse "Fin (of_int now)"] by (auto simp: rec)
    have v: "\<exists>v. monetary m = Fin v \<and> 0 \<le> v \<and> v = max 0 (sum_list (map amount ?os))"
      if "\<forall>order \<in> set ?os. finite_total order"
      by (simp add: mon monetary_finite [OF that])
    show "let os = orders_of orders (RFMMetrics.user_id m)
              in (\<exists>customer \<in> set customers. id customer = RFMMetrics.user_id m)
               \<and> os \<noteq> []
               \<and> frequency m = Fin (real (length os)) \<and> 1 \<le> length os
               \<and> ((\<forall>order \<in> set os. valid_date parse order) \<longrightarrow>
                     (\<exists>r. recency m = Fin r \<and> 0 \<le> r
                          \<and> r = max 0 (days_since now (Max (time_of parse ` set os))))
                   \<and> ((\<exists>order \<in> set os. real_of_int now < time_of parse order)
                        \<longrightarrow> recency m = Fin 0))
               \<and> ((\<exists>order \<in> set os. \<not> valid_date parse order) \<longrightarrow> recency m = NaN)
               \<and> ((\<forall>order \<in> set os. finite_total order) \<longrightarrow>
                     (\<exists>v. monetary m = Fin v \<and> 0 \<le> v
                          \<and> v = max 0 (sum_list (map amount os))))"
      unfolding Let_def uid using cu c(2) f len r1 r2 r3 v unfolding uid by blast
  qed
qed

theorem aggregation_invariants_witness:
  "list_all (\<lambda>order. \<not> inherited_name (Order.user_id order)) orders_example
   \<and> list_all (\<lambda>customer. \<not> inherited_name (id customer)) customers_example
   \<and> calculateMetricsForCustomers example_parse example_now customers_example orders_example
      = Inr [\<lparr>RFMMetrics.user_id = ''u1'', recency = Fin 9, frequency = Fin 2, monetary = Fin 500,
               rfm_score = ''''\<rparr>,
             \<lparr>RFMMetrics.user_id = ''u2'', recency = NaN, frequency = Fin 1, monetary = Fin 300,
               rfm_score = ''''\<rparr>,
             \<lparr>RFMMetrics.user_id = ''u4'', recency = Fin 0, frequency = Fin 1, monetary = Fin 50,
               rfm_score = ''''\<rparr>]
   \<and> orders_of orders_example ''u2''
      = [\<lparr>Order.user_id = ''u2'', created_at = '''', total = Fin 300\<rparr>]
   \<and> \<not> valid_date example_parse \<lparr>Order.user_id = ''u2'', created_at = '''', total = Fin 300\<rparr>
   \<and> list_all (valid_date example_parse) (orders_of orders_example ''u1'')
   \<and> list_all (valid_date example_parse) (orders_of orders_example ''u4'')
   \<and> (\<exists>order \<in> set (orders_of orders_example ''u4'').
         real_of_int example_now < time_of example_parse order)
   \<and> list_all finite_total orders_example
   \<and> orders_of orders_example ''u3'' = []"
proof -
  have a: "\<forall>order \<in> set orders_example. \<not> inherited_name (Order.user_id order)"
    by (simp add: orders_example_def example_inherited)
  have b: "\<forall>customer \<in> set customers_example. \<not> inherited_name (id customer)"
    by (simp add: customers_example_def example_inherited)
  have o2: "orders_of orders_example ''u2''
      = [\<lparr>Order.user_id = ''u2'', created_at = '''', total = Fin 300\<rparr>]"
    by (simp add: orders_of_def orders_example_def)
  have inv: "\<not> valid_date example_parse \<lparr>Order.user_id = ''u2'', created_at = '''', total = Fin 300\<rparr>"
    by (simp add: valid_date_def new_Date_string_def example_parse_def)
  have v1: "\<forall>order \<in> set (orders_of orders_example ''u1''). valid_date example_parse order"
    by (simp add: orders_of_def orders_example_def valid_date_def new_Date_string_def
        example_parse_def trunc_real_def)
  have v4: "\<forall>order \<in> set (orders_of orders_example ''u4''). valid_date example_parse order"
    by (simp add: orders_of_def orders_example_def valid_date_def new_Date_string_def
        example_parse_def trunc_real_def)
  have fut: "\<exists>order \<in> set (orders_of orders_example ''u4'').
         real_of_int example_now < time_of example_parse order"
    by (simp add: orders_of_def orders_example_def time_of_def new_Date_string_def
        example_parse_def example_now_def trunc_real_def)
  have ft: "\<forall>order \<in> set orders_example. finite_total order"
    by (simp add: orders_example_def finite_total_def)
  have o3: "orders_of orders_example ''u3'' = []"
    by (simp add: orders_of_def orders_example_def)
  show ?thesis
    using aggregation_invariants [of orders_example customers_example example_parse example_now]
      a b o2 inv v1 v4 fut ft o3 example_records
    by (simp add: list_all_iff)
qed


section \<open>The main loop\<close>

lemma centroidsConverged_inner_True:
  "centroidsConverged_inner vals prev threshold d0 = Inr True \<longleftrightarrow>
     (\<forall>d < length vals. \<exists>p. prev = Some p \<and>
        jlt (math_abs (jsub (vals ! d) (num_at p (d0 + d)))) threshold)"
proof (induction vals arbitrary: d0)
  case Nil
  then show ?case by simp
next
  case (Cons v vals)
  show ?case
  proof (cases prev)
    case None
    then show ?thesis by auto
  next
    case (Some p)
    show ?thesis
    proof (cases "jlt (math_abs (jsub v (num_at p d0))) threshold")
      case True
      have "(\<forall>d < length (v # vals). \<exists>p'. prev = Some p' \<and>
              jlt (math_abs (jsub ((v # vals) ! d) (num_at p' (d0 + d)))) threshold)
          \<longleftrightarrow> (\<forall>d < length vals. \<exists>p'. prev = Some p' \<and>
              jlt (math_abs (jsub (vals ! d) (num_at p' (Suc d0 + d)))) threshold)"
        using True Some by (auto simp: less_Suc_eq_0_disj)
      then show ?thesis using True Some Cons.IH [of "Suc d0"] by simp
    next
      case False
      then show ?thesis using Some by auto
    qed
  qed
qed

lemma centroidsConverged_every_True:
  "centroidsConverged_every current previous threshold i0 = Inr True \<longleftrightarrow>
     (\<forall>i < length current. \<forall>d < length (current ! i).
        i0 + i < length previous \<and>
        jlt (math_abs (jsub (current ! i ! d) (num_at (previous ! (i0 + i)) d))) threshold)"
proof (induction current arbitrary: i0)
  case Nil
  then show ?case by simp
next
  case (Cons c current)
  have inner: "centroidsConverged_inner c (elem_at previous i0) threshold 0 = Inr True \<longleftrightarrow>
      (\<forall>d < length c. i0 < length previous \<and>
         jlt (math_abs (jsub (c ! d) (num_at (previous ! i0) d))) threshold)"
    by (auto simp: centroidsConverged_inner_True elem_at_def)
  have split: "(\<forall>i < length (c # current). \<forall>d < length ((c # current) ! i).
        i0 + i < length previous \<and>
        jlt (math_abs (jsub ((c # current) ! i ! d) (num_at (previous ! (i0 + i)) d))) threshold)
     \<longleftrightarrow> (\<forall>d < length c. i0 < length previous \<and>
         jlt (math_abs (jsub (c ! d) (num_at (previous ! i0) d))) threshold)
       \<and> (\<forall>i < length current. \<forall>d < length (current ! i).
        Suc i0 + i < length previous \<and>
        jlt (math_abs (jsub (current ! i ! d) (num_at (previous ! (Suc i0 + i)) d))) threshold)"
    by (auto simp: less_Suc_eq_0_disj)
  show ?case
  proof (cases "centroidsConverged_inner c (elem_at previous i0) threshold 0")
    case (Inl e)
    then show ?thesis using inner split by auto
  next
    case (Inr ok)
    then show ?thesis
      using inner split Cons.IH [of "Suc i0"] by (cases ok) auto
  qed
qed

lemma centroidsConverged_True:
  "centroidsConverged current previous threshold = Inr True
     \<longleftrightarrow> coordinates_moved_less current previous threshold"
  by (auto simp: centroidsConverged_def coordinates_moved_less_def centroidsConverged_every_True)

lemma kmeans_state_0: "kmeans_state rng data k s 0 = s"
  by (simp add: kmeans_state_def)

lemma kmeans_state_Suc:
  "kmeans_state rng data k s (Suc j) = kmeans_state rng data k (kmeans_body rng data k s) j"
  by (simp add: kmeans_state_def funpow_swap1)

lemma kmeans_state_Suc':
  "kmeans_state rng data k s (Suc j) = kmeans_body rng data k (kmeans_state rng data k s j)"
  by (simp add: kmeans_state_def)

lemma kmeans_body_fields:
  "st_iterations (kmeans_body rng data k s) = st_iterations s + 1"
  "st_previous (kmeans_body rng data k s) = st_centroids s"
  "st_centroids (kmeans_body rng data k s)
     = fst (updateCentroids rng (st_pos s) data (assignClusters data (st_centroids s)) k)"
  "st_pos (kmeans_body rng data k s)
     = snd (updateCentroids rng (st_pos s) data (assignClusters data (st_centroids s)) k)"
  by (simp_all add: kmeans_body_def Let_def split_beta)

lemma kmeans_state_iterations:
  "st_iterations (kmeans_state rng data k s j) = st_iterations s + j"
  by (induction j) (simp_all add: kmeans_state_0 kmeans_state_Suc' kmeans_body_fields)

lemma kmeans_while_trace:
  "kmeans_while rng data k s = Inr s' \<Longrightarrow>
     \<exists>n. s' = kmeans_state rng data k s n
        \<and> (\<forall>j < n. kmeans_continue (kmeans_state rng data k s j) = Inr True)
        \<and> kmeans_continue s' = Inr False"
proof (induction rng data k s rule: kmeans_while.induct)
  case (1 rng data k s)
  show ?case
  proof (cases "kmeans_continue s")
    case (Inl e)
    with "1.prems" show ?thesis by (simp add: kmeans_while_error)
  next
    case (Inr continue)
    show ?thesis
    proof (cases continue)
      case False
      with Inr "1.prems" have "s' = s" by (simp add: kmeans_while_stop)
      with Inr False have "s' = kmeans_state rng data k s 0
          \<and> (\<forall>j < 0. kmeans_continue (kmeans_state rng data k s j) = Inr True)
          \<and> kmeans_continue s' = Inr False"
        by (simp add: kmeans_state_0)
      then show ?thesis by blast
    next
      case True
      with Inr "1.prems" have "kmeans_while rng data k (kmeans_body rng data k s) = Inr s'"
        by (simp add: kmeans_while_step)
      from "1.IH" [OF Inr True this] obtain n where
        n: "s' = kmeans_state rng data k (kmeans_body rng data k s) n"
          "\<forall>j < n. kmeans_continue (kmeans_state rng data k (kmeans_body rng data k s) j) = Inr True"
          "kmeans_continue s' = Inr False"
        by blast
      have "kmeans_continue (kmeans_state rng data k s j) = Inr True" if "j < Suc n" for j
      proof (cases j)
        case 0
        with Inr True show ?thesis by (simp add: kmeans_state_0)
      next
        case (Suc j')
        with that n(2) show ?thesis by (simp add: kmeans_state_Suc)
      qed
      with n(1,3) have "s' = kmeans_state rng data k s (Suc n)
          \<and> (\<forall>j < Suc n. kmeans_continue (kmeans_state rng data k s j) = Inr True)
          \<and> kmeans_continue s' = Inr False"
        by (simp add: kmeans_state_Suc)
      then show ?thesis by blast
    qed
  qed
qed

lemma kmeans_continue_True:
  "kmeans_continue s = Inr True \<longleftrightarrow>
     st_iterations s < maxIterations
     \<and> centroidsConverged (st_centroids s) (st_previous s) convergenceThreshold = Inr False"
  by (auto simp: kmeans_continue_def split: sum.splits)

lemma kmeans_continue_False:
  "kmeans_continue s = Inr False \<longleftrightarrow>
     centroidsConverged (st_centroids s) (st_previous s) convergenceThreshold = Inr True
     \<or> (centroidsConverged (st_centroids s) (st_previous s) convergenceThreshold = Inr False
        \<and> \<not> st_iterations s < maxIterations)"
  by (auto simp: kmeans_continue_def split: sum.splits)

lemma runKMeansAlgorithm_Inr:
  assumes "runKMeansAlgorithm rng pos data k = Inr (run, pos')"
  shows "\<exists>centroids0 pos0 s.
      initializeCentroidsKMeansPlusPlus rng pos data k = Inr (centroids0, pos0)
    \<and> kmeans_while rng data k (initial_state centroids0 pos0) = Inr s
    \<and> run = \<lparr>run_centroids = st_centroids s,
              run_clusters = assignClusters data (st_centroids s),
              run_iterations = st_iterations s\<rparr>
    \<and> pos' = st_pos s"
  using assms
  by (auto simp: runKMeansAlgorithm_def initial_state_def Let_def split: sum.splits prod.splits)

lemma kmeans_state_previous:
  "0 < j \<Longrightarrow> st_previous (kmeans_state rng data k s j) = st_centroids (kmeans_state rng data k s (j - 1))"
  by (cases j) (simp_all add: kmeans_state_Suc' kmeans_body_fields)

lemma kmeans_run_trace:
  assumes "initializeCentroidsKMeansPlusPlus rng pos data k = Inr (centroids0, pos0)"
    and "runKMeansAlgorithm rng pos data k = Inr (run, pos')"
  shows "run_iterations run \<le> 100 \<and> 1 \<le> run_iterations run
    \<and> run_centroids run
        = st_centroids (kmeans_state rng data k (initial_state centroids0 pos0) (run_iterations run))
    \<and> st_iterations (kmeans_state rng data k (initial_state centroids0 pos0) (run_iterations run))
        = run_iterations run
    \<and> (\<forall>j < run_iterations run.
          kmeans_continue (kmeans_state rng data k (initial_state centroids0 pos0) j) = Inr True)
    \<and> kmeans_continue (kmeans_state rng data k (initial_state centroids0 pos0) (run_iterations run))
        = Inr False
    \<and> (\<forall>j. 0 < j \<and> j < run_iterations run \<longrightarrow>
          \<not> coordinates_moved_less
              (st_centroids (kmeans_state rng data k (initial_state centroids0 pos0) j))
              (st_centroids (kmeans_state rng data k (initial_state centroids0 pos0) (j - 1)))
              (Fin (1 / 10000)))
    \<and> (run_iterations run < 100 \<longrightarrow>
          coordinates_moved_less
            (st_centroids (kmeans_state rng data k (initial_state centroids0 pos0) (run_iterations run)))
            (st_centroids (kmeans_state rng data k (initial_state centroids0 pos0) (run_iterations run - 1)))
            (Fin (1 / 10000)))"
proof -
  let ?s0 = "initial_state centroids0 pos0"
  let ?st = "kmeans_state rng data k ?s0"
  from runKMeansAlgorithm_Inr [OF assms(2)] assms(1) obtain s where
    w: "kmeans_while rng data k ?s0 = Inr s"
    and run: "run = \<lparr>run_centroids = st_centroids s,
              run_clusters = assignClusters data (st_centroids s),
              run_iterations = st_iterations s\<rparr>"
    by auto
  from kmeans_while_trace [OF w] obtain n where
    n: "s = ?st n" "\<forall>j < n. kmeans_continue (?st j) = Inr True" "kmeans_continue s = Inr False"
    by blast
  have it: "st_iterations (?st j) = j" for j
    by (simp add: kmeans_state_iterations initial_state_def)
  have rn: "run_iterations run = n"
    by (simp add: run n(1) it)
  have c0: "kmeans_continue ?s0 = Inr True"
    by (simp add: kmeans_continue_def initial_state_def centroidsConverged_def maxIterations_def)
  have pos: "1 \<le> n"
  proof (rule ccontr)
    assume "\<not> 1 \<le> n"
    then have "n = 0" by simp
    with n(1,3) c0 show False by (simp add: kmeans_state_0)
  qed
  have le: "n \<le> 100"
  proof -
    have "kmeans_continue (?st (n - 1)) = Inr True" using n(2) pos by simp
    then have "st_iterations (?st (n - 1)) < maxIterations"
      by (simp add: kmeans_continue_True)
    then show ?thesis by (simp add: it maxIterations_def)
  qed
  have earlier: "\<not> coordinates_moved_less (st_centroids (?st j)) (st_centroids (?st (j - 1)))
      (Fin (1 / 10000))" if "0 < j" "j < n" for j
  proof -
    have "kmeans_continue (?st j) = Inr True" using n(2) that(2) by simp
    then have "centroidsConverged (st_centroids (?st j)) (st_previous (?st j)) convergenceThreshold
        = Inr False"
      by (simp add: kmeans_continue_True)
    then have "\<not> coordinates_moved_less (st_centroids (?st j)) (st_previous (?st j))
        convergenceThreshold"
      by (simp add: centroidsConverged_True [symmetric])
    then show ?thesis
      using that(1) by (simp add: kmeans_state_previous convergenceThreshold_def)
  qed
  have last: "coordinates_moved_less (st_centroids (?st n)) (st_centroids (?st (n - 1)))
      (Fin (1 / 10000))" if "n < 100"
  proof -
    have "st_iterations (?st n) < maxIterations" using that by (simp add: it maxIterations_def)
    with n(1,3) have "centroidsConverged (st_centroids (?st n)) (st_previous (?st n))
        convergenceThreshold = Inr True"
      by (auto simp: kmeans_continue_False)
    then show ?thesis
      using pos by (simp add: centroidsConverged_True kmeans_state_previous convergenceThreshold_def)
  qed
  have cs: "run_centroids run = st_centroids (?st n)" by (simp add: run n(1))
  show ?thesis
    unfolding rn using le pos cs it n(2) n(3) [unfolded n(1)] earlier last by blast
qed


section \<open>The run returns\<close>

lemma finite_points_normalizeData:
  assumes "metrics \<noteq> []" and "finite_metrics metrics"
  shows "finite_points 3 (normalizeData metrics)"
  by (simp add: normalizeData_eq [OF assms] finite_points_def list_all_iff)

lemma num_at_Fin: "i < length q \<Longrightarrow> list_all is_fin q \<Longrightarrow> num_at q i = Fin (the_fin (q ! i))"
  by (simp add: num_at_def list_all_length Fin_the_fin)

lemma distance_sum_Fin:
  assumes "list_all is_fin p" and "list_all is_fin q" and "i0 + length p \<le> length q" and "0 \<le> a"
  shows "\<exists>b. foldl (\<lambda>sum (val, index). jadd sum (math_pow2 (jsub val (num_at q index))))
                (Fin a) (zip p [i0..<i0 + length p]) = Fin b \<and> 0 \<le> b"
  using assms
proof (induction p arbitrary: a i0)
  case Nil
  then show ?case by simp
next
  case (Cons v p)
  obtain x where x: "v = Fin x" using Cons.prems(1) by (auto simp: is_fin_conv)
  have q: "num_at q i0 = Fin (the_fin (q ! i0))"
    using Cons.prems(2,3) by (simp add: num_at_Fin)
  have up: "[i0..<i0 + length (v # p)] = i0 # [Suc i0..<Suc i0 + length p]"
    using upt_conv_Cons [of i0 "i0 + length (v # p)"] by simp
  have "0 \<le> a + (x - the_fin (q ! i0)) * (x - the_fin (q ! i0))"
    using Cons.prems(4) by simp
  from Cons.IH [OF _ Cons.prems(2) _ this, of "Suc i0"] Cons.prems(1,3)
  show ?case unfolding up by (simp add: x q)
qed

lemma euclideanDistance_Fin:
  assumes "list_all is_fin p" and "list_all is_fin q" and "length p \<le> length q"
  shows "\<exists>d. euclideanDistance p q = Fin d \<and> 0 \<le> d"
proof -
  from distance_sum_Fin [OF assms(1,2), of 0 0] assms(3) obtain b where
    "foldl (\<lambda>sum (val, index). jadd sum (math_pow2 (jsub val (num_at q index))))
                (Fin 0) (zip p [0..<length p]) = Fin b" "0 \<le> b"
    by auto
  then show ?thesis by (simp add: euclideanDistance_def)
qed

lemma math_min_nonneg:
  assumes "xs \<noteq> []" and "\<forall>x \<in> set xs. \<exists>d. x = Fin d \<and> 0 \<le> d"
  shows "\<exists>m. math_min xs = Fin m \<and> 0 \<le> m"
proof -
  have fin: "list_all is_fin xs" using assms(2) by (auto simp: list_all_iff)
  have ne: "map the_fin xs \<noteq> []" using assms(1) by simp
  have "math_min (map Fin (map the_fin xs)) = Fin (Min (set (map the_fin xs)))"
    by (rule math_min_Fin [OF ne])
  then have "math_min xs = Fin (Min (set (map the_fin xs)))"
    by (simp only: map_the_fin [OF fin])
  moreover have "0 \<le> Min (set (map the_fin xs))"
    using assms by (subst Min_ge_iff) auto
  ultimately show ?thesis by blast
qed

lemma finite_points_D:
  "finite_points n data \<Longrightarrow> p \<in> set data \<Longrightarrow> length p = n \<and> list_all is_fin p"
  by (simp add: finite_points_def list_all_iff)

lemma kmeanspp_distance_nonneg:
  assumes "finite_points n data" and "finite_points n centroids" and "centroids \<noteq> []"
    and "point \<in> set data"
  shows "\<exists>x. (let minDistance = math_min (map (\<lambda>centroid. euclideanDistance point centroid) centroids)
              in jmul minDistance minDistance) = Fin x \<and> 0 \<le> x"
proof -
  have "\<forall>d \<in> set (map (\<lambda>centroid. euclideanDistance point centroid) centroids).
      \<exists>x. d = Fin x \<and> 0 \<le> x"
    using assms(1,2,4) by (auto dest!: finite_points_D intro!: euclideanDistance_Fin)
  from math_min_nonneg [OF _ this] assms(3) obtain m where
    "math_min (map (\<lambda>centroid. euclideanDistance point centroid) centroids) = Fin m" "0 \<le> m"
    by auto
  then show ?thesis by simp
qed

lemma kmeanspp_pick_Some:
  assumes "length ds = length data" and "\<forall>d \<in> set ds. \<exists>x. d = Fin x \<and> 0 \<le> x"
    and "rv \<le> c + sum_list (map the_fin ds)" and "data \<noteq> []"
  shows "\<exists>p \<in> set data. kmeanspp_pick (zip data ds) (Fin rv) (Fin c) = Some p"
  using assms
proof (induction ds data arbitrary: c rule: list_induct2)
  case Nil
  then show ?case by simp
next
  case (Cons d ds p data)
  obtain x where x: "d = Fin x" "0 \<le> x" using Cons.prems(1) by auto
  show ?case
  proof (cases "rv \<le> c + x")
    case True
    then show ?thesis by (simp add: x)
  next
    case False
    then have "0 < sum_list (map the_fin ds)" using Cons.prems(2) x by simp
    then have "ds \<noteq> []" by auto
    then have ne: "data \<noteq> []" using Cons.hyps by auto
    have "rv \<le> (c + x) + sum_list (map the_fin ds)" using Cons.prems(2) x by simp
    from Cons.IH [OF _ this ne] Cons.prems(1) obtain q where
      "q \<in> set data" "kmeanspp_pick (zip data ds) (Fin rv) (Fin (c + x)) = Some q"
      by auto
    with False show ?thesis by (simp add: x)
  qed
qed

lemma kmeanspp_loop_pick:
  assumes "valid_rng rng" and "finite_points n data" and "data \<noteq> []"
    and "finite_points n centroids" and "centroids \<noteq> []" and "i < k"
  shows "\<exists>p \<in> set data. kmeanspp_loop rng pos data k i centroids
           = kmeanspp_loop rng (Suc pos) data k (Suc i) (centroids @ [p])"
proof -
  let ?ds = "map (\<lambda>point.
                      let minDistance = math_min (map (\<lambda>centroid. euclideanDistance point centroid)
                                                    centroids)
                      in jmul minDistance minDistance) data"
  have nn: "\<forall>d \<in> set ?ds. \<exists>x. d = Fin x \<and> 0 \<le> x"
    using kmeanspp_distance_nonneg [OF assms(2,4,5)] by auto
  then have fin: "list_all (\<lambda>d. is_fin d) ?ds"
    unfolding list_all_iff by (metis is_fin.simps(1))
  have tot: "foldl (\<lambda>sum d. jadd sum d) (Fin 0) ?ds = Fin (sum_list (map the_fin ?ds))"
    using foldl_jadd_Fin [of "\<lambda>d. d", OF fin, of 0] by simp
  have t0: "0 \<le> sum_list (map the_fin ?ds)"
    using nn by (intro sum_list_nonneg) auto
  have r: "0 \<le> rng pos" "rng pos < 1" using assms(1) by (auto simp: valid_rng_def)
  have "rng pos * sum_list (map the_fin ?ds) \<le> 1 * sum_list (map the_fin ?ds)"
    using r t0 by (intro mult_right_mono) auto
  then have le: "rng pos * sum_list (map the_fin ?ds) \<le> 0 + sum_list (map the_fin ?ds)"
    by simp
  from kmeanspp_pick_Some [OF _ nn le assms(3)] obtain p where
    p: "p \<in> set data"
      "kmeanspp_pick (zip data ?ds) (Fin (rng pos * sum_list (map the_fin ?ds))) (Fin 0) = Some p"
    by auto
  have "kmeanspp_loop rng pos data k i centroids
      = kmeanspp_loop rng (Suc pos) data k (Suc i) (centroids @ [p])"
    using tot p(2)
    by (subst kmeanspp_loop_step [OF assms(6)]) (simp add: Let_def math_random_def)
  with p(1) show ?thesis by blast
qed

lemma finite_points_snoc:
  "finite_points n centroids \<Longrightarrow> finite_points n data \<Longrightarrow> p \<in> set data
     \<Longrightarrow> finite_points n (centroids @ [p])"
  by (simp add: finite_points_def list_all_iff)

lemma kmeanspp_loop_total:
  assumes "valid_rng rng" and "finite_points n data" and "data \<noteq> []"
    and "finite_points n centroids" and "centroids \<noteq> []"
  shows "length (fst (kmeanspp_loop rng pos data k i centroids)) = length centroids + (k - i)"
  using assms(4,5)
proof (induction "k - i" arbitrary: i pos centroids)
  case 0
  then show ?case by (simp add: kmeanspp_loop_done)
next
  case (Suc m)
  then have lt: "i < k" and m: "m = k - Suc i" by simp_all
  from kmeanspp_loop_pick [OF assms(1-3) Suc.prems lt, of pos] obtain p where
    p: "p \<in> set data"
      "kmeanspp_loop rng pos data k i centroids
         = kmeanspp_loop rng (Suc pos) data k (Suc i) (centroids @ [p])"
    by blast
  have "length (fst (kmeanspp_loop rng (Suc pos) data k (Suc i) (centroids @ [p])))
      = length (centroids @ [p]) + (k - Suc i)"
    by (rule Suc.hyps(1) [OF m finite_points_snoc [OF Suc.prems(1) assms(2) p(1)]]) simp
  with lt show ?case by (simp add: p(2))
qed

lemma elem_at_num_index:
  assumes "0 \<le> r" and "r < 1" and "data \<noteq> []"
  shows "\<exists>p \<in> set data.
      elem_at_num data (math_floor (jmul (Fin r) (Fin (real (length data))))) = Some p"
proof -
  let ?n = "length data"
  have n: "0 < ?n" using assms(3) by simp
  have lo: "0 \<le> r * real ?n" using assms(1) by simp
  have "r * real ?n < 1 * real ?n" using assms(2) n by (intro mult_strict_right_mono) auto
  then have hi: "r * real ?n < real ?n" by simp
  have f0: "0 \<le> \<lfloor>r * real ?n\<rfloor>" using lo by simp
  have "\<lfloor>r * real ?n\<rfloor> < int ?n" using hi by (simp add: floor_less_iff)
  then have "nat \<lfloor>r * real ?n\<rfloor> < ?n" using f0 by linarith
  then show ?thesis using f0 by (simp add: elem_at_def)
qed

lemma initializeCentroids_total:
  assumes "valid_rng rng" and "finite_points n data" and "data \<noteq> []"
  shows "\<exists>centroids pos'. initializeCentroidsKMeansPlusPlus rng pos data k = Inr (centroids, pos')
           \<and> length centroids = 1 + (k - 1)"
proof -
  have r: "0 \<le> rng pos" "rng pos < 1" using assms(1) by (auto simp: valid_rng_def)
  from elem_at_num_index [OF r assms(3)] obtain p where
    p: "p \<in> set data"
      "elem_at_num data (math_floor (jmul (Fin (rng pos)) (Fin (real (length data))))) = Some p"
    by blast
  have fp: "finite_points n [p]"
    using finite_points_D [OF assms(2) p(1)] by (simp add: finite_points_def)
  have len: "length (fst (kmeanspp_loop rng (Suc pos) data k 1 [p])) = length [p] + (k - 1)"
    by (rule kmeanspp_loop_total [OF assms fp]) simp
  have "initializeCentroidsKMeansPlusPlus rng pos data k
      = Inr (fst (kmeanspp_loop rng (Suc pos) data k 1 [p]), snd (kmeanspp_loop rng (Suc pos) data k 1 [p]))"
    using p(2) by (simp add: initializeCentroidsKMeansPlusPlus_def math_random_def Let_def)
  with len show ?thesis by (metis One_nat_def length_Cons list.size(3) plus_1_eq_Suc)
qed

lemma length_updateCentroids_loop:
  "length (fst (updateCentroids_loop rng pos data clusters k i)) = k - i"
proof (induction "k - i" arbitrary: i pos)
  case 0
  then show ?case by (simp add: updateCentroids_loop_done)
next
  case (Suc m)
  then have lt: "i < k" and m: "m = k - Suc i" by simp_all
  show ?case
  proof (cases "points_of_cluster data clusters i = []")
    case True
    show ?thesis
      using Suc.hyps(1) [OF m, of "pos + 3"] lt
      by (simp add: updateCentroids_loop_empty [OF lt True])
  next
    case False
    show ?thesis
      using Suc.hyps(1) [OF m, of pos] lt
      by (simp add: updateCentroids_loop_mean [OF lt False])
  qed
qed

lemma length_updateCentroids: "length (fst (updateCentroids rng pos data clusters k)) = k"
  by (simp add: updateCentroids_def length_updateCentroids_loop)

lemma centroidsConverged_inner_Some:
  "\<exists>b. centroidsConverged_inner vals (Some p) threshold d = Inr b"
  by (induction vals arbitrary: d) auto

lemma centroidsConverged_every_Inr:
  "i0 + length current \<le> length previous \<Longrightarrow>
     \<exists>b. centroidsConverged_every current previous threshold i0 = Inr b"
proof (induction current arbitrary: i0)
  case Nil
  then show ?case by auto
next
  case (Cons c current)
  then have e: "elem_at previous i0 = Some (previous ! i0)" by (simp add: elem_at_def)
  obtain b where b: "centroidsConverged_inner c (Some (previous ! i0)) threshold 0 = Inr b"
    using centroidsConverged_inner_Some by blast
  from Cons.IH [of "Suc i0"] Cons.prems obtain b' where
    "centroidsConverged_every current previous threshold (Suc i0) = Inr b'"
    by auto
  then show ?case by (cases b) (auto simp: e b)
qed

lemma centroidsConverged_Inr:
  "previous = [] \<or> length current \<le> length previous \<Longrightarrow>
     \<exists>b. centroidsConverged current previous threshold = Inr b"
  using centroidsConverged_every_Inr [of 0 current previous threshold]
  by (auto simp: centroidsConverged_def)

lemma kmeans_while_total:
  assumes "k \<le> length (st_centroids s)"
    and "st_previous s = [] \<or> length (st_centroids s) \<le> length (st_previous s)"
  shows "\<exists>s'. kmeans_while rng data k s = Inr s'"
  using assms
proof (induction rng data k s rule: kmeans_while.induct)
  case (1 rng data k s)
  from centroidsConverged_Inr [OF "1.prems"(2)] obtain b where
    "centroidsConverged (st_centroids s) (st_previous s) convergenceThreshold = Inr b"
    by blast
  then obtain continue where c: "kmeans_continue s = Inr continue"
    by (simp add: kmeans_continue_def)
  show ?case
  proof (cases continue)
    case False
    with c show ?thesis by (simp add: kmeans_while_stop)
  next
    case True
    have "\<exists>s'. kmeans_while rng data k (kmeans_body rng data k s) = Inr s'"
      using "1.prems"(1)
      by (intro "1.IH" [OF c True]) (simp_all add: kmeans_body_fields length_updateCentroids)
    with c True show ?thesis by (simp add: kmeans_while_step)
  qed
qed

lemma assignClusters_forEach_bound:
  "snd (assignClusters_forEach point centroids index (m, c)) = c
   \<or> (index \<le> snd (assignClusters_forEach point centroids index (m, c))
      \<and> snd (assignClusters_forEach point centroids index (m, c)) < index + length centroids)"
proof (induction centroids arbitrary: index m c)
  case Nil
  then show ?case by simp
next
  case (Cons centroid rest)
  show ?case
  proof (cases "jlt (euclideanDistance point centroid) m")
    case True
    with Cons [of "Suc index" "euclideanDistance point centroid" index] show ?thesis by auto
  next
    case False
    with Cons [of "Suc index" m c] show ?thesis by auto
  qed
qed

lemma assignClusters_bound:
  assumes "centroids \<noteq> []" and "c \<in> set (assignClusters data centroids)"
  shows "c < length centroids"
proof -
  from assms(2) obtain point where
    "c = snd (assignClusters_forEach point centroids 0 (PInf, 0))"
    by (auto simp: assignClusters_def)
  with assignClusters_forEach_bound [of point centroids 0 PInf 0] assms(1)
  show ?thesis by auto
qed

lemma length_assignClusters: "length (assignClusters data centroids) = length data"
  by (simp add: assignClusters_def)

lemma calculateWCSS_forEach_Inr:
  assumes "\<forall>j < length data. index + j < length clusters
             \<and> clusters ! (index + j) < length centroids"
  shows "\<exists>w. calculateWCSS_forEach data index centroids clusters acc = Inr w"
  using assms
proof (induction data arbitrary: index acc)
  case Nil
  then show ?case by simp
next
  case (Cons point rest)
  from Cons.prems have h: "index < length clusters" "clusters ! index < length centroids"
    by force+
  have "\<forall>j < length rest. Suc index + j < length clusters
             \<and> clusters ! (Suc index + j) < length centroids"
    using Cons.prems by force
  from Cons.IH [OF this] h show ?case by (simp add: elem_at_def Let_def)
qed

lemma calculateWCSS_Inr:
  assumes "centroids \<noteq> []"
  shows "\<exists>w. calculateWCSS data centroids (assignClusters data centroids) = Inr w"
proof -
  have "assignClusters data centroids ! j < length centroids" if "j < length data" for j
    using that by (intro assignClusters_bound [OF assms, of _ data]) (simp add: length_assignClusters)
  then show ?thesis
    unfolding calculateWCSS_def
    by (intro calculateWCSS_forEach_Inr) (simp add: length_assignClusters)
qed

lemma kmeans_while_initial:
  assumes "kmeans_while rng data k (initial_state centroids0 pos0) = Inr s"
  shows "\<exists>j. s = kmeans_state rng data k (initial_state centroids0 pos0) (Suc j)"
proof -
  let ?s0 = "initial_state centroids0 pos0"
  from kmeans_while_trace [OF assms] obtain n where
    n: "s = kmeans_state rng data k ?s0 n" "kmeans_continue s = Inr False"
    by blast
  have c0: "kmeans_continue ?s0 = Inr True"
    by (simp add: kmeans_continue_def initial_state_def centroidsConverged_def maxIterations_def)
  have "n \<noteq> 0"
  proof
    assume "n = 0"
    then have "s = ?s0" using n(1) by (simp add: kmeans_state_0)
    with n(2) c0 show False by simp
  qed
  with n(1) show ?thesis by (cases n) auto
qed

lemma runKMeansAlgorithm_total:
  assumes "valid_rng rng" and "finite_points n data" and "data \<noteq> []"
  shows "\<exists>run pos'. runKMeansAlgorithm rng pos data k = Inr (run, pos')
           \<and> length (run_centroids run) = k
           \<and> run_clusters run = assignClusters data (run_centroids run)"
proof -
  from initializeCentroids_total [OF assms, of pos k] obtain centroids0 pos0 where
    i: "initializeCentroidsKMeansPlusPlus rng pos data k = Inr (centroids0, pos0)"
      "length centroids0 = 1 + (k - 1)"
    by blast
  let ?s0 = "initial_state centroids0 pos0"
  have "\<exists>s'. kmeans_while rng data k ?s0 = Inr s'"
    using i(2) by (intro kmeans_while_total) (simp_all add: initial_state_def)
  then obtain s where w: "kmeans_while rng data k ?s0 = Inr s" by blast
  let ?run = "\<lparr>run_centroids = st_centroids s, run_clusters = assignClusters data (st_centroids s),
       run_iterations = st_iterations s\<rparr>"
  have r: "runKMeansAlgorithm rng pos data k = Inr (?run, st_pos s)"
    using i(1) w by (simp add: runKMeansAlgorithm_def initial_state_def Let_def)
  from kmeans_while_initial [OF w] obtain j where j: "s = kmeans_state rng data k ?s0 (Suc j)"
    by blast
  have "length (st_centroids s) = k"
    by (subst j) (simp add: kmeans_state_Suc' kmeans_body_fields length_updateCentroids)
  with r show ?thesis by simp
qed

lemma performKMeansClustering_total:
  assumes "valid_rng rng" and "finite_metrics metrics" and "metrics \<noteq> []" and "1 \<le> k"
  shows "\<exists>result pos'. performKMeansClustering rng pos metrics (Some k) dataStats_arg
           = Inr (result, pos')"
proof -
  have ne: "normalizeData metrics \<noteq> []" using assms(3) by (simp add: normalizeData_def Let_def)
  from runKMeansAlgorithm_total [OF assms(1) finite_points_normalizeData [OF assms(3,2)] ne, of pos k]
  obtain run pos' where
    r: "runKMeansAlgorithm rng pos (normalizeData metrics) k = Inr (run, pos')"
      "length (run_centroids run) = k"
      "run_clusters run = assignClusters (normalizeData metrics) (run_centroids run)"
    by blast
  have "run_centroids run \<noteq> []" using r(2) assms(4) by auto
  from calculateWCSS_Inr [OF this, of "normalizeData metrics"] r(3) obtain w where
    "calculateWCSS (normalizeData metrics) (run_centroids run) (run_clusters run) = Inr w"
    by auto
  with r(1) assms(3) show ?thesis
    by (simp add: performKMeansClustering_def Let_def)
qed

text \<open>
  C5. The loop is a total function: it ends in a result or in an exception, and with
  draws in \<open>[0, 1)\<close> and a non-empty list of finite points of one dimension the run
  returns. When the run returns, its \<open>iterations\<close> field \<open>n\<close> is at most 100 and at least
  1, and the centroids returned are those after exactly \<open>n\<close> passes through the loop
  body: the loop condition held before each of these passes and fails after the
  last. After every earlier pass some centroid coordinate had moved by the threshold
  \<open>0.0001\<close> or more, and when \<open>n\<close> is below 100, every coordinate moved by less than
  the threshold in the last pass.
\<close>

theorem runKMeansAlgorithm_iterations:
  "(\<forall>centroids0 pos0 run pos'.
      initializeCentroidsKMeansPlusPlus rng pos data k = Inr (centroids0, pos0)
      \<and> runKMeansAlgorithm rng pos data k = Inr (run, pos') \<longrightarrow>
     run_iterations run \<le> 100 \<and> 1 \<le> run_iterations run
         \<and> run_centroids run
             = st_centroids (kmeans_state rng data k (initial_state centroids0 pos0) (run_iterations run))
         \<and> st_iterations (kmeans_state rng data k (initial_state centroids0 pos0) (run_iterations run))
             = run_iterations run
         \<and> (\<forall>j < run_iterations run.
               kmeans_continue (kmeans_state rng data k (initial_state centroids0 pos0) j) = Inr True)
         \<and> kmeans_continue (kmeans_state rng data k (initial_state centroids0 pos0) (run_iterations run))
             = Inr False
         \<and> (\<forall>j. 0 < j \<and> j < run_iterations run \<longrightarrow>
               \<not> coordinates_moved_less
                   (st_centroids (kmeans_state rng data k (initial_state centroids0 pos0) j))
                   (st_centroids (kmeans_state rng data k (initial_state centroids0 pos0) (j - 1)))
                   (Fin (1 / 10000)))
         \<and> (run_iterations run < 100 \<longrightarrow>
               coordinates_moved_less
                 (st_centroids (kmeans_state rng data k (initial_state centroids0 pos0) (run_iterations run)))
                 (st_centroids (kmeans_state rng data k (initial_state centroids0 pos0) (run_iterations run - 1)))
                 (Fin (1 / 10000))))
   \<and> (valid_rng rng \<and> finite_points n data \<and> data \<noteq> [] \<longrightarrow>
        (\<exists>run pos'. runKMeansAlgorithm rng pos data k = Inr (run, pos')))"
proof (rule conjI)
  show "valid_rng rng \<and> finite_points n data \<and> data \<noteq> [] \<longrightarrow>
        (\<exists>run pos'. runKMeansAlgorithm rng pos data k = Inr (run, pos'))"
    using runKMeansAlgorithm_total [of rng n data pos k] by blast
qed (intro allI impI, elim conjE, rule kmeans_run_trace)

theorem runKMeansAlgorithm_iterations_witness:
  "initializeCentroidsKMeansPlusPlus zero_rng 0 [origin, unit_x] 2 = Inr ([origin, origin], 2)
   \<and> runKMeansAlgorithm zero_rng 0 [origin, unit_x] 2
       = Inr (\<lparr>run_centroids = [unit_x, origin], run_clusters = [1, 0], run_iterations = 3\<rparr>, 5)
   \<and> valid_rng zero_rng \<and> finite_points 3 [origin, unit_x] \<and> [origin, unit_x] \<noteq> []
   \<and> kmeans_continue (kmeans_state zero_rng [origin, unit_x] 2 (initial_state [origin, origin] 2) 3)
       = Inr False
   \<and> coordinates_moved_less
        (st_centroids (kmeans_state zero_rng [origin, unit_x] 2 (initial_state [origin, origin] 2) 3))
        (st_centroids (kmeans_state zero_rng [origin, unit_x] 2 (initial_state [origin, origin] 2)
           (3 - 1)))
        (Fin (1 / 10000))
   \<and> \<not> coordinates_moved_less
        (st_centroids (kmeans_state zero_rng [origin, unit_x] 2 (initial_state [origin, origin] 2) 2))
        (st_centroids (kmeans_state zero_rng [origin, unit_x] 2 (initial_state [origin, origin] 2)
           (2 - 1)))
        (Fin (1 / 10000))"
proof -
  have h: "valid_rng zero_rng" "finite_points 3 [origin, unit_x]" "[origin, unit_x] \<noteq> []"
    by (simp_all add: valid_rng_def zero_rng_def finite_points_def origin_def unit_x_def)
  note t = runKMeansAlgorithm_iterations [of zero_rng 0 "[origin, unit_x]" 2 3,
      THEN conjunct1, rule_format, OF conjI [OF init_pair run_pair],
      unfolded KMeansRun.select_convs]
  have "(3::nat) < 100" "(0::nat) < 2 \<and> (2::nat) < 3" by simp_all
  with t init_pair run_pair h show ?thesis by blast
qed


section \<open>The run depends on the draws it consumes only\<close>

lemma kmeanspp_loop_next:
  "i < k \<Longrightarrow> kmeanspp_loop rng pos data k i centroids
     = kmeanspp_loop rng (Suc pos) data k (Suc i) (kmeanspp_next (rng pos) data centroids)"
  by (subst kmeanspp_loop_step)
     (simp_all add: kmeanspp_next_def Let_def math_random_def split: option.splits)

lemma kmeanspp_loop_pos: "pos \<le> snd (kmeanspp_loop rng pos data k i centroids)"
proof (induction "k - i" arbitrary: i pos centroids)
  case 0
  then show ?case by (simp add: kmeanspp_loop_done)
next
  case (Suc m)
  then have lt: "i < k" and m: "m = k - Suc i" by simp_all
  from Suc.hyps(1) [OF m, of "Suc pos" "kmeanspp_next (rng pos) data centroids"]
  show ?case by (simp add: kmeanspp_loop_next [OF lt])
qed

lemma same_draws_mono:
  "same_draws rng rng' lo hi \<Longrightarrow> lo \<le> lo' \<Longrightarrow> hi' \<le> hi \<Longrightarrow> same_draws rng rng' lo' hi'"
  by (auto simp: same_draws_def)

lemma same_draws_at: "same_draws rng rng' lo hi \<Longrightarrow> lo \<le> i \<Longrightarrow> i < hi \<Longrightarrow> rng' i = rng i"
  by (simp add: same_draws_def)

lemma kmeanspp_loop_same_draws:
  "same_draws rng rng' pos (snd (kmeanspp_loop rng pos data k i centroids)) \<Longrightarrow>
     kmeanspp_loop rng' pos data k i centroids = kmeanspp_loop rng pos data k i centroids"
proof (induction "k - i" arbitrary: i pos centroids)
  case 0
  then show ?case by (simp add: kmeanspp_loop_done)
next
  case (Suc m)
  then have lt: "i < k" and m: "m = k - Suc i" by simp_all
  let ?next = "kmeanspp_next (rng pos) data centroids"
  let ?final = "snd (kmeanspp_loop rng (Suc pos) data k (Suc i) ?next)"
  have sd: "same_draws rng rng' pos ?final"
    using Suc.prems by (simp add: kmeanspp_loop_next [OF lt])
  have le: "Suc pos \<le> ?final" by (rule kmeanspp_loop_pos)
  have r: "rng' pos = rng pos"
    using same_draws_at [OF sd, of pos] le by simp
  have "kmeanspp_loop rng' (Suc pos) data k (Suc i) ?next
      = kmeanspp_loop rng (Suc pos) data k (Suc i) ?next"
    by (rule Suc.hyps(1) [OF m]) (rule same_draws_mono [OF sd], simp_all)
  then show ?case
    by (simp add: kmeanspp_loop_next [OF lt] r)
qed

lemma initializeCentroids_pos:
  "initializeCentroidsKMeansPlusPlus rng pos data k = Inr (centroids, pos') \<Longrightarrow> pos < pos'"
proof -
  assume a: "initializeCentroidsKMeansPlusPlus rng pos data k = Inr (centroids, pos')"
  then obtain point where "kmeanspp_loop rng (Suc pos) data k 1 [point] = (centroids, pos')"
    by (auto simp: initializeCentroidsKMeansPlusPlus_def math_random_def Let_def
        split: option.splits)
  then have "pos' = snd (kmeanspp_loop rng (Suc pos) data k 1 [point])" by simp
  with kmeanspp_loop_pos [of "Suc pos" rng data k 1 "[point]"] show ?thesis by simp
qed

lemma initializeCentroids_same_draws:
  assumes "initializeCentroidsKMeansPlusPlus rng pos data k = Inr (centroids, pos')"
    and "same_draws rng rng' pos pos'"
  shows "initializeCentroidsKMeansPlusPlus rng' pos data k = Inr (centroids, pos')"
proof -
  have r: "rng' pos = rng pos"
    using same_draws_at [OF assms(2), of pos] initializeCentroids_pos [OF assms(1)] by simp
  let ?first = "elem_at_num data (math_floor (jmul (Fin (rng pos)) (Fin (real (length data)))))"
  from assms(1) obtain point where
    p: "?first = Some point" "kmeanspp_loop rng (Suc pos) data k 1 [point] = (centroids, pos')"
    by (auto simp: initializeCentroidsKMeansPlusPlus_def math_random_def Let_def
        split: option.splits)
  have "same_draws rng rng' (Suc pos) (snd (kmeanspp_loop rng (Suc pos) data k 1 [point]))"
    using assms(2) p(2) by (auto simp: same_draws_def)
  from kmeanspp_loop_same_draws [OF this] p show ?thesis
    by (simp add: initializeCentroidsKMeansPlusPlus_def math_random_def Let_def r)
qed

lemma updateCentroids_loop_pos: "pos \<le> snd (updateCentroids_loop rng pos data clusters k i)"
proof (induction "k - i" arbitrary: i pos)
  case 0
  then show ?case by (simp add: updateCentroids_loop_done)
next
  case (Suc m)
  then have lt: "i < k" and m: "m = k - Suc i" by simp_all
  show ?case
  proof (cases "points_of_cluster data clusters i = []")
    case True
    from Suc.hyps(1) [OF m, of "pos + 3"] show ?thesis
      by (simp add: updateCentroids_loop_empty [OF lt True])
  next
    case False
    from Suc.hyps(1) [OF m, of pos] show ?thesis
      by (simp add: updateCentroids_loop_mean [OF lt False])
  qed
qed

lemma updateCentroids_loop_same_draws:
  "same_draws rng rng' pos (snd (updateCentroids_loop rng pos data clusters k i)) \<Longrightarrow>
     updateCentroids_loop rng' pos data clusters k i = updateCentroids_loop rng pos data clusters k i"
proof (induction "k - i" arbitrary: i pos)
  case 0
  then show ?case by (simp add: updateCentroids_loop_done)
next
  case (Suc m)
  then have lt: "i < k" and m: "m = k - Suc i" by simp_all
  show ?case
  proof (cases "points_of_cluster data clusters i = []")
    case True
    let ?final = "snd (updateCentroids_loop rng (pos + 3) data clusters k (Suc i))"
    have sd: "same_draws rng rng' pos ?final"
      using Suc.prems by (simp add: updateCentroids_loop_empty [OF lt True])
    have le: "pos + 3 \<le> ?final" by (rule updateCentroids_loop_pos)
    have r: "rng' pos = rng pos" "rng' (Suc pos) = rng (Suc pos)"
      "rng' (Suc (Suc pos)) = rng (Suc (Suc pos))"
      using same_draws_at [OF sd] le by simp_all
    have "updateCentroids_loop rng' (pos + 3) data clusters k (Suc i)
        = updateCentroids_loop rng (pos + 3) data clusters k (Suc i)"
      by (rule Suc.hyps(1) [OF m]) (rule same_draws_mono [OF sd], simp_all)
    then show ?thesis
      by (simp add: updateCentroids_loop_empty [OF lt True] r)
  next
    case False
    have sd: "same_draws rng rng' pos (snd (updateCentroids_loop rng pos data clusters k (Suc i)))"
      using Suc.prems by (simp add: updateCentroids_loop_mean [OF lt False])
    have "updateCentroids_loop rng' pos data clusters k (Suc i)
        = updateCentroids_loop rng pos data clusters k (Suc i)"
      by (rule Suc.hyps(1) [OF m sd])
    then show ?thesis
      by (simp add: updateCentroids_loop_mean [OF lt False])
  qed
qed

lemma kmeans_body_pos: "st_pos s \<le> st_pos (kmeans_body rng data k s)"
  by (simp add: kmeans_body_fields updateCentroids_def updateCentroids_loop_pos)

lemma kmeans_body_same_draws:
  "same_draws rng rng' (st_pos s) (st_pos (kmeans_body rng data k s)) \<Longrightarrow>
     kmeans_body rng' data k s = kmeans_body rng data k s"
proof -
  assume "same_draws rng rng' (st_pos s) (st_pos (kmeans_body rng data k s))"
  then have "same_draws rng rng' (st_pos s)
      (snd (updateCentroids_loop rng (st_pos s) data (assignClusters data (st_centroids s)) k 0))"
    by (simp add: kmeans_body_fields updateCentroids_def)
  from updateCentroids_loop_same_draws [OF this] show ?thesis
    by (simp add: kmeans_body_def updateCentroids_def)
qed

lemma kmeans_while_pos:
  "kmeans_while rng data k s = Inr s' \<Longrightarrow> st_pos s \<le> st_pos s'"
proof (induction rng data k s rule: kmeans_while.induct)
  case (1 rng data k s)
  show ?case
  proof (cases "kmeans_continue s")
    case (Inl e)
    with "1.prems" show ?thesis by (simp add: kmeans_while_error)
  next
    case (Inr continue)
    show ?thesis
    proof (cases continue)
      case False
      with Inr "1.prems" show ?thesis by (simp add: kmeans_while_stop)
    next
      case True
      with Inr "1.prems" have "kmeans_while rng data k (kmeans_body rng data k s) = Inr s'"
        by (simp add: kmeans_while_step)
      from "1.IH" [OF Inr True this] kmeans_body_pos [of s rng data k]
      show ?thesis by simp
    qed
  qed
qed

lemma kmeans_while_same_draws:
  "kmeans_while rng data k s = Inr s' \<Longrightarrow> same_draws rng rng' (st_pos s) (st_pos s') \<Longrightarrow>
     kmeans_while rng' data k s = Inr s'"
proof (induction rng data k s rule: kmeans_while.induct)
  case (1 rng data k s)
  show ?case
  proof (cases "kmeans_continue s")
    case (Inl e)
    with "1.prems" show ?thesis by (simp add: kmeans_while_error)
  next
    case (Inr continue)
    show ?thesis
    proof (cases continue)
      case False
      with Inr "1.prems" show ?thesis by (simp add: kmeans_while_stop)
    next
      case True
      with Inr "1.prems" have w: "kmeans_while rng data k (kmeans_body rng data k s) = Inr s'"
        by (simp add: kmeans_while_step)
      have le: "st_pos (kmeans_body rng data k s) \<le> st_pos s'"
        by (rule kmeans_while_pos [OF w])
      have b: "kmeans_body rng' data k s = kmeans_body rng data k s"
        by (rule kmeans_body_same_draws) (rule same_draws_mono [OF "1.prems"(2) _ le], simp)
      have "kmeans_while rng' data k (kmeans_body rng data k s) = Inr s'"
        by (rule "1.IH" [OF Inr True w])
           (rule same_draws_mono [OF "1.prems"(2) kmeans_body_pos], simp)
      with Inr True b show ?thesis by (simp add: kmeans_while_step)
    qed
  qed
qed

text \<open>
  C8. The run is a function of the input vectors, of \<open>k\<close> and of the random source;
  the convergence parameters are constants. A second run on the same vectors and the
  same \<open>k\<close>, with a random source that gives the same draws at the positions the
  first run consumed, returns the same centroids, the same assignments and the same
  iteration count, and consumes the same number of draws.
\<close>

theorem runKMeansAlgorithm_deterministic:
  assumes "runKMeansAlgorithm rng pos data k = Inr (run, pos')"
    and "same_draws rng rng' pos pos'"
  shows "runKMeansAlgorithm rng' pos data k = Inr (run, pos')"
proof -
  from runKMeansAlgorithm_Inr [OF assms(1)] obtain centroids0 pos0 s where
    i: "initializeCentroidsKMeansPlusPlus rng pos data k = Inr (centroids0, pos0)"
    and w: "kmeans_while rng data k (initial_state centroids0 pos0) = Inr s"
    and run: "run = \<lparr>run_centroids = st_centroids s,
              run_clusters = assignClusters data (st_centroids s),
              run_iterations = st_iterations s\<rparr>"
    and p: "pos' = st_pos s"
    by blast
  have le1: "pos \<le> pos0" using initializeCentroids_pos [OF i] by simp
  have le2: "pos0 \<le> pos'" using kmeans_while_pos [OF w] by (simp add: p initial_state_def)
  have i': "initializeCentroidsKMeansPlusPlus rng' pos data k = Inr (centroids0, pos0)"
    by (rule initializeCentroids_same_draws [OF i same_draws_mono [OF assms(2) _ le2]]) simp
  have w': "kmeans_while rng' data k (initial_state centroids0 pos0) = Inr s"
    by (rule kmeans_while_same_draws [OF w])
       (use assms(2) le1 in \<open>auto simp: initial_state_def p same_draws_def\<close>)
  show ?thesis
    using i' w' by (simp add: runKMeansAlgorithm_def initial_state_def Let_def run p)
qed

theorem runKMeansAlgorithm_deterministic_witness:
  "runKMeansAlgorithm zero_rng 0 [origin, unit_x] 2
       = Inr (\<lparr>run_centroids = [unit_x, origin], run_clusters = [1, 0], run_iterations = 3\<rparr>, 5)
   \<and> same_draws zero_rng late_rng 0 5
   \<and> runKMeansAlgorithm late_rng 0 [origin, unit_x] 2
       = Inr (\<lparr>run_centroids = [unit_x, origin], run_clusters = [1, 0], run_iterations = 3\<rparr>, 5)"
proof -
  have h: "same_draws zero_rng late_rng 0 5"
    by (simp add: same_draws_def zero_rng_def late_rng_def)
  show ?thesis
    using runKMeansAlgorithm_deterministic [OF run_pair h] run_pair h by simp
qed


section \<open>Model selection\<close>

lemma jlt_trans: "jlt a b \<Longrightarrow> jlt b c \<Longrightarrow> jlt a c"
  by (cases a; cases b; cases c) simp_all

lemma jge_jlt_trans: "jlt b a \<Longrightarrow> jge c a \<Longrightarrow> jlt b c"
  by (cases a; cases b; cases c) simp_all

lemma findOptimalK_elbow_done:
  "\<not> i + 1 < length w \<Longrightarrow> findOptimalK_elbow w i acc = acc"
  by (cases acc) (simp add: findOptimalK_elbow.simps)

lemma findOptimalK_elbow_step:
  assumes "i + 1 < length w" and "1 \<le> i"
  shows "findOptimalK_elbow w i acc =
       findOptimalK_elbow w (Suc i)
         (if jgt (improvementRate w i) (snd acc) then (2 + i, improvementRate w i) else acc)"
proof (cases acc)
  case (Pair best m)
  have "i - 1 < length w" "i < length w" using assms by linarith+
  then have n: "num_at w (i - 1) = w ! (i - 1)" "num_at w i = w ! i"
      "num_at w (i + 1) = w ! (i + 1)"
    using assms(1) unfolding num_at_def by simp_all
  show ?thesis
    unfolding Pair using assms(1) n
    by (subst findOptimalK_elbow.simps) (simp add: improvementRate_def Let_def minK_def)
qed

lemma elbow_inv_step:
  assumes "elbow_inv w i acc" and "interior w i"
  shows "elbow_inv w (Suc i)
           (if jgt (improvementRate w i) (snd acc) then (2 + i, improvementRate w i) else acc)"
proof (cases "jgt (improvementRate w i) (snd acc)")
  case False
  with assms(1) show ?thesis
    unfolding elbow_inv_def by (auto simp: less_Suc_eq)
next
  case True
  let ?r = "improvementRate w"
  have pos: "jgt (?r i) (Fin 0)"
    using assms(1) True unfolding elbow_inv_def jgt_def by (auto intro: jlt_trans)
  have max: "\<not> jgt (?r j) (?r i)" if "interior w j" "j < Suc i" for j
  proof (cases "j = i")
    case True
    then show ?thesis by (cases "?r i") (simp_all add: jgt_def)
  next
    case False
    with that have lt: "j < i" by simp
    have "\<not> jgt (?r j) (snd acc)"
      using assms(1) that(1) lt unfolding elbow_inv_def by auto
    with True show ?thesis unfolding jgt_def by (auto intro: jlt_trans)
  qed
  have first: "\<not> jge (?r j) (?r i)" if "interior w j" "j < i" for j
  proof -
    have "\<not> jgt (?r j) (snd acc)"
      using assms(1) that unfolding elbow_inv_def by auto
    with True show ?thesis unfolding jgt_def by (auto intro: jge_jlt_trans)
  qed
  show ?thesis
    using True assms(2) pos max first unfolding elbow_inv_def by auto
qed

lemma findOptimalK_elbow_inv:
  assumes "elbow_inv w i acc" and "1 \<le> i"
  shows "elbow_inv w (max i (length w - 1)) (findOptimalK_elbow w i acc)"
  using assms
proof (induction "length w - i" arbitrary: i acc)
  case 0
  then have "\<not> i + 1 < length w" "max i (length w - 1) = i" by simp_all
  with "0.prems" show ?case by (simp add: findOptimalK_elbow_done)
next
  case (Suc m)
  show ?case
  proof (cases "i + 1 < length w")
    case False
    then have "max i (length w - 1) = i" by simp
    with False Suc.prems show ?thesis by (simp add: findOptimalK_elbow_done)
  next
    case True
    then have int: "interior w i" using Suc.prems(2) by (simp add: interior_def)
    have m: "m = length w - Suc i" using Suc.hyps(2) by simp
    have mx: "max (Suc i) (length w - 1) = max i (length w - 1)" using True by simp
    have "elbow_inv w (max (Suc i) (length w - 1))
        (findOptimalK_elbow w (Suc i)
           (if jgt (improvementRate w i) (snd acc) then (2 + i, improvementRate w i) else acc))"
      by (rule Suc.hyps(1) [OF m elbow_inv_step [OF Suc.prems(1) int]]) simp
    then show ?thesis
      unfolding findOptimalK_elbow_step [OF True Suc.prems(2)] mx .
  qed
qed

lemma interior_less: "interior w i \<Longrightarrow> i < length w"
  by (simp add: interior_def)

lemma elbow_inv_final:
  assumes "elbow_inv w (max 1 (length w - 1)) acc"
  shows "elbow_choice w (fst acc)"
proof -
  let ?r = "improvementRate w"
  have lt: "j < max 1 (length w - 1)" if "interior w j" for j
    using that unfolding interior_def by linarith
  from assms consider
    (none) "fst acc = 2" "\<forall>j < max 1 (length w - 1). interior w j \<longrightarrow> \<not> jgt (?r j) (Fin 0)"
  | (some) i0 where "interior w i0" "fst acc = 2 + i0" "jgt (?r i0) (Fin 0)"
      "\<forall>j < max 1 (length w - 1). interior w j \<longrightarrow> \<not> jgt (?r j) (?r i0)"
      "\<forall>j < i0. interior w j \<longrightarrow> \<not> jge (?r j) (?r i0)"
    unfolding elbow_inv_def by blast
  then show ?thesis
  proof cases
    case none
    then have "\<forall>i < length w. interior w i \<longrightarrow> \<not> jgt (?r i) (Fin 0)"
      using lt by blast
    with none(1) show ?thesis unfolding elbow_choice_def by blast
  next
    case some
    have "\<forall>j < length w. interior w j \<longrightarrow> \<not> jgt (?r j) (?r i0)"
      using some(4) lt by blast
    with some(1,2,3,5) interior_less [OF some(1)] show ?thesis
      unfolding elbow_choice_def by blast
  qed
qed

lemma findOptimalK_elbow_choice:
  "elbow_choice w (fst (findOptimalK_elbow w 1 (minK, Fin 0)))"
proof -
  have "elbow_inv w 1 (minK, Fin 0)"
    by (simp add: elbow_inv_def minK_def interior_def)
  from findOptimalK_elbow_inv [OF this] show ?thesis
    by (intro elbow_inv_final) simp
qed

lemma findOptimalK_sweep_done:
  "\<not> k \<le> maxK \<Longrightarrow> findOptimalK_sweep rng pos metrics maxK k ws = Inr (ws, pos)"
  by (simp add: findOptimalK_sweep.simps)

lemma findOptimalK_sweep_step:
  "k \<le> maxK \<Longrightarrow> findOptimalK_sweep rng pos metrics maxK k ws =
     (case performKMeansClustering rng pos metrics (Some k) (Some (calculateDataStats metrics)) of
        Inl e \<Rightarrow> Inl e
      | Inr (result, pos') \<Rightarrow>
          findOptimalK_sweep rng pos' metrics maxK (Suc k)
            (ws @ [wcss (evaluationMetrics result)]))"
  by (subst findOptimalK_sweep.simps) (simp add: Let_def)

lemma findOptimalK_sweep_result:
  assumes "findOptimalK_sweep rng pos metrics maxK k ws = Inr (ws', pos')"
  shows "\<exists>new. ws' = ws @ new \<and> length new = Suc maxK - k
    \<and> (\<forall>i < length new. \<exists>result p p'.
          performKMeansClustering rng p metrics (Some (k + i)) (Some (calculateDataStats metrics))
            = Inr (result, p')
        \<and> new ! i = wcss (evaluationMetrics result))"
  using assms
proof (induction "Suc maxK - k" arbitrary: k pos ws)
  case 0
  then have "\<not> k \<le> maxK" by simp
  with "0.prems" "0.hyps" show ?case by (simp add: findOptimalK_sweep_done)
next
  case (Suc m)
  then have le: "k \<le> maxK" and m: "m = Suc maxK - Suc k" by simp_all
  let ?ds = "calculateDataStats metrics"
  from Suc.prems obtain result p1 where
    r: "performKMeansClustering rng pos metrics (Some k) (Some ?ds) = Inr (result, p1)"
    and sw: "findOptimalK_sweep rng p1 metrics maxK (Suc k) (ws @ [wcss (evaluationMetrics result)])
        = Inr (ws', pos')"
    by (auto simp: findOptimalK_sweep_step [OF le] split: sum.splits)
  from Suc.hyps(1) [OF m sw] obtain new where
    new: "ws' = (ws @ [wcss (evaluationMetrics result)]) @ new" "length new = Suc maxK - Suc k"
      "\<forall>i < length new. \<exists>result p p'.
          performKMeansClustering rng p metrics (Some (Suc k + i)) (Some ?ds) = Inr (result, p')
        \<and> new ! i = wcss (evaluationMetrics result)"
    by blast
  let ?new = "wcss (evaluationMetrics result) # new"
  have "\<exists>result' p p'. performKMeansClustering rng p metrics (Some (k + i)) (Some ?ds) = Inr (result', p')
        \<and> ?new ! i = wcss (evaluationMetrics result')" if "i < length ?new" for i
  proof (cases i)
    case 0
    with r show ?thesis by auto
  next
    case (Suc i')
    with that new(3) show ?thesis by auto
  qed
  moreover have "ws' = ws @ ?new" using new(1) by simp
  moreover have "length ?new = Suc maxK - k" using new(2) le by simp
  ultimately show ?case by blast
qed

lemma findOptimalK_sweep_total:
  assumes "valid_rng rng" and "finite_metrics metrics" and "metrics \<noteq> []" and "1 \<le> k"
  shows "\<exists>ws' pos'. findOptimalK_sweep rng pos metrics maxK k ws = Inr (ws', pos')"
  using assms(4)
proof (induction "Suc maxK - k" arbitrary: k pos ws)
  case 0
  then have "\<not> k \<le> maxK" by simp
  then show ?case by (simp add: findOptimalK_sweep_done)
next
  case (Suc m)
  then have le: "k \<le> maxK" and m: "m = Suc maxK - Suc k" by simp_all
  from performKMeansClustering_total [OF assms(1-3) Suc.prems] obtain result p1 where
    r: "performKMeansClustering rng pos metrics (Some k) (Some (calculateDataStats metrics))
        = Inr (result, p1)"
    by blast
  from Suc.hyps(1) [OF m, of p1 "ws @ [wcss (evaluationMetrics result)]"]
  show ?case by (simp add: findOptimalK_sweep_step [OF le] r)
qed

lemma findOptimalK_total:
  assumes "valid_rng rng" and "finite_metrics metrics"
  shows "\<exists>chosen pos'. findOptimalK rng pos metrics = Inr (chosen, pos')"
proof (cases "metrics = []")
  case True
  then show ?thesis
    by (simp add: findOptimalK_def maxK_of_def minK_def findOptimalK_sweep_done)
next
  case False
  from findOptimalK_sweep_total [OF assms False, of minK pos "maxK_of metrics" "[]"]
  obtain ws' pos' where
    "findOptimalK_sweep rng pos metrics (maxK_of metrics) minK [] = Inr (ws', pos')"
    by (auto simp: minK_def)
  then show ?thesis by (simp add: findOptimalK_def)
qed

lemma candidates_nth: "i < length (candidates metrics) \<Longrightarrow> candidates metrics ! i = 2 + i"
proof -
  assume "i < length (candidates metrics)"
  then have "i < Suc (min 8 (length metrics div 2)) - 2"
    unfolding candidates_def length_upt .
  then have "2 + i < Suc (min 8 (length metrics div 2))"
    by linarith
  then show ?thesis
    unfolding candidates_def by (rule nth_upt)
qed

lemma length_candidates: "length (candidates metrics) = Suc (maxK_of metrics) - minK"
  by (simp add: candidates_def maxK_of_def minK_def del: upt_Suc)

lemma findOptimalK_Inr:
  assumes "findOptimalK rng pos metrics = Inr (chosen, pos')"
  shows "\<exists>wcssValues. length wcssValues = length (candidates metrics)
         \<and> (\<forall>i < length wcssValues. \<exists>result p p'.
               performKMeansClustering rng p metrics (Some (candidates metrics ! i))
                 (Some (calculateDataStats metrics)) = Inr (result, p')
             \<and> wcssValues ! i = wcss (evaluationMetrics result))
         \<and> elbow_choice wcssValues chosen"
proof -
  from assms obtain ws where
    sw: "findOptimalK_sweep rng pos metrics (maxK_of metrics) minK [] = Inr (ws, pos')"
    and ch: "chosen = fst (findOptimalK_elbow ws 1 (minK, Fin 0))"
    by (auto simp: findOptimalK_def split: sum.splits)
  from findOptimalK_sweep_result [OF sw] have
    len: "length ws = Suc (maxK_of metrics) - minK"
    and runs: "\<forall>i < length ws. \<exists>result p p'.
          performKMeansClustering rng p metrics (Some (minK + i)) (Some (calculateDataStats metrics))
            = Inr (result, p')
        \<and> ws ! i = wcss (evaluationMetrics result)"
    by auto
  have "\<forall>i < length ws. \<exists>result p p'.
          performKMeansClustering rng p metrics (Some (candidates metrics ! i))
            (Some (calculateDataStats metrics)) = Inr (result, p')
        \<and> ws ! i = wcss (evaluationMetrics result)"
    using runs len by (simp add: candidates_nth length_candidates minK_def)
  moreover have "elbow_choice ws chosen"
    unfolding ch by (rule findOptimalK_elbow_choice)
  ultimately show ?thesis
    using len by (auto simp: length_candidates)
qed

lemma candidates_six: "length metrics = 6 \<Longrightarrow> candidates metrics = [2, 3]"
  by (simp add: candidates_def upt_rec)

text \<open>
  C2. When \<open>findOptimalK\<close> returns, it has clustered once for each candidate from 2
  up to \<open>min(8, floor(customerCount / 2))\<close>, in this order, and recorded the WCSS of each
  run; the count it returns is that of the first interior candidate whose
  \<open>improvement - nextImprovement\<close> is above 0 and maximal, and 2 when no interior candidate
  has a rate above 0. For six customers the candidates are 2 and 3. With draws in
  \<open>[0, 1)\<close> and finite record values \<open>findOptimalK\<close> does return.
\<close>

theorem findOptimalK_selection:
  "(\<forall>chosen pos'. findOptimalK rng pos metrics = Inr (chosen, pos') \<longrightarrow>
      (\<exists>wcssValues. length wcssValues = length (candidates metrics)
         \<and> (\<forall>i < length wcssValues. \<exists>result p p'.
               performKMeansClustering rng p metrics (Some (candidates metrics ! i))
                 (Some (calculateDataStats metrics)) = Inr (result, p')
             \<and> wcssValues ! i = wcss (evaluationMetrics result))
         \<and> elbow_choice wcssValues chosen))
   \<and> (length metrics = 6 \<longrightarrow> candidates metrics = [2, 3])
   \<and> (valid_rng rng \<and> finite_metrics metrics \<longrightarrow>
        (\<exists>chosen pos'. findOptimalK rng pos metrics = Inr (chosen, pos')))"
  using findOptimalK_Inr [of rng pos metrics] candidates_six [of metrics]
    findOptimalK_total [of rng metrics pos]
  by blast

theorem findOptimalK_selection_witness:
  "length six_twins = 6 \<and> valid_rng zero_rng \<and> finite_metrics six_twins
   \<and> candidates six_twins = [2, 3]
   \<and> (\<exists>pos'. findOptimalK zero_rng 0 six_twins = Inr (2, pos'))"
proof -
  have h1: "length six_twins = 6" by (simp add: six_twins_def)
  have h2: "valid_rng zero_rng" by (simp add: valid_rng_def zero_rng_def)
  have h3: "finite_metrics six_twins"
    by (simp add: six_twins_def finite_metrics_def finite_metric_def twin_def)
  note t = findOptimalK_selection [of zero_rng 0 six_twins]
  from t h1 have c: "candidates six_twins = [2, 3]" by blast
  from t h2 h3 obtain chosen pos' where
    f: "findOptimalK zero_rng 0 six_twins = Inr (chosen, pos')"
    by blast
  with t obtain ws where ws: "length ws = length (candidates six_twins)" "elbow_choice ws chosen"
    by blast
  have "\<not> interior ws i" for i
    using ws(1) c by (simp add: interior_def)
  with ws(2) have "chosen = 2" by (auto simp: elbow_choice_def)
  with f h1 h2 h3 c show ?thesis by blast
qed

end
